(* ===== verification/Prelude.thy ===== *)
theory Prelude
  imports Main "HOL-Library.Word" "HOL-Library.Multiset" "HOL-Library.Sublist"
begin

text \<open>
  What every component shares: panics and fallible results, the loop that every actor task
  of the crate runs (\<open>loop { match rx.next().await { ... } }\<close>), the invariant and simulation
  interfaces of such loops, and the interface of the third-party channels and sinks
  (crates \<open>futures\<close> and \<open>tokio\<close>) as parameters with named laws.
\<close>

named_theorems channel_laws \<open>the documented behaviour of the third-party channels\<close>

section \<open>Panics and fallible computations\<close>

text \<open>
  A Rust panic is a value: the message of \<open>expect\<close> and \<open>panic!\<close> is kept, the other panicking
  macros are constructors of their own.
\<close>

datatype panic =
    Expect string
  | UnwrapNone
  | AssertFailed
  | Todo
  | Unreachable
  | PanicWith string
  | Overflow

text \<open>Sequencing of computations that may panic (or return early with an error).\<close>

fun and_then :: "'e + 'a \<Rightarrow> ('a \<Rightarrow> 'e + 'b) \<Rightarrow> 'e + 'b" where
  "and_then (Inl e) f = Inl e"
| "and_then (Inr x) f = f x"

lemma and_then_eq_Inr [simp]:
  "and_then m f = Inr y \<longleftrightarrow> (\<exists>x. m = Inr x \<and> f x = Inr y)"
  by (cases m) auto

lemma and_then_eq_Inl:
  "and_then m f = Inl e \<longleftrightarrow> m = Inl e \<or> (\<exists>x. m = Inr x \<and> f x = Inl e)"
  by (cases m) auto

definition assert_that :: "bool \<Rightarrow> 'a \<Rightarrow> panic + 'a" where
  "assert_that b x = (if b then Inr x else Inl AssertFailed)"

lemma assert_that_simps [simp]:
  "assert_that True x = Inr x"
  "assert_that False x = Inl AssertFailed"
  by (simp_all add: assert_that_def)

lemma assert_that_eq_Inr [simp]: "assert_that b x = Inr y \<longleftrightarrow> b \<and> x = y"
  by (simp add: assert_that_def)

text \<open>A \<open>for\<close> loop whose body may panic.\<close>

fun fold_ok :: "('x \<Rightarrow> 's \<Rightarrow> 'e + 's) \<Rightarrow> 'x list \<Rightarrow> 's \<Rightarrow> 'e + 's" where
  "fold_ok f [] s = Inr s"
| "fold_ok f (x # xs) s = and_then (f x s) (fold_ok f xs)"

lemma fold_ok_append:
  "fold_ok f (xs @ ys) s = and_then (fold_ok f xs s) (fold_ok f ys)"
proof (induction xs arbitrary: s)
  case Nil
  show ?case by simp
next
  case (Cons x xs)
  then show ?case by (cases "f x s") auto
qed

lemma fold_ok_invariant:
  assumes "\<And>x s s'. x \<in> set xs \<Longrightarrow> P s \<Longrightarrow> f x s = Inr s' \<Longrightarrow> P s'"
  shows "fold_ok f xs s = Inr t \<Longrightarrow> P s \<Longrightarrow> P t"
  using assms by (induction xs arbitrary: s) auto

section \<open>The loop of an actor task\<close>

text \<open>
  One round of a task's loop consumes one item of its input stream and ends in one of three
  ways: the task awaits the next item, it left the loop with a value (\<open>break\<close>), or it
  panicked. \<open>run_loop\<close> runs the rounds over the items delivered so far, so a task that still
  waits for input is \<open>Running\<close>, and that it stops is a statement about its value.
\<close>

datatype ('s, 'r) flow =
    Running 's
  | Finished 's 'r
  | Panicked panic

fun run_loop :: "('s \<Rightarrow> 'i \<Rightarrow> ('s, 'r) flow) \<Rightarrow> 's \<Rightarrow> 'i list \<Rightarrow> ('s, 'r) flow" where
  "run_loop step s [] = Running s"
| "run_loop step s (i # is) =
     (case step s i of
        Running s' \<Rightarrow> run_loop step s' is
      | Finished s' r \<Rightarrow> Finished s' r
      | Panicked p \<Rightarrow> Panicked p)"

lemma run_loop_append:
  "run_loop step s (is @ js) =
     (case run_loop step s is of
        Running s' \<Rightarrow> run_loop step s' js
      | Finished s' r \<Rightarrow> Finished s' r
      | Panicked p \<Rightarrow> Panicked p)"
  by (induction "is" arbitrary: s) (auto split: flow.splits)

lemma run_loop_Running_append:
  "run_loop step s is = Running t \<Longrightarrow> run_loop step s (is @ js) = run_loop step t js"
  by (simp add: run_loop_append)

text \<open>A run ends in the round in which its step does, and only then.\<close>

lemma run_loop_Finished_iff:
  "(\<exists>t r. run_loop step s is = Finished t r) \<longleftrightarrow>
   (\<exists>before i later u. is = before @ i # later \<and> run_loop step s before = Running u \<and>
      (\<exists>t r. step u i = Finished t r))" (is "?run s is \<longleftrightarrow> ?split s is")
proof
  show "?run s is \<Longrightarrow> ?split s is"
  proof (induction "is" arbitrary: s)
    case (Cons i "is")
    show ?case
    proof (cases "step s i")
      case (Running u)
      with Cons.prems have "?run u is" by simp
      from Cons.IH [OF this] obtain before j later v where "is = before @ j # later"
        "run_loop step u before = Running v" "\<exists>t r. step v j = Finished t r" by blast
      with Running show ?thesis by (intro exI [of _ "i # before"] exI) auto
    qed (use Cons.prems in \<open>force intro: exI [of _ "[]"]\<close>)+
  qed simp
qed (auto simp: run_loop_append)

lemma run_loop_Panicked_iff:
  "run_loop step s is = Panicked p \<longleftrightarrow>
   (\<exists>before i later u. is = before @ i # later \<and> run_loop step s before = Running u \<and>
      step u i = Panicked p)" (is "?run s is \<longleftrightarrow> ?split s is")
proof
  show "?run s is \<Longrightarrow> ?split s is"
  proof (induction "is" arbitrary: s)
    case (Cons i "is")
    show ?case
    proof (cases "step s i")
      case (Running u)
      with Cons.prems have "?run u is" by simp
      from Cons.IH [OF this] obtain before j later v where "is = before @ j # later"
        "run_loop step u before = Running v" "step v j = Panicked p" by blast
      with Running show ?thesis by (intro exI [of _ "i # before"] exI) auto
    qed (use Cons.prems in \<open>force intro: exI [of _ "[]"]\<close>)+
  qed simp
qed (auto simp: run_loop_append)

text \<open>A panicking computation as the end of a round.\<close>

fun to_flow :: "panic + 's \<Rightarrow> ('s, 'r) flow" where
  "to_flow (Inl p) = Panicked p"
| "to_flow (Inr s) = Running s"

lemma to_flow_Running [simp]: "to_flow m = Running s \<longleftrightarrow> m = Inr s"
  by (cases m) auto

lemma to_flow_Panicked [simp]: "to_flow m = Panicked p \<longleftrightarrow> m = Inl p"
  by (cases m) auto

lemma to_flow_Finished [simp]: "to_flow m \<noteq> Finished s r"
  by (cases m) auto

text \<open>
  A run is admissible when every item it consumes is one the environment may deliver in the
  state the task is in at that moment.
\<close>

fun admissible :: "('s \<Rightarrow> 'i \<Rightarrow> ('s, 'r) flow) \<Rightarrow> ('s \<Rightarrow> 'i \<Rightarrow> bool) \<Rightarrow> 's \<Rightarrow> 'i list \<Rightarrow> bool" where
  "admissible step ok s [] = True"
| "admissible step ok s (i # is) =
     (ok s i \<and> (case step s i of Running s' \<Rightarrow> admissible step ok s' is | _ \<Rightarrow> True))"

lemma admissible_trivial: "(\<And>s i. ok s i) \<Longrightarrow> admissible step ok s is"
  by (induction "is" arbitrary: s) (auto split: flow.splits)

text \<open>
  Interface between a task's round and the facts about whole runs: an invariant that every
  admissible round keeps holds whenever the task awaits its next item.
\<close>

locale loop_invariant =
  fixes step :: "'s \<Rightarrow> 'i \<Rightarrow> ('s, 'r) flow"
    and ok :: "'s \<Rightarrow> 'i \<Rightarrow> bool"
    and inv :: "'s \<Rightarrow> bool"
  assumes keeps: "inv s \<Longrightarrow> ok s i \<Longrightarrow> step s i = Running s' \<Longrightarrow> inv s'"
begin

lemma run_keeps:
  "admissible step ok s is \<Longrightarrow> inv s \<Longrightarrow> run_loop step s is = Running t \<Longrightarrow> inv t"
  by (induction "is" arbitrary: s) (auto split: flow.splits dest: keeps)

lemma reaches_last_round:
  "admissible step ok s is \<Longrightarrow> inv s \<Longrightarrow> run_loop step s is = Panicked p \<Longrightarrow>
   \<exists>u i. inv u \<and> ok u i \<and> step u i = Panicked p"
  by (induction "is" arbitrary: s) (auto split: flow.splits dest: keeps)

end

text \<open>A task whose admissible rounds never panic from a state that satisfies the invariant.\<close>

locale safe_loop = loop_invariant +
  assumes no_panic: "inv s \<Longrightarrow> ok s i \<Longrightarrow> step s i \<noteq> Panicked p"
begin

lemma run_never_panics:
  "admissible step ok s is \<Longrightarrow> inv s \<Longrightarrow> run_loop step s is \<noteq> Panicked p"
  using no_panic reaches_last_round by blast

end

text \<open>
  Refinement by the log a task emits: an abstract machine reads the log event by event and may
  refuse an event; every round of the task extends the log by events the machine accepts, and
  the machine's state stays the abstraction of the task's state.
\<close>

fun replay :: "('a \<Rightarrow> 'e \<Rightarrow> 'a option) \<Rightarrow> 'a \<Rightarrow> 'e list \<Rightarrow> 'a option" where
  "replay act a [] = Some a"
| "replay act a (e # es) = (case act a e of None \<Rightarrow> None | Some b \<Rightarrow> replay act b es)"

lemma replay_append:
  "replay act a (es @ fs) = (case replay act a es of None \<Rightarrow> None | Some b \<Rightarrow> replay act b fs)"
  by (induction es arbitrary: a) (auto split: option.splits)

locale logged_loop = loop_invariant +
  fixes emitted :: "'a \<Rightarrow> 'e list"
    and abs :: "'a \<Rightarrow> 's"
    and act :: "'s \<Rightarrow> 'e \<Rightarrow> 's option"
  assumes logs: "inv s \<Longrightarrow> ok s i \<Longrightarrow> step s i = Running s' \<Longrightarrow>
    \<exists>es. emitted s' = emitted s @ es \<and> replay act (abs s) es = Some (abs s')"
begin

lemma run_logs:
  "admissible step ok s is \<Longrightarrow> inv s \<Longrightarrow> run_loop step s is = Running t \<Longrightarrow>
   \<exists>es. emitted t = emitted s @ es \<and> replay act (abs s) es = Some (abs t)"
proof (induction "is" arbitrary: s)
  case Nil
  then show ?case by simp
next
  case (Cons i "is")
  then obtain s' where s': "step s i = Running s'" "run_loop step s' is = Running t"
    by (auto split: flow.splits)
  with Cons.prems have ok: "ok s i" and adm: "admissible step ok s' is" by auto
  from logs [OF Cons.prems(2) ok s'(1)] obtain es where
    es: "emitted s' = emitted s @ es" "replay act (abs s) es = Some (abs s')" by blast
  from Cons.IH [OF adm keeps [OF Cons.prems(2) ok s'(1)] s'(2)] obtain fs where
    fs: "emitted t = emitted s' @ fs" "replay act (abs s') fs = Some (abs t)" by blast
  from es fs have "emitted t = emitted s @ (es @ fs) \<and> replay act (abs s) (es @ fs) = Some (abs t)"
    by (simp add: replay_append)
  then show ?case by blast
qed

end

section \<open>Third-party channels and sinks\<close>

text \<open>
  \<open>futures::channel::mpsc\<close> is not part of the crate. A sending half is a value of any type
  \<open>'tx\<close>, and \<open>try_send\<close> (or \<open>unbounded_send\<close>) is a parameter that maps it and the message to
  the sending half afterwards and the result: \<open>None\<close> for \<open>Ok(())\<close>, or the error value, seen
  through the three methods the code calls on it. The value of type \<open>'tx\<close> may carry whatever
  decides the outcome of later calls (the buffer, the schedule of the receiving task), so
  every interleaving with the receiver is an instance.
\<close>

record 'm try_send_error =
  is_full :: bool
  is_disconnected :: bool
  into_inner :: 'm

type_synonym ('tx, 'm) try_send = "'tx \<Rightarrow> 'm \<Rightarrow> 'tx \<times> 'm try_send_error option"

text \<open>
  The documented behaviour: a message is accepted exactly when \<open>Ok(())\<close> is returned, a
  failed call returns the message and is due to a full or to a disconnected channel.
  \<open>accepted tx\<close> is the history of the messages the channel took from this sender.
\<close>

definition try_send_law :: "('tx, 'm) try_send \<Rightarrow> ('tx \<Rightarrow> 'm list) \<Rightarrow> bool" where
  "try_send_law ts accepted \<longleftrightarrow>
     (\<forall>tx m. case ts tx m of
        (tx', None) \<Rightarrow> accepted tx' = accepted tx @ [m]
      | (tx', Some err) \<Rightarrow>
          accepted tx' = accepted tx \<and> into_inner err = m \<and> (is_full err \<or> is_disconnected err))"

lemma try_send_law_ok [channel_laws]:
  "try_send_law ts accepted \<Longrightarrow> ts tx m = (tx', None) \<Longrightarrow> accepted tx' = accepted tx @ [m]"
  unfolding try_send_law_def by (metis (mono_tags, lifting) case_prod_conv option.simps(4))

lemma try_send_law_err [channel_laws]:
  "try_send_law ts accepted \<Longrightarrow> ts tx m = (tx', Some err) \<Longrightarrow>
   accepted tx' = accepted tx \<and> into_inner err = m \<and> (is_full err \<or> is_disconnected err)"
  unfolding try_send_law_def by (metis (mono_tags, lifting) case_prod_conv option.simps(5))

text \<open>The unbounded channel whose receiver is kept open accepts every message.\<close>

definition receiver_open :: "('tx, 'm) try_send \<Rightarrow> bool" where
  "receiver_open ts \<longleftrightarrow> (\<forall>tx m. snd (ts tx m) = None)"

lemma receiver_openD [channel_laws]: "receiver_open ts \<Longrightarrow> ts tx m = (tx', r) \<Longrightarrow> r = None"
  unfolding receiver_open_def by (metis snd_conv)

text \<open>What a channel takes of one attempt to send: the message, or nothing when it refuses it.\<close>

definition taken :: "('tx, 'm) try_send \<Rightarrow> 'tx \<Rightarrow> 'm \<Rightarrow> 'm list" where
  "taken ts tx m = (if snd (ts tx m) = None then [m] else [])"

lemma taken_open [simp]: "receiver_open ts \<Longrightarrow> taken ts tx m = [m]"
  by (simp add: taken_def receiver_open_def)

lemma try_send_law_taken:
  "try_send_law ts accepted \<Longrightarrow> accepted (fst (ts tx m)) = accepted tx @ taken ts tx m"
  by (cases "ts tx m"; cases "snd (ts tx m)") (auto simp: taken_def dest: channel_laws)

text \<open>Attempts to send a list of messages, one after another, whatever becomes of each.\<close>

definition post_all :: "('tx, 'm) try_send \<Rightarrow> 'm list \<Rightarrow> 'tx \<Rightarrow> 'tx" where
  "post_all ts ms tx = fold (\<lambda>m tx. fst (ts tx m)) ms tx"

lemma post_all_simps [simp]:
  "post_all ts [] tx = tx" "post_all ts (m # ms) tx = post_all ts ms (fst (ts tx m))"
  by (simp_all add: post_all_def)

lemma post_all_taken:
  assumes law: "try_send_law ts accepted"
  shows "\<exists>xs. accepted (post_all ts ms tx) = accepted tx @ xs \<and> subseq xs ms \<and>
    (receiver_open ts \<longrightarrow> xs = ms)"
proof (induction ms arbitrary: tx)
  case (Cons m ms)
  from Cons.IH [of "fst (ts tx m)"] obtain xs where
    xs: "accepted (post_all ts ms (fst (ts tx m))) = accepted tx @ taken ts tx m @ xs"
      "subseq xs ms" "receiver_open ts \<longrightarrow> xs = ms"
    by (auto simp: try_send_law_taken [OF law])
  have "subseq (taken ts tx m @ xs) (m # ms)" using xs(2) by (simp add: taken_def list_emb_Cons)
  with xs show ?case by (intro exI [of _ "taken ts tx m @ xs"]) simp
qed simp

text \<open>
  A \<open>futures::Sink\<close>: awaiting \<open>send\<close>, \<open>feed\<close>, \<open>flush\<close> or \<open>close\<close> yields the sink afterwards
  and an error, if there was one.
\<close>

type_synonym ('k, 'm, 'e) sink_call = "'k \<Rightarrow> 'm \<Rightarrow> 'k \<times> 'e option"

text \<open>
  The sending half of a channel used as a sink: an awaited \<open>send\<close> either delivers the item, or
  fails because the receiver is gone, and then delivers nothing.
\<close>

definition sink_law :: "('k, 'm, 'e) sink_call \<Rightarrow> ('k \<Rightarrow> 'm list) \<Rightarrow> bool" where
  "sink_law send accepted \<longleftrightarrow>
     (\<forall>k m. case send k m of
        (k', None) \<Rightarrow> accepted k' = accepted k @ [m]
      | (k', Some e) \<Rightarrow> accepted k' = accepted k)"

lemma sink_law_ok [channel_laws]:
  "sink_law send accepted \<Longrightarrow> send k m = (k', None) \<Longrightarrow> accepted k' = accepted k @ [m]"
  unfolding sink_law_def by (metis (mono_tags, lifting) case_prod_conv option.simps(4))

lemma sink_law_err [channel_laws]:
  "sink_law send accepted \<Longrightarrow> send k m = (k', Some e) \<Longrightarrow> accepted k' = accepted k"
  unfolding sink_law_def by (metis (mono_tags, lifting) case_prod_conv option.simps(5))

text \<open>A sink whose receiver stays open never fails.\<close>

definition sink_open :: "('k, 'm, 'e) sink_call \<Rightarrow> bool" where
  "sink_open send \<longleftrightarrow> (\<forall>k m. snd (send k m) = None)"

lemma sink_openD [channel_laws]: "sink_open send \<Longrightarrow> send k m = (k', r) \<Longrightarrow> r = None"
  unfolding sink_open_def by (metis snd_conv)

lemma sink_send_cases:
  assumes "sink_law send accepted" and "sink_open send"
  obtains k' where "send k m = (k', None)" and "accepted k' = accepted k @ [m]"
proof (cases "send k m")
  case (Pair k' r)
  with assms(2) have sent: "send k m = (k', None)" by (auto dest: sink_openD)
  show ?thesis by (rule that [OF sent sink_law_ok [OF assms(1) sent]])
qed

section \<open>A reference channel\<close>

text \<open>
  A concrete bounded channel that satisfies the laws; it instantiates the parameters where a
  theorem is applied to concrete input. \<open>room\<close> is how many more messages fit.
\<close>

record 'm ref_chan =
  chan_log :: "'m list"
  chan_room :: nat
  chan_open :: bool

definition ref_channel :: "nat \<Rightarrow> 'm ref_chan" where
  "ref_channel n = \<lparr>chan_log = [], chan_room = n, chan_open = True\<rparr>"

definition ref_try_send :: "('m ref_chan, 'm) try_send" where
  "ref_try_send c m =
     (if \<not> chan_open c then (c, Some \<lparr>is_full = False, is_disconnected = True, into_inner = m\<rparr>)
      else if chan_room c = 0 then (c, Some \<lparr>is_full = True, is_disconnected = False, into_inner = m\<rparr>)
      else (c\<lparr>chan_log := chan_log c @ [m], chan_room := chan_room c - 1\<rparr>, None))"

definition ref_unbounded_send :: "('m list, 'm) try_send" where
  "ref_unbounded_send log m = (log @ [m], None)"

definition ref_send :: "('m ref_chan, 'm, unit) sink_call" where
  "ref_send c m =
     (if chan_open c then (c\<lparr>chan_log := chan_log c @ [m]\<rparr>, None) else (c, Some ()))"

lemma ref_send_law: "sink_law ref_send chan_log"
  by (simp add: sink_law_def ref_send_def)

definition ref_send_open :: "('m list, 'm, unit) sink_call" where
  "ref_send_open log m = (log @ [m], None)"

lemma ref_send_open_law: "sink_law ref_send_open (\<lambda>log. log)" "sink_open ref_send_open"
  by (simp_all add: sink_law_def sink_open_def ref_send_open_def)

lemma ref_try_send_law: "try_send_law ref_try_send chan_log"
  by (simp add: try_send_law_def ref_try_send_def)

lemma ref_unbounded_send_law:
  "try_send_law ref_unbounded_send (\<lambda>log. log)"
  "receiver_open ref_unbounded_send"
  by (simp_all add: try_send_law_def receiver_open_def ref_unbounded_send_def)

end
