(* ===== verification/HashMap.thy ===== *)
theory HashMap
  imports Prelude "HOL-Library.AList"
begin

text \<open>
  \<open>std::collections::HashMap\<close>, the store of the broker: an association list without duplicate
  keys, whose order the callers must not rely on. The interface \<open>key_store\<close> states what the
  broker uses of it; \<open>indexed_store\<close> is the contract between a store of peers and a reverse
  index over it (socket address or handshake UUID to peer UID), proved once and used for the
  three indices of the broker.
\<close>

section \<open>Operations\<close>

type_synonym ('k, 'v) hash_map = "('k \<times> 'v) list"

definition hm_empty :: "('k, 'v) hash_map" where
  "hm_empty = []"

definition hm_get :: "('k, 'v) hash_map \<Rightarrow> 'k \<Rightarrow> 'v option" where
  "hm_get m k = map_of m k"

definition hm_insert :: "'k \<Rightarrow> 'v \<Rightarrow> ('k, 'v) hash_map \<Rightarrow> ('k, 'v) hash_map" where
  "hm_insert k v m = AList.update k v m"

definition hm_remove :: "'k \<Rightarrow> ('k, 'v) hash_map \<Rightarrow> ('k, 'v) hash_map" where
  "hm_remove k m = AList.delete k m"

definition hm_len :: "('k, 'v) hash_map \<Rightarrow> nat" where
  "hm_len m = length m"

definition hm_keys :: "('k, 'v) hash_map \<Rightarrow> 'k list" where
  "hm_keys m = map fst m"

definition hm_wf :: "('k, 'v) hash_map \<Rightarrow> bool" where
  "hm_wf m \<longleftrightarrow> distinct (map fst m)"

lemmas hm_defs = hm_empty_def hm_get_def hm_insert_def hm_remove_def hm_len_def hm_keys_def hm_wf_def

lemma hm_get_empty [simp]: "hm_get hm_empty k = None"
  by (simp add: hm_defs)

lemma hm_get_insert [simp]: "hm_get (hm_insert k v m) = (hm_get m)(k \<mapsto> v)"
  by (rule ext) (simp add: hm_defs update_conv')

lemma hm_get_remove [simp]: "hm_get (hm_remove k m) = (hm_get m)(k := None)"
  by (rule ext) (simp add: hm_defs delete_conv')

lemma hm_wf_ops [simp, intro]:
  "hm_wf hm_empty"
  "hm_wf m \<Longrightarrow> hm_wf (hm_insert k v m)"
  "hm_wf m \<Longrightarrow> hm_wf (hm_remove k m)"
  by (simp_all add: hm_defs distinct_update distinct_delete)

lemma hm_keys_wf [simp]: "hm_wf m \<Longrightarrow> distinct (hm_keys m)"
  by (simp add: hm_defs)

lemma set_hm_keys: "set (hm_keys m) = dom (hm_get m)"
proof -
  have "hm_get m = map_of m" by (rule ext) (simp add: hm_get_def)
  then show ?thesis by (simp add: hm_keys_def dom_map_of_conv_image_fst)
qed

lemma in_hm_keys: "k \<in> set (hm_keys m) \<longleftrightarrow> (\<exists>v. hm_get m k = Some v)"
  by (auto simp: set_hm_keys)

lemma hm_len_card: "hm_wf m \<Longrightarrow> hm_len m = card (dom (hm_get m))"
  by (simp add: set_hm_keys [symmetric] distinct_card hm_keys_wf)
     (simp add: hm_defs)

lemma finite_dom_hm_get [simp]: "finite (dom (hm_get m))"
  by (simp add: set_hm_keys [symmetric])

section \<open>The interface of a keyed store\<close>

locale key_store =
  fixes empty :: "'m"
    and get :: "'m \<Rightarrow> 'k \<Rightarrow> 'v option"
    and put :: "'k \<Rightarrow> 'v \<Rightarrow> 'm \<Rightarrow> 'm"
    and del :: "'k \<Rightarrow> 'm \<Rightarrow> 'm"
    and len :: "'m \<Rightarrow> nat"
    and wf :: "'m \<Rightarrow> bool"
  assumes get_empty: "get empty k = None"
    and get_put: "get (put k v m) = (get m)(k \<mapsto> v)"
    and get_del: "get (del k m) = (get m)(k := None)"
    and wf_empty: "wf empty"
    and wf_put: "wf m \<Longrightarrow> wf (put k v m)"
    and wf_del: "wf m \<Longrightarrow> wf (del k m)"
    and finite_keys: "finite (dom (get m))"
    and len_keys: "wf m \<Longrightarrow> len m = card (dom (get m))"
begin

lemma len_empty: "len empty = 0"
proof -
  have "dom (get empty) = {}" by (auto simp: get_empty)
  then show ?thesis by (simp add: len_keys wf_empty)
qed

lemma len_put_fresh: "wf m \<Longrightarrow> get m k = None \<Longrightarrow> len (put k v m) = Suc (len m)"
  by (simp add: len_keys wf_put get_put finite_keys domIff)

lemma len_put_same: "wf m \<Longrightarrow> get m k = Some w \<Longrightarrow> len (put k v m) = len m"
  by (simp add: len_keys wf_put get_put insert_absorb domI)

lemma len_put_le: "wf m \<Longrightarrow> len (put k v m) \<le> Suc (len m)"
  by (cases "get m k") (simp_all add: len_put_fresh len_put_same)

lemma len_del: "wf m \<Longrightarrow> len (del k m) = (if get m k = None then len m else len m - 1)"
  by (auto simp: len_keys wf_del get_del finite_keys card_Diff_singleton domIff insert_absorb)

end

interpretation hm: key_store hm_empty hm_get hm_insert hm_remove hm_len hm_wf
  by unfold_locales (auto simp: hm_len_card)

section \<open>Reverse indices\<close>

text \<open>
  \<open>key p\<close> is the key under which a peer is indexed (none for a peer without a known UDP
  address). A sound index points only to stored peers that carry the key; a complete one
  finds every stored peer by its key.
\<close>

definition index_sound :: "('p \<Rightarrow> 'k option) \<Rightarrow> ('u \<Rightarrow> 'p option) \<Rightarrow> ('k \<Rightarrow> 'u option) \<Rightarrow> bool" where
  "index_sound key store ix \<longleftrightarrow>
     (\<forall>k u. ix k = Some u \<longrightarrow> (\<exists>p. store u = Some p \<and> key p = Some k))"

definition index_complete :: "('p \<Rightarrow> 'k option) \<Rightarrow> ('u \<Rightarrow> 'p option) \<Rightarrow> ('k \<Rightarrow> 'u option) \<Rightarrow> bool" where
  "index_complete key store ix \<longleftrightarrow>
     (\<forall>u p k. store u = Some p \<longrightarrow> key p = Some k \<longrightarrow> ix k = Some u)"

lemma index_soundD:
  "index_sound key store ix \<Longrightarrow> ix k = Some u \<Longrightarrow> \<exists>p. store u = Some p \<and> key p = Some k"
  by (simp add: index_sound_def)

lemma index_sound_absent: "index_sound key store ix \<Longrightarrow> store u = None \<Longrightarrow> ix k \<noteq> Some u"
  by (metis index_soundD option.distinct(1))

lemma index_completeD:
  "index_complete key store ix \<Longrightarrow> store u = Some p \<Longrightarrow> key p = Some k \<Longrightarrow> ix k = Some u"
  by (simp add: index_complete_def)

locale indexed_store =
  store: key_store sempty sget sput sdel slen swf +
  index: key_store iempty iget iput idel ilen iwf
  for sempty :: "'s" and sget :: "'s \<Rightarrow> 'u \<Rightarrow> 'p option" and sput sdel slen swf
    and iempty :: "'i" and iget :: "'i \<Rightarrow> 'k \<Rightarrow> 'u option" and iput idel ilen iwf +
  fixes key :: "'p \<Rightarrow> 'k option"
begin

lemma sound_empty: "index_sound key (sget sempty) (iget iempty)"
  by (simp add: index_sound_def index.get_empty)

lemma complete_empty: "index_complete key (sget sempty) (iget iempty)"
  by (simp add: index_complete_def store.get_empty)

text \<open>A new peer is stored and indexed under its key.\<close>

lemma register_sound:
  "index_sound key (sget s) (iget i) \<Longrightarrow> sget s u = None \<Longrightarrow> key p = Some k \<Longrightarrow>
   index_sound key (sget (sput u p s)) (iget (iput k u i))"
  unfolding index_sound_def by (simp add: store.get_put index.get_put) (metis option.distinct(1))

lemma register_complete:
  assumes "index_complete key (sget s) (iget i)" and "key p = Some k"
    and "\<And>v q. sget s v = Some q \<Longrightarrow> key q \<noteq> Some k"
  shows "index_complete key (sget (sput u p s)) (iget (iput k u i))"
  using assms unfolding index_complete_def by (auto simp: store.get_put index.get_put)

text \<open>A new peer without a key.\<close>

lemma store_unkeyed_sound:
  "index_sound key (sget s) (iget i) \<Longrightarrow> sget s u = None \<Longrightarrow>
   index_sound key (sget (sput u p s)) (iget i)"
  unfolding index_sound_def by (simp add: store.get_put) (metis option.distinct(1))

text \<open>The peer is removed together with its entry.\<close>

lemma unregister_sound:
  assumes "index_sound key (sget s) (iget i)" and "sget s u = Some p"
  shows "index_sound key (sget (sdel u s))
    (iget (case key p of None \<Rightarrow> i | Some k \<Rightarrow> idel k i))"
  using assms
  by (cases "key p") (fastforce simp: index_sound_def store.get_del index.get_del)+

lemma unregister_complete:
  assumes "index_complete key (sget s) (iget i)" and "sget s u = Some p"
  shows "index_complete key (sget (sdel u s))
    (iget (case key p of None \<Rightarrow> i | Some k \<Rightarrow> idel k i))"
  unfolding index_complete_def
proof (intro allI impI)
  fix v q l assume v: "sget (sdel u s) v = Some q" and l: "key q = Some l"
  then have "v \<noteq> u" and "sget s v = Some q" by (auto simp: store.get_del split: if_splits)
  then have found: "iget i l = Some v" using assms(1) l by (blast dest: index_completeD)
  with \<open>v \<noteq> u\<close> assms have "key p \<noteq> Some l" by (auto dest: index_completeD)
  with found show "iget (case key p of None \<Rightarrow> i | Some k \<Rightarrow> idel k i) l = Some v"
    by (auto simp: index.get_del split: option.splits)
qed

text \<open>A stored peer is replaced by one with the same key.\<close>

lemma replace_sound:
  "index_sound key (sget s) (iget i) \<Longrightarrow> sget s u = Some p \<Longrightarrow> key q = key p \<Longrightarrow>
   index_sound key (sget (sput u q s)) (iget i)"
  unfolding index_sound_def by (simp add: store.get_put) (metis option.inject)

lemma replace_complete:
  "index_complete key (sget s) (iget i) \<Longrightarrow> sget s u = Some p \<Longrightarrow> key q = key p \<Longrightarrow>
   index_complete key (sget (sput u q s)) (iget i)"
  unfolding index_complete_def by (simp add: store.get_put)

text \<open>A stored peer without a key (or with the same key) is given one.\<close>

lemma rekey_sound:
  assumes "index_sound key (sget s) (iget i)" and "sget s u = Some p"
    and "key p = None \<or> key p = Some k" and "key q = Some k"
  shows "index_sound key (sget (sput u q s)) (iget (iput k u i))"
  using assms by (fastforce simp: index_sound_def store.get_put index.get_put)

text \<open>Counting: a sound index is no larger than the store, a complete one no smaller.\<close>

lemma sound_len:
  assumes "index_sound key (sget s) (iget i)" and "swf s" and "iwf i"
  shows "ilen i \<le> slen s"
proof -
  have "inj_on (\<lambda>k. the (iget i k)) (dom (iget i))"
  proof (rule inj_onI)
    fix k l assume "k \<in> dom (iget i)" "l \<in> dom (iget i)" "the (iget i k) = the (iget i l)"
    then obtain u where "iget i k = Some u" "iget i l = Some u" by auto
    then obtain p q where "sget s u = Some p" "key p = Some k" "sget s u = Some q" "key q = Some l"
      using index_soundD [OF assms(1)] by blast
    then show "k = l" by simp
  qed
  moreover have "(\<lambda>k. the (iget i k)) ` dom (iget i) \<subseteq> dom (sget s)"
    using assms(1) unfolding index_sound_def by fastforce
  ultimately have "card (dom (iget i)) \<le> card (dom (sget s))"
    by (rule card_inj_on_le) (rule store.finite_keys)
  then show ?thesis by (simp add: assms store.len_keys index.len_keys)
qed

lemma complete_len:
  assumes "index_complete key (sget s) (iget i)" and "\<And>p. key p \<noteq> None"
    and "swf s" and "iwf i"
  shows "slen s \<le> ilen i"
proof -
  let ?f = "\<lambda>u. the (key (the (sget s u)))"
  have found: "iget i (?f u) = Some u" if "u \<in> dom (sget s)" for u
  proof -
    from that obtain p where p: "sget s u = Some p" by blast
    obtain k where "key p = Some k" using assms(2) [of p] by blast
    with p assms(1) show ?thesis by (auto dest: index_completeD)
  qed
  have "inj_on ?f (dom (sget s))"
  proof (rule inj_onI)
    fix u v assume u: "u \<in> dom (sget s)" and v: "v \<in> dom (sget s)" and eq: "?f u = ?f v"
    have "Some u = iget i (?f u)" by (rule found [OF u, symmetric])
    also have "\<dots> = Some v" unfolding eq by (rule found [OF v])
    finally show "u = v" by simp
  qed
  moreover have "?f ` dom (sget s) \<subseteq> dom (iget i)"
  proof (rule image_subsetI)
    fix u assume "u \<in> dom (sget s)"
    from found [OF this] show "?f u \<in> dom (iget i)" by (rule domI)
  qed
  ultimately have "card (dom (sget s)) \<le> card (dom (iget i))"
    by (rule card_inj_on_le) (rule index.finite_keys)
  then show ?thesis by (simp add: assms store.len_keys index.len_keys)
qed

end

end
