(* ===== verification/MessageTypes.thy ===== *)
theory MessageTypes
  imports Prelude
begin

text \<open>
  The wire messages (\<open>src/src/message_types.rs\<close>) and the standard-library and \<open>uuid\<close> types they
  mention. The four associated types of the trait \<open>MessageTypes\<close> are type parameters:
  \<open>'tts\<close> (TcpToServer), \<open>'tfs\<close> (TcpFromServer), \<open>'uts\<close> (UdpToServer), \<open>'ufs\<close> (UdpFromServer).
\<close>

section \<open>Addresses and identifiers\<close>

text \<open>\<open>std::net::SocketAddr\<close>: address and port, with flow info and scope for version 6.\<close>

datatype socket_addr =
    SocketAddrV4 "32 word" "16 word"
  | SocketAddrV6 "128 word" "16 word" "32 word" "32 word"

type_synonym uuid = "128 word"

text \<open>
  The code uses an \<open>std::io::Error\<close> or a \<open>bincode::Error\<close> only by displaying it: its message
  stands for it.
\<close>

type_synonym io_error = string
type_synonym bincode_error = string

section \<open>Message enums\<close>

datatype 'tts tcp_to_server =
    TcpToServerApplicationLogic 'tts

datatype 'tfs tcp_from_server =
    TcpFromServerApplicationLogic 'tfs
  | TcpWelcome uuid
  | UdpHandshakeAcknowledged

datatype 'uts udp_to_server =
    UdpToServerApplicationLogic 'uts
  | UdpHello uuid

datatype 'ufs udp_from_server =
    UdpFromServerApplicationLogic 'ufs
  | UdpWelcome
  | Heartbeat

section \<open>Cloning\<close>

text \<open>
  The hand-written \<open>Clone\<close> implementations; the application's own \<open>clone\<close> of the payload is
  the parameter.
\<close>

fun clone_tcp_to_server :: "('tts \<Rightarrow> 'tts) \<Rightarrow> 'tts tcp_to_server \<Rightarrow> 'tts tcp_to_server" where
  "clone_tcp_to_server cl (TcpToServerApplicationLogic msg) = TcpToServerApplicationLogic (cl msg)"

fun clone_tcp_from_server :: "('tfs \<Rightarrow> 'tfs) \<Rightarrow> 'tfs tcp_from_server \<Rightarrow> 'tfs tcp_from_server" where
  "clone_tcp_from_server cl (TcpFromServerApplicationLogic msg) =
     TcpFromServerApplicationLogic (cl msg)"
| "clone_tcp_from_server cl (TcpWelcome handshake_uuid) = TcpWelcome handshake_uuid"
| "clone_tcp_from_server cl UdpHandshakeAcknowledged = UdpHandshakeAcknowledged"

fun clone_udp_to_server :: "('uts \<Rightarrow> 'uts) \<Rightarrow> 'uts udp_to_server \<Rightarrow> 'uts udp_to_server" where
  "clone_udp_to_server cl (UdpToServerApplicationLogic msg) = UdpToServerApplicationLogic (cl msg)"
| "clone_udp_to_server cl (UdpHello handshake_uuid) = UdpHello handshake_uuid"

fun clone_udp_from_server :: "('ufs \<Rightarrow> 'ufs) \<Rightarrow> 'ufs udp_from_server \<Rightarrow> 'ufs udp_from_server" where
  "clone_udp_from_server cl (UdpFromServerApplicationLogic msg) =
     UdpFromServerApplicationLogic (cl msg)"
| "clone_udp_from_server cl UdpWelcome = UdpWelcome"
| "clone_udp_from_server cl Heartbeat = Heartbeat"

text \<open>
  The contract of a \<open>Clone\<close> implementation of a message enum: cloning with a payload clone that
  returns an equal value returns an equal message.
\<close>

locale clone_message =
  fixes clone :: "('a \<Rightarrow> 'a) \<Rightarrow> 'm \<Rightarrow> 'm"
  assumes clone_eq: "(\<And>x. cl x = x) \<Longrightarrow> clone cl m = m"
    and clone_comp: "clone f (clone g m) = clone (\<lambda>x. f (g x)) m"
begin

text \<open>Sending clones of a message to any number of receivers sends equal messages.\<close>

lemma clones_equal: "(\<And>x. cl x = x) \<Longrightarrow> map (\<lambda>k. (clone cl m, k)) ks = map (Pair m) ks"
  by (simp add: clone_eq)

lemma clone_twice: "(\<And>x. cl (cl x) = cl x) \<Longrightarrow> clone cl (clone cl m) = clone cl m"
  by (simp add: clone_comp)

end

interpretation tcp_to: clone_message clone_tcp_to_server
proof
  fix cl :: "'a \<Rightarrow> 'a" and m assume "\<And>x. cl x = x"
  then show "clone_tcp_to_server cl m = m" by (cases m) simp
next
  fix f g :: "'a \<Rightarrow> 'a" and m
  show "clone_tcp_to_server f (clone_tcp_to_server g m) = clone_tcp_to_server (\<lambda>x. f (g x)) m"
    by (cases m) simp
qed

interpretation tcp_from: clone_message clone_tcp_from_server
proof
  fix cl :: "'a \<Rightarrow> 'a" and m assume "\<And>x. cl x = x"
  then show "clone_tcp_from_server cl m = m" by (cases m) simp_all
next
  fix f g :: "'a \<Rightarrow> 'a" and m
  show "clone_tcp_from_server f (clone_tcp_from_server g m) = clone_tcp_from_server (\<lambda>x. f (g x)) m"
    by (cases m) simp_all
qed

interpretation udp_to: clone_message clone_udp_to_server
proof
  fix cl :: "'a \<Rightarrow> 'a" and m assume "\<And>x. cl x = x"
  then show "clone_udp_to_server cl m = m" by (cases m) simp_all
next
  fix f g :: "'a \<Rightarrow> 'a" and m
  show "clone_udp_to_server f (clone_udp_to_server g m) = clone_udp_to_server (\<lambda>x. f (g x)) m"
    by (cases m) simp_all
qed

interpretation udp_from: clone_message clone_udp_from_server
proof
  fix cl :: "'a \<Rightarrow> 'a" and m assume "\<And>x. cl x = x"
  then show "clone_udp_from_server cl m = m" by (cases m) simp_all
next
  fix f g :: "'a \<Rightarrow> 'a" and m
  show "clone_udp_from_server f (clone_udp_from_server g m) = clone_udp_from_server (\<lambda>x. f (g x)) m"
    by (cases m) simp_all
qed

end
