(* ===== verification/Actors.thy ===== *)
theory Actors
  imports Prelude
begin

text \<open>
  What the IO actors have in common (\<open>src/src/actors.rs\<close>): how a task ended, and the contract of
  the handles of the read and the write actor towards their owner.
\<close>

section \<open>Shutdown of an actor task\<close>

datatype erratic_actor_shutdown = Cancelled | Panic

datatype 't actor_shutdown =
    Controlled 't
  | Erratic erratic_actor_shutdown

text \<open>\<open>tokio::task::JoinError\<close>, seen through the two methods the code calls.\<close>

record join_error =
  is_cancelled :: bool
  is_panic :: bool

definition erratic_from_join_error :: "join_error \<Rightarrow> panic + erratic_actor_shutdown" where
  "erratic_from_join_error err =
     (if is_cancelled err then Inr Cancelled
      else if is_panic err then Inr Panic
      else Inl Unreachable)"

fun actor_shutdown_from_result :: "erratic_actor_shutdown + 't \<Rightarrow> 't actor_shutdown" where
  "actor_shutdown_from_result (Inr t) = Controlled t"
| "actor_shutdown_from_result (Inl err) = Erratic err"

fun actor_shutdown_from_join :: "join_error + 't \<Rightarrow> panic + 't actor_shutdown" where
  "actor_shutdown_from_join (Inr t) = Inr (Controlled t)"
| "actor_shutdown_from_join (Inl err) =
     and_then (erratic_from_join_error err) (\<lambda>e. Inr (Erratic e))"

fun erratic_to_string :: "erratic_actor_shutdown \<Rightarrow> string" where
  "erratic_to_string Cancelled = ''Actor task was cancelled''"
| "erratic_to_string Panic = ''Actor task panicked''"

text \<open>
  What \<open>tokio\<close> documents of a finished task: it returned its value, or it was cancelled, or it
  panicked. \<open>task_result\<close> reads the end of a loop of this model as the join result.
\<close>

definition join_error_law :: "join_error \<Rightarrow> bool" where
  "join_error_law err \<longleftrightarrow> is_cancelled err \<noteq> is_panic err"

fun task_result :: "('s, 'r) flow \<Rightarrow> (join_error + 'r) option" where
  "task_result (Running s) = None"
| "task_result (Finished s r) = Some (Inr r)"
| "task_result (Panicked p) = Some (Inl \<lparr>is_cancelled = False, is_panic = True\<rparr>)"

lemma actor_shutdown_from_join_total:
  "(case r of Inl err \<Rightarrow> join_error_law err | Inr _ \<Rightarrow> True) \<Longrightarrow>
   \<exists>s. actor_shutdown_from_join r = Inr s"
  by (cases r) (auto simp: erratic_from_join_error_def join_error_law_def)

lemma shutdown_of_task:
  "task_result (Finished s r) = Some j \<Longrightarrow> actor_shutdown_from_join j = Inr (Controlled r)"
  "task_result (Panicked p) = Some j \<Longrightarrow> actor_shutdown_from_join j = Inr (Erratic Panic)"
  by (auto simp: erratic_from_join_error_def)

section \<open>The contract of an actor handle\<close>

text \<open>
  A handle holds the sending half of its actor's mailbox and the shared future of the actor's
  shutdown reason, which is identified by the task it awaits.
\<close>

type_synonym task_id = nat

text \<open>
  Both handles post a message to the mailbox and report a full or a closed channel. \<open>post\<close> gets
  the channel's \<open>try_send\<close> as its first argument.
\<close>

locale mailbox =
  fixes post :: "('tx, 'm) try_send \<Rightarrow> 'h \<Rightarrow> 'm \<Rightarrow> panic + 'h \<times> 'e option"
    and chan :: "'h \<Rightarrow> 'tx"
    and task :: "'h \<Rightarrow> task_id"
    and full :: 'e
    and closed :: 'e
  assumes post_accepts: "ts (chan h) m = (c, None) \<Longrightarrow>
      \<exists>h'. post ts h m = Inr (h', None) \<and> chan h' = c \<and> task h' = task h"
    and post_full: "ts (chan h) m = (c, Some err) \<Longrightarrow> is_full err \<Longrightarrow>
      \<exists>h'. post ts h m = Inr (h', Some full) \<and> chan h' = c \<and> task h' = task h"
    and post_closed: "ts (chan h) m = (c, Some err) \<Longrightarrow> \<not> is_full err \<Longrightarrow> is_disconnected err \<Longrightarrow>
      \<exists>h'. post ts h m = Inr (h', Some closed) \<and> chan h' = c \<and> task h' = task h"
begin

text \<open>Under the law of the channel posting never panics, and its result is exact.\<close>

lemma post_cases:
  assumes law: "try_send_law ts accepted"
  shows "\<exists>h' r. post ts h m = Inr (h', r) \<and> task h' = task h \<and>
    (r = None \<and> accepted (chan h') = accepted (chan h) @ [m] \<or>
     r \<in> {Some full, Some closed} \<and> accepted (chan h') = accepted (chan h))"
proof (cases "ts (chan h) m")
  case (Pair c res)
  show ?thesis
  proof (cases res)
    case None
    with Pair have sent: "ts (chan h) m = (c, None)" by simp
    with post_accepts [of ts h m c] try_send_law_ok [OF law this] show ?thesis by auto
  next
    case (Some err)
    with Pair have failed: "ts (chan h) m = (c, Some err)" by simp
    note try_send_law_err [OF law this]
    with failed show ?thesis
      by (cases "is_full err") (use post_full [of ts h m c err] post_closed [of ts h m c err] in auto)
  qed
qed

text \<open>The result of posting, read off what the channel answers.\<close>

lemma post_result:
  assumes law: "try_send_law ts accepted"
  shows "\<exists>h' r. post ts h m = Inr (h', r) \<and> task h' = task h \<and>
    (case ts (chan h) m of
       (c, None) \<Rightarrow> r = None \<and> accepted (chan h') = accepted (chan h) @ [m]
     | (c, Some err) \<Rightarrow> r = Some (if is_full err then full else closed) \<and>
         accepted (chan h') = accepted (chan h))"
proof (cases "ts (chan h) m")
  case (Pair c res)
  show ?thesis
  proof (cases res)
    case None
    with Pair have sent: "ts (chan h) m = (c, None)" by simp
    from post_accepts [of ts h m c, OF sent] try_send_law_ok [OF law sent] sent show ?thesis by auto
  next
    case (Some err)
    with Pair have failed: "ts (chan h) m = (c, Some err)" by simp
    note err = try_send_law_err [OF law failed]
    show ?thesis
    proof (cases "is_full err")
      case True
      from post_full [of ts h m c err, OF failed True] err failed True show ?thesis by auto
    next
      case False
      with err have "is_disconnected err" by simp
      from post_closed [of ts h m c err, OF failed False this] err failed False show ?thesis by auto
    qed
  qed
qed

lemma post_total: "try_send_law ts accepted \<Longrightarrow> \<exists>h' r. post ts h m = Inr (h', r)"
  using post_cases by blast

lemma post_task:
  "try_send_law ts accepted \<Longrightarrow> post ts h m = Inr (h', r) \<Longrightarrow> task h' = task h"
  using post_cases [of ts accepted h m] by auto

lemma post_not_panics: "try_send_law ts accepted \<Longrightarrow> post ts h m \<noteq> Inl p"
  using post_total [of ts accepted h m] by auto

lemma post_history:
  "try_send_law ts accepted \<Longrightarrow> post ts h m = Inr (h', r) \<Longrightarrow>
   accepted (chan h') = accepted (chan h) @ (if r = None then [m] else [])"
  using post_cases [of ts accepted h m] by auto

lemma post_taken:
  assumes law: "try_send_law ts accepted" and run: "post ts h m = Inr (h', r)"
  shows "accepted (chan h') = accepted (chan h) @ taken ts (chan h) m"
  using post_result [OF law, of h m] run by (auto simp: taken_def split: prod.splits option.splits)

lemma post_refused:
  assumes law: "try_send_law ts accepted"
  shows "\<exists>h' r. post ts h m = Inr (h', r) \<and> (r = None \<longleftrightarrow> snd (ts (chan h) m) = None)"
proof (cases "ts (chan h) m")
  case (Pair c res)
  with post_result [OF law, of h m] show ?thesis by (cases res) auto
qed

lemma post_open:
  assumes "try_send_law ts accepted" and "receiver_open ts"
  shows "\<exists>h'. post ts h m = Inr (h', None) \<and> task h' = task h \<and>
    accepted (chan h') = accepted (chan h) @ [m]"
proof (cases "ts (chan h) m")
  case (Pair c res)
  with assms(2) have "ts (chan h) m = (c, None)" by (auto dest: channel_laws)
  with post_accepts [of ts h m c] try_send_law_ok [OF assms(1) this] show ?thesis by auto
qed

end

text \<open>Posting a list of messages, whatever the channel answers to each (errors are logged).\<close>

fun post_each :: "('h \<Rightarrow> 'm \<Rightarrow> panic + 'h \<times> 'e option) \<Rightarrow> 'm list \<Rightarrow> 'h \<Rightarrow> panic + 'h" where
  "post_each post [] h = Inr h"
| "post_each post (m # ms) h = and_then (post h m) (\<lambda>(h', _). post_each post ms h')"

context mailbox
begin

lemma post_each_history:
  assumes law: "try_send_law ts accepted"
  shows "\<exists>h' xs. post_each (post ts) ms h = Inr h' \<and> task h' = task h \<and> subseq xs ms \<and>
    accepted (chan h') = accepted (chan h) @ xs"
proof (induction ms arbitrary: h)
  case Nil
  show ?case by auto
next
  case (Cons m ms)
  from post_cases [OF law, of h m] obtain h' r where
    h': "post ts h m = Inr (h', r)" "task h' = task h"
    and acc: "accepted (chan h') = accepted (chan h) @ (if r = None then [m] else [])"
    by auto
  from Cons.IH [of h'] obtain h2 xs where
    h2: "post_each (post ts) ms h' = Inr h2" "task h2 = task h'" "subseq xs ms"
      "accepted (chan h2) = accepted (chan h') @ xs"
    by blast
  have "subseq ((if r = None then [m] else []) @ xs) (m # ms)"
    using h2(3) by (simp add: subseq_Cons2 list_emb_Cons)
  with h' acc h2 show ?case by auto
qed

lemma post_each_open:
  assumes law: "try_send_law ts accepted" and "receiver_open ts"
  shows "\<exists>h'. post_each (post ts) ms h = Inr h' \<and> task h' = task h \<and>
    accepted (chan h') = accepted (chan h) @ ms"
proof (induction ms arbitrary: h)
  case Nil
  show ?case by simp
next
  case (Cons m ms)
  from post_open [OF assms, of h m] obtain h' where
    "post ts h m = Inr (h', None)" "task h' = task h"
    "accepted (chan h') = accepted (chan h) @ [m]" by blast
  with Cons.IH [of h'] show ?case by auto
qed

end

end
