(* ===== verification/ReadActor.thy ===== *)
theory ReadActor
  imports Actors
begin

text \<open>
  The read actor (\<open>src/src/actors/read_actor.rs\<close>): a task that forwards the items of a stream to
  a channel until it is told to stop, the stream ends, its handles are dropped or the receiver
  is gone; and the handle its owner keeps.
\<close>

section \<open>Messages, errors and shutdown reasons\<close>

datatype read_actor_error = ReadChannelFull | ReadChannelClosed

datatype 't read_actor_event = StreamItem 't

datatype read_actor_shutdown_reason =
    ReadSignalled
  | ReadEndOfStream
  | ReadActorHandlesDropped
  | ReceiverClosedChannel

fun read_shutdown_to_string :: "read_actor_shutdown_reason \<Rightarrow> string" where
  "read_shutdown_to_string ReadSignalled = ''Signalled shutdown''"
| "read_shutdown_to_string ReadEndOfStream = ''End of stream''"
| "read_shutdown_to_string ReadActorHandlesDropped = ''All actor handles dropped''"
| "read_shutdown_to_string ReceiverClosedChannel = ''Receiver closed channel''"

datatype read_actor_message = ReadShutdown

section \<open>The handle\<close>

record 'tx read_actor_handle =
  rd_actor_msg_tx :: 'tx
  rd_shutdown_reason :: task_id

definition read_handle_new :: "'tx \<Rightarrow> task_id \<Rightarrow> 'tx read_actor_handle" where
  "read_handle_new actor_msg_tx shutdown_reason =
     \<lparr>rd_actor_msg_tx = actor_msg_tx, rd_shutdown_reason = shutdown_reason\<rparr>"

text \<open>
  Spawning creates a channel of capacity 8 (\<open>channel\<close> is the third-party constructor, which
  yields the sending half) and a task that runs the actor.
\<close>

definition read_spawn_actor :: "(nat \<Rightarrow> 'tx) \<Rightarrow> task_id \<Rightarrow> 'tx read_actor_handle" where
  "read_spawn_actor channel join_handle = read_handle_new (channel 8) join_handle"

definition read_send_actor_message ::
  "('tx, read_actor_message) try_send \<Rightarrow> 'tx read_actor_handle \<Rightarrow> read_actor_message \<Rightarrow>
   panic + 'tx read_actor_handle \<times> read_actor_error option" where
  "read_send_actor_message try_send h msg =
     (case try_send (rd_actor_msg_tx h) msg of
        (tx, None) \<Rightarrow> Inr (h\<lparr>rd_actor_msg_tx := tx\<rparr>, None)
      | (tx, Some err) \<Rightarrow>
          if is_full err then Inr (h\<lparr>rd_actor_msg_tx := tx\<rparr>, Some ReadChannelFull)
          else if is_disconnected err then Inr (h\<lparr>rd_actor_msg_tx := tx\<rparr>, Some ReadChannelClosed)
          else Inl Unreachable)"

definition read_signal_shutdown ::
  "('tx, read_actor_message) try_send \<Rightarrow> 'tx read_actor_handle \<Rightarrow>
   panic + 'tx read_actor_handle \<times> read_actor_error option" where
  "read_signal_shutdown try_send h = read_send_actor_message try_send h ReadShutdown"

definition read_wait :: "'tx read_actor_handle \<Rightarrow> task_id" where
  "read_wait h = rd_shutdown_reason h"

definition read_is_finished ::
  "(task_id \<Rightarrow> read_actor_shutdown_reason actor_shutdown option) \<Rightarrow> 'tx read_actor_handle \<Rightarrow>
   read_actor_shutdown_reason actor_shutdown option" where
  "read_is_finished peek h = peek (rd_shutdown_reason h)"

interpretation rd: mailbox read_send_actor_message rd_actor_msg_tx rd_shutdown_reason
  ReadChannelFull ReadChannelClosed
  by unfold_locales (simp_all add: read_send_actor_message_def)

section \<open>The actor\<close>

datatype read_kind = ReadKindActorMessage | ReadKindStream

datatype 't received =
    RecvActorMessage read_actor_message
  | RecvStreamItem 't
  | RecvEndOfStream read_kind

text \<open>
  One round of the loop on the item that \<open>rx.next().await\<close> yields (\<open>None\<close>: the merged stream
  has ended, which the code unwraps). The loop's state is the sink \<open>tx\<close>.
\<close>

fun read_actor_step ::
  "('k, 't read_actor_event, 'e) sink_call \<Rightarrow> 'k \<Rightarrow> 't received option \<Rightarrow>
   ('k, read_actor_shutdown_reason) flow" where
  "read_actor_step send tx None = Panicked UnwrapNone"
| "read_actor_step send tx (Some (RecvActorMessage ReadShutdown)) = Finished tx ReadSignalled"
| "read_actor_step send tx (Some (RecvStreamItem item)) =
     (case send tx (StreamItem item) of
        (tx', None) \<Rightarrow> Running tx'
      | (tx', Some e) \<Rightarrow> Finished tx' ReceiverClosedChannel)"
| "read_actor_step send tx (Some (RecvEndOfStream ReadKindActorMessage)) =
     Finished tx ReadActorHandlesDropped"
| "read_actor_step send tx (Some (RecvEndOfStream ReadKindStream)) = Finished tx ReadEndOfStream"

text \<open>
  The input of the loop: \<open>stream::select\<close> merges the mailbox and the stream in any order, each
  with its \<open>EndOfStream\<close> item chained behind, and ends after both.
\<close>

definition read_mailbox_rx :: "read_actor_message list \<Rightarrow> 't received list" where
  "read_mailbox_rx msgs = map RecvActorMessage msgs @ [RecvEndOfStream ReadKindActorMessage]"

definition read_stream_rx :: "'t list \<Rightarrow> 't received list" where
  "read_stream_rx xs = map RecvStreamItem xs @ [RecvEndOfStream ReadKindStream]"

definition read_actor ::
  "('k, 't read_actor_event, 'e) sink_call \<Rightarrow> 'k \<Rightarrow> 't received list \<Rightarrow>
   ('k, read_actor_shutdown_reason) flow" where
  "read_actor send tx rx = run_loop (read_actor_step send) tx (map Some rx @ [None])"

section \<open>Behaviour\<close>

fun is_stream_item :: "'t received \<Rightarrow> bool" where
  "is_stream_item (RecvStreamItem x) = True"
| "is_stream_item _ = False"

fun stop_reason :: "'t received \<Rightarrow> read_actor_shutdown_reason" where
  "stop_reason (RecvActorMessage m) = ReadSignalled"
| "stop_reason (RecvStreamItem x) = ReceiverClosedChannel"
| "stop_reason (RecvEndOfStream ReadKindActorMessage) = ReadActorHandlesDropped"
| "stop_reason (RecvEndOfStream ReadKindStream) = ReadEndOfStream"

lemma read_step_stop:
  "\<not> is_stream_item y \<Longrightarrow> read_actor_step send tx (Some y) = Finished tx (stop_reason y)"
proof (cases y)
  case (RecvActorMessage m)
  then show ?thesis by (cases m) simp
next
  case (RecvEndOfStream k)
  then show ?thesis by (cases k) simp_all
qed simp

text \<open>
  Sending a list of items one after another; \<open>None\<close> when one of them is refused. It is stated
  over the sink alone, so that what the actor has forwarded can be compared with it.
\<close>

fun send_all :: "('k, 'x, 'e) sink_call \<Rightarrow> 'k \<Rightarrow> 'x list \<Rightarrow> 'k option" where
  "send_all send k [] = Some k"
| "send_all send k (x # xs) =
     (case send k x of (k', None) \<Rightarrow> send_all send k' xs | (k', Some e) \<Rightarrow> None)"

lemma send_all_law:
  "sink_law send accepted \<Longrightarrow> send_all send k xs = Some k' \<Longrightarrow> accepted k' = accepted k @ xs"
  by (induction xs arbitrary: k) (auto dest: channel_laws split: prod.splits option.splits)

text \<open>How the sink is left at the item a run stops at.\<close>

fun read_left :: "('k, 't read_actor_event, 'e) sink_call \<Rightarrow> 'k \<Rightarrow> 't received \<Rightarrow> 'k \<Rightarrow> bool" where
  "read_left send k (RecvStreamItem x) k' \<longleftrightarrow> (\<exists>e. send k (StreamItem x) = (k', Some e))"
| "read_left send k y k' \<longleftrightarrow> k' = k"

lemma read_left_law: "sink_law send accepted \<Longrightarrow> read_left send k y k' \<Longrightarrow> accepted k' = accepted k"
  by (cases y) (auto dest: channel_laws)

text \<open>
  A run forwards the items before the item it stops at, in their order, and stops: at the first
  message or end of stream, or at an item whose delivery fails.
\<close>

lemma read_actor_run:
  assumes stop: "\<exists>y \<in> set rx. \<not> is_stream_item y"
  shows "\<exists>xs y rest tx1 tx'.
    rx = map RecvStreamItem xs @ y # rest \<and>
    run_loop (read_actor_step send) tx (map Some rx @ later) = Finished tx' (stop_reason y) \<and>
    send_all send tx (map StreamItem xs) = Some tx1 \<and> read_left send tx1 y tx'"
    (is "\<exists>xs y rest tx1 tx'. ?P tx rx xs y rest tx1 tx'")
  using stop
proof (induction rx arbitrary: tx)
  case Nil
  then show ?case by simp
next
  case (Cons r rx)
  show ?case
  proof (cases "is_stream_item r")
    case False
    then have "?P tx (r # rx) [] r rx tx tx" by (cases r) (simp_all add: read_step_stop)
    then show ?thesis by blast
  next
    case True
    then obtain x where r: "r = RecvStreamItem x" by (cases r) auto
    obtain tx0 e where sent: "send tx (StreamItem x) = (tx0, e)" by fastforce
    show ?thesis
    proof (cases e)
      case None
      from Cons.prems True have "\<exists>y \<in> set rx. \<not> is_stream_item y" by auto
      from Cons.IH [OF this, of tx0] obtain xs y rest tx1 tx' where "?P tx0 rx xs y rest tx1 tx'" by blast
      with r sent None have "?P tx (r # rx) (x # xs) y rest tx1 tx'"
        by (elim conjE) (simp del: map_map)
      then show ?thesis by blast
    next
      case (Some err)
      with r sent have "?P tx (r # rx) [] r rx tx tx0" by simp
      then show ?thesis by blast
    qed
  qed
qed

text \<open>The merged input keeps the order of its two sources.\<close>

fun from_mailbox :: "'t received \<Rightarrow> bool" where
  "from_mailbox (RecvActorMessage m) = True"
| "from_mailbox (RecvEndOfStream ReadKindActorMessage) = True"
| "from_mailbox _ = False"

lemma mailbox_rx_from_mailbox [simp]: "y \<in> set (read_mailbox_rx ms) \<Longrightarrow> from_mailbox y"
  by (auto simp: read_mailbox_rx_def)

lemma stream_rx_from_stream [simp]: "y \<in> set (read_stream_rx xs) \<Longrightarrow> \<not> from_mailbox y"
  by (auto simp: read_stream_rx_def)

lemma merged_split:
  assumes "rx \<in> shuffles (read_mailbox_rx ms) (read_stream_rx xs)"
  shows "filter from_mailbox rx = read_mailbox_rx ms"
    and "filter (\<lambda>y. \<not> from_mailbox y) rx = read_stream_rx xs"
proof -
  have sub: "filter P rx \<in> shuffles (filter P (read_mailbox_rx ms)) (filter P (read_stream_rx xs))" for P
    using assms filter_shuffles [of P "read_mailbox_rx ms" "read_stream_rx xs"] by blast
  have all: "filter from_mailbox (read_mailbox_rx ms) = read_mailbox_rx ms"
    "filter (\<lambda>y. \<not> from_mailbox y) (read_stream_rx xs) = read_stream_rx xs"
    by (simp_all add: filter_id_conv)
  have none: "filter from_mailbox (read_stream_rx xs) = []"
    "filter (\<lambda>y. \<not> from_mailbox y) (read_mailbox_rx ms) = []"
    by (simp_all add: filter_empty_conv)
  from sub [of from_mailbox] show "filter from_mailbox rx = read_mailbox_rx ms"
    unfolding all none by simp
  from sub [of "\<lambda>y. \<not> from_mailbox y"]
  show "filter (\<lambda>y. \<not> from_mailbox y) rx = read_stream_rx xs"
    unfolding all none by simp
qed

lemma items_before_stop:
  assumes "filter (\<lambda>y. \<not> from_mailbox y) (map RecvStreamItem ys @ y # rest) = read_stream_rx xs"
  shows "prefix ys xs" and "y = RecvEndOfStream ReadKindStream \<Longrightarrow> ys = xs"
proof -
  have keep: "filter (\<lambda>y. \<not> from_mailbox y) (map RecvStreamItem ys) = map RecvStreamItem ys"
    by (simp add: filter_id_conv)
  from assms keep have eq: "map RecvStreamItem ys @ filter (\<lambda>y. \<not> from_mailbox y) (y # rest) =
      map RecvStreamItem xs @ [RecvEndOfStream ReadKindStream]"
    by (simp add: read_stream_rx_def)
  have items: "takeWhile is_stream_item (map RecvStreamItem zs @ later) =
      map RecvStreamItem zs @ takeWhile is_stream_item later" for zs :: "'a list" and later
    by (induction zs) simp_all
  from arg_cong [OF eq, of "takeWhile is_stream_item"]
  have tw: "map RecvStreamItem ys @
      takeWhile is_stream_item (filter (\<lambda>y. \<not> from_mailbox y) (y # rest)) = map RecvStreamItem xs"
    by (simp only: items) simp
  then have "prefix (map RecvStreamItem ys) (map RecvStreamItem xs)" by (metis prefixI)
  then show "prefix ys xs"
    by (metis inj_on_def inj_map_eq_map map_mono_prefix prefix_map_rightE received.inject(2))
  assume "y = RecvEndOfStream ReadKindStream"
  with tw show "ys = xs" by (simp add: inj_on_def inj_map_eq_map)
qed

lemma message_before_stop:
  assumes "filter from_mailbox (map RecvStreamItem ys @ y # rest) = read_mailbox_rx ms"
  shows "y = RecvActorMessage m \<Longrightarrow> m \<in> set ms"
    and "y = RecvEndOfStream ReadKindActorMessage \<Longrightarrow> ms = []"
proof -
  have "filter from_mailbox (map RecvStreamItem ys) = []"
    by (simp add: filter_empty_conv)
  with assms have eq: "filter from_mailbox (y # rest) =
      map RecvActorMessage ms @ [RecvEndOfStream ReadKindActorMessage]"
    by (simp add: read_mailbox_rx_def)
  {
    assume y: "y = RecvActorMessage m"
    with eq have "y \<in> set (map RecvActorMessage ms @ [RecvEndOfStream ReadKindActorMessage])"
      by (metis filter.simps(2) from_mailbox.simps(1) list.set_intros(1))
    with y show "m \<in> set ms" by auto
  }
  assume "y = RecvEndOfStream ReadKindActorMessage"
  with eq show "ms = []" by (cases ms) auto
qed

lemma item_before_failure:
  assumes "filter (\<lambda>y. \<not> from_mailbox y) (map RecvStreamItem ys @ RecvStreamItem x # rest) = read_stream_rx xs"
  shows "prefix (ys @ [x]) xs"
proof -
  from assms have "map RecvStreamItem (ys @ [x]) @ filter (\<lambda>y. \<not> from_mailbox y) rest =
      read_stream_rx xs"
    by (simp add: filter_id_conv)
  then show ?thesis
    unfolding read_stream_rx_def
    by (induction "ys @ [x]" arbitrary: ys xs) (auto simp: Cons_eq_append_conv append_eq_Cons_conv)
qed

text \<open>
  The whole actor on a merged input: it always stops, never unwraps the end of its input, has
  forwarded a prefix of the stream in order, and its shutdown reason means what it says.
\<close>

definition read_outcome ::
  "('k, 't read_actor_event, 'e) sink_call \<Rightarrow> read_actor_message list \<Rightarrow> 't list \<Rightarrow> 't list \<Rightarrow>
   't received \<Rightarrow> 'k \<Rightarrow> 'k \<Rightarrow> read_actor_shutdown_reason \<Rightarrow> bool" where
  "read_outcome send ms xs ys y tx1 tx' r =
     (case r of
        ReadEndOfStream \<Rightarrow> y = RecvEndOfStream ReadKindStream \<and> ys = xs \<and> tx' = tx1
      | ReadSignalled \<Rightarrow> y = RecvActorMessage ReadShutdown \<and> ReadShutdown \<in> set ms \<and> tx' = tx1
      | ReadActorHandlesDropped \<Rightarrow> y = RecvEndOfStream ReadKindActorMessage \<and> ms = [] \<and> tx' = tx1
      | ReceiverClosedChannel \<Rightarrow>
          (\<exists>x e. y = RecvStreamItem x \<and> prefix (ys @ [x]) xs \<and> send tx1 (StreamItem x) = (tx', Some e)))"

lemma read_actor_exact:
  assumes rx: "rx \<in> shuffles (read_mailbox_rx ms) (read_stream_rx xs)"
  obtains ys y rest tx1 tx' r where "rx = map RecvStreamItem ys @ y # rest" and "prefix ys xs"
    and "send_all send tx (map StreamItem ys) = Some tx1" and "read_left send tx1 y tx'"
    and "read_actor send tx rx = Finished tx' r" and "read_outcome send ms xs ys y tx1 tx' r"
proof -
  have "RecvEndOfStream ReadKindStream \<in> set rx"
    using set_shuffles [OF rx] by (simp add: read_stream_rx_def)
  then have "\<exists>y \<in> set rx. \<not> is_stream_item y" by (rule bexI [rotated]) simp
  from read_actor_run [OF this, of send tx "[None]"] obtain ys y rest tx1 tx' where
    rx_eq: "rx = map RecvStreamItem ys @ y # rest"
    and run: "read_actor send tx rx = Finished tx' (stop_reason y)"
    and sent: "send_all send tx (map StreamItem ys) = Some tx1" and left: "read_left send tx1 y tx'"
    unfolding read_actor_def by blast
  note mail = merged_split(1) [OF rx, unfolded rx_eq] and items = merged_split(2) [OF rx, unfolded rx_eq]
  have out: "read_outcome send ms xs ys y tx1 tx' (stop_reason y)"
  proof (cases y rule: stop_reason.cases)
    case (1 m)
    from message_before_stop(1) [OF mail 1] have "m \<in> set ms" .
    with 1 left show ?thesis by (cases m) (simp add: read_outcome_def)
  next
    case (2 x)
    with items have "prefix (ys @ [x]) xs" by (intro item_before_failure) simp
    with 2 left show ?thesis by (simp add: read_outcome_def)
  next
    case 3
    with message_before_stop(2) [OF mail] left show ?thesis by (simp add: read_outcome_def)
  next
    case 4
    with items_before_stop(2) [OF items] left show ?thesis by (simp add: read_outcome_def)
  qed
  show ?thesis by (rule that [OF rx_eq items_before_stop(1) [OF items] sent left run out])
qed

text \<open>What of it the path of a message needs.\<close>

lemma read_actor_correct:
  assumes law: "sink_law send accepted"
    and rx: "rx \<in> shuffles (read_mailbox_rx ms) (read_stream_rx xs)"
  shows "\<exists>ys tx' r. read_actor send tx rx = Finished tx' r \<and> prefix ys xs \<and>
    accepted tx' = accepted tx @ map StreamItem ys \<and>
    (r = ReadEndOfStream \<longrightarrow> ys = xs)"
proof -
  obtain ys y rest tx1 tx' r where "prefix ys xs"
    and sent: "send_all send tx (map StreamItem ys) = Some tx1" and left: "read_left send tx1 y tx'"
    and "read_actor send tx rx = Finished tx' r" and out: "read_outcome send ms xs ys y tx1 tx' r"
    by (rule read_actor_exact [OF rx, of send tx])
  moreover have "accepted tx' = accepted tx @ map StreamItem ys"
    using read_left_law [OF law left] send_all_law [OF law sent] by simp
  moreover have "r = ReadEndOfStream \<longrightarrow> ys = xs" using out by (auto simp: read_outcome_def)
  ultimately show ?thesis by blast
qed

end
