(* ===== verification/WriteActor.thy ===== *)
theory WriteActor
  imports Actors
begin

text \<open>
  The write actor (\<open>src/src/actors/write_actor.rs\<close>): a task that performs the operations its
  mailbox asks for on a sink until it is told to stop, its handles are dropped or the sink
  fails, and then closes the sink; and the handle its owner keeps.
\<close>

section \<open>Messages, errors and shutdown reasons\<close>

datatype write_actor_error = WriteChannelFull | WriteChannelClosed

datatype write_actor_shutdown_reason =
    WriteSignalled
  | SinkError
  | WriteActorHandlesDropped

datatype 't write_actor_message =
    Send 't
  | Feed 't
  | Flush
  | WriteShutdown

section \<open>The handle\<close>

record 'tx write_actor_handle =
  wr_actor_msg_tx :: 'tx
  wr_shutdown_reason :: task_id

definition write_handle_new :: "'tx \<Rightarrow> task_id \<Rightarrow> 'tx write_actor_handle" where
  "write_handle_new actor_msg_tx shutdown_reason =
     \<lparr>wr_actor_msg_tx = actor_msg_tx, wr_shutdown_reason = shutdown_reason\<rparr>"

text \<open>Spawning creates a channel of capacity 32 and a task that runs the actor.\<close>

definition write_spawn_actor :: "(nat \<Rightarrow> 'tx) \<Rightarrow> task_id \<Rightarrow> 'tx write_actor_handle" where
  "write_spawn_actor channel join_handle = write_handle_new (channel 32) join_handle"

definition write_send_actor_message ::
  "('tx, 't write_actor_message) try_send \<Rightarrow> 'tx write_actor_handle \<Rightarrow> 't write_actor_message \<Rightarrow>
   panic + 'tx write_actor_handle \<times> write_actor_error option" where
  "write_send_actor_message try_send h msg =
     (case try_send (wr_actor_msg_tx h) msg of
        (tx, None) \<Rightarrow> Inr (h\<lparr>wr_actor_msg_tx := tx\<rparr>, None)
      | (tx, Some err) \<Rightarrow>
          if is_full err then Inr (h\<lparr>wr_actor_msg_tx := tx\<rparr>, Some WriteChannelFull)
          else if is_disconnected err then Inr (h\<lparr>wr_actor_msg_tx := tx\<rparr>, Some WriteChannelClosed)
          else Inl Unreachable)"

definition write_send ::
  "('tx, 't write_actor_message) try_send \<Rightarrow> 'tx write_actor_handle \<Rightarrow> 't \<Rightarrow>
   panic + 'tx write_actor_handle \<times> write_actor_error option" where
  "write_send try_send h item = write_send_actor_message try_send h (Send item)"

definition write_feed ::
  "('tx, 't write_actor_message) try_send \<Rightarrow> 'tx write_actor_handle \<Rightarrow> 't \<Rightarrow>
   panic + 'tx write_actor_handle \<times> write_actor_error option" where
  "write_feed try_send h item = write_send_actor_message try_send h (Feed item)"

definition write_flush ::
  "('tx, 't write_actor_message) try_send \<Rightarrow> 'tx write_actor_handle \<Rightarrow>
   panic + 'tx write_actor_handle \<times> write_actor_error option" where
  "write_flush try_send h = write_send_actor_message try_send h Flush"

definition write_signal_shutdown ::
  "('tx, 't write_actor_message) try_send \<Rightarrow> 'tx write_actor_handle \<Rightarrow>
   panic + 'tx write_actor_handle \<times> write_actor_error option" where
  "write_signal_shutdown try_send h = write_send_actor_message try_send h WriteShutdown"

definition write_wait :: "'tx write_actor_handle \<Rightarrow> task_id" where
  "write_wait h = wr_shutdown_reason h"

definition write_is_finished ::
  "(task_id \<Rightarrow> write_actor_shutdown_reason actor_shutdown option) \<Rightarrow> 'tx write_actor_handle \<Rightarrow>
   write_actor_shutdown_reason actor_shutdown option" where
  "write_is_finished peek h = peek (wr_shutdown_reason h)"

interpretation wr: mailbox write_send_actor_message wr_actor_msg_tx wr_shutdown_reason
  WriteChannelFull WriteChannelClosed
  by unfold_locales (simp_all add: write_send_actor_message_def)

section \<open>The actor\<close>

text \<open>The four operations of \<open>futures::SinkExt\<close> that the actor awaits on its sink.\<close>

record ('k, 't, 'e) sink_ops =
  sink_send :: "('k, 't, 'e) sink_call"
  sink_feed :: "('k, 't, 'e) sink_call"
  sink_flush :: "'k \<Rightarrow> 'k \<times> 'e option"
  sink_close :: "'k \<Rightarrow> 'k \<times> 'e option"

fun sink_result :: "'k \<times> 'e option \<Rightarrow> ('k, write_actor_shutdown_reason) flow" where
  "sink_result (sink, None) = Running sink"
| "sink_result (sink, Some err) = Finished sink SinkError"

text \<open>One round on what \<open>actor_msg_rx.next().await\<close> yields (\<open>None\<close>: all handles are gone).\<close>

fun write_actor_step ::
  "('k, 't, 'e) sink_ops \<Rightarrow> 'k \<Rightarrow> 't write_actor_message option \<Rightarrow>
   ('k, write_actor_shutdown_reason) flow" where
  "write_actor_step ops sink (Some (Send item)) = sink_result (sink_send ops sink item)"
| "write_actor_step ops sink (Some (Feed item)) = sink_result (sink_feed ops sink item)"
| "write_actor_step ops sink (Some Flush) = sink_result (sink_flush ops sink)"
| "write_actor_step ops sink (Some WriteShutdown) = Finished sink WriteSignalled"
| "write_actor_step ops sink None = Finished sink WriteActorHandlesDropped"

text \<open>After the loop the sink is closed, whatever the reason; an error of \<open>close\<close> is logged.\<close>

definition write_actor ::
  "('k, 't, 'e) sink_ops \<Rightarrow> 'k \<Rightarrow> 't write_actor_message option list \<Rightarrow>
   ('k, write_actor_shutdown_reason) flow" where
  "write_actor ops sink rx =
     (case run_loop (write_actor_step ops) sink rx of
        Finished sink' reason \<Rightarrow> Finished (fst (sink_close ops sink')) reason
      | other \<Rightarrow> other)"

section \<open>Behaviour\<close>

text \<open>
  What a sink documents: a successful call passes the item on, in order; a failed one may or may
  not have passed it; flushing and closing pass on nothing new. \<open>written\<close> is the history of what
  was passed on, where the item \<open>x\<close> shows as \<open>emb x\<close> (for a plain sink \<open>emb\<close> is the identity).
\<close>

definition item_call_law :: "('t \<Rightarrow> 'w) \<Rightarrow> ('k \<Rightarrow> 'w list) \<Rightarrow> ('k, 't, 'e) sink_call \<Rightarrow> bool" where
  "item_call_law emb written call \<longleftrightarrow>
     (\<forall>k x. case call k x of
        (k', None) \<Rightarrow> written k' = written k @ [emb x]
      | (k', Some e) \<Rightarrow> written k' = written k \<or> written k' = written k @ [emb x])"

definition sink_ops_law :: "('t \<Rightarrow> 'w) \<Rightarrow> ('k \<Rightarrow> 'w list) \<Rightarrow> ('k, 't, 'e) sink_ops \<Rightarrow> bool" where
  "sink_ops_law emb written ops \<longleftrightarrow>
     item_call_law emb written (sink_send ops) \<and> item_call_law emb written (sink_feed ops) \<and>
     (\<forall>k. written (fst (sink_flush ops k)) = written k) \<and>
     (\<forall>k. written (fst (sink_close ops k)) = written k)"

lemma item_call_cases:
  "item_call_law emb written call \<Longrightarrow> call k x = (k', r) \<Longrightarrow>
   (case r of None \<Rightarrow> written k' = written k @ [emb x]
    | Some e \<Rightarrow> written k' = written k \<or> written k' = written k @ [emb x])"
  unfolding item_call_law_def by (metis (mono_tags, lifting) case_prod_conv)

lemma sink_send_law:
  "sink_ops_law emb written ops \<Longrightarrow> item_call_law emb written (sink_send ops)"
  by (simp add: sink_ops_law_def)

lemma sink_feed_law:
  "sink_ops_law emb written ops \<Longrightarrow> item_call_law emb written (sink_feed ops)"
  by (simp add: sink_ops_law_def)

lemma sink_flush_law:
  "sink_ops_law emb written ops \<Longrightarrow> sink_flush ops k = (k', r) \<Longrightarrow> written k' = written k"
  unfolding sink_ops_law_def by (metis fst_conv)

lemma sink_close_law:
  "sink_ops_law emb written ops \<Longrightarrow> written (fst (sink_close ops k)) = written k"
  by (simp add: sink_ops_law_def)

text \<open>The items a list of mailbox messages asks to write.\<close>

fun payload :: "'t write_actor_message \<Rightarrow> 't list" where
  "payload (Send x) = [x]"
| "payload (Feed x) = [x]"
| "payload Flush = []"
| "payload WriteShutdown = []"

definition payloads :: "'t write_actor_message list \<Rightarrow> 't list" where
  "payloads ms = concat (map payload ms)"

lemma payloads_simps [simp]:
  "payloads [] = []" "payloads (m # ms) = payload m @ payloads ms"
  "payloads (ms @ ns) = payloads ms @ payloads ns"
  by (simp_all add: payloads_def)

text \<open>
  Performing one message, and a list of messages, on the sink alone: what the actor has done can
  be compared with it, independently of its loop. \<open>None\<close> when one of the operations fails.
\<close>

fun perform ::
  "('k, 't, 'e) sink_ops \<Rightarrow> 'k \<Rightarrow> 't write_actor_message \<Rightarrow> 'k \<times> 'e option" where
  "perform ops k (Send x) = sink_send ops k x"
| "perform ops k (Feed x) = sink_feed ops k x"
| "perform ops k Flush = sink_flush ops k"
| "perform ops k WriteShutdown = (k, None)"

fun perform_all ::
  "('k, 't, 'e) sink_ops \<Rightarrow> 'k \<Rightarrow> 't write_actor_message list \<Rightarrow> 'k option" where
  "perform_all ops k [] = Some k"
| "perform_all ops k (m # ms) =
     (case perform ops k m of (k', None) \<Rightarrow> perform_all ops k' ms | (k', Some e) \<Rightarrow> None)"

lemma perform_law:
  assumes law: "sink_ops_law emb written ops" and did: "perform ops k m = (k', r)"
  shows "written k' = written k @ map emb (payload m) \<or> r \<noteq> None \<and> written k' = written k"
  using did item_call_cases [OF sink_send_law [OF law]] item_call_cases [OF sink_feed_law [OF law]]
    sink_flush_law [OF law]
  by (cases m; cases r) fastforce+

lemma perform_all_law:
  assumes law: "sink_ops_law emb written ops"
  shows "perform_all ops k ms = Some k' \<Longrightarrow> written k' = written k @ map emb (payloads ms)"
proof (induction ms arbitrary: k)
  case (Cons m ms)
  then obtain k1 where k1: "perform ops k m = (k1, None)" and "perform_all ops k1 ms = Some k'"
    by (auto split: prod.splits option.splits)
  with Cons.IH [of k1] perform_law [OF law k1] show ?case by simp
qed simp

text \<open>One round performs its message; it goes on unless that fails or the message is the shutdown.\<close>

lemma write_step_performs:
  "m \<noteq> WriteShutdown \<Longrightarrow> write_actor_step ops k (Some m) = sink_result (perform ops k m)"
  by (cases m) simp_all

text \<open>
  The loop on a mailbox that delivers \<open>ms\<close> and then ends: it performs a part \<open>performed\<close> of the
  messages in order and stops, for the reason it reports. \<open>k1\<close> is the sink after \<open>performed\<close>,
  \<open>k2\<close> the one the loop ends with.
\<close>

fun write_stop ::
  "('k, 't, 'e) sink_ops \<Rightarrow> 'k \<Rightarrow> 't write_actor_message list \<Rightarrow> 'k \<Rightarrow> write_actor_shutdown_reason \<Rightarrow> bool" where
  "write_stop ops k1 rest k2 WriteActorHandlesDropped \<longleftrightarrow> rest = [] \<and> k2 = k1"
| "write_stop ops k1 rest k2 WriteSignalled \<longleftrightarrow> (\<exists>later. rest = WriteShutdown # later) \<and> k2 = k1"
| "write_stop ops k1 rest k2 SinkError \<longleftrightarrow>
     (\<exists>m later e. rest = m # later \<and> m \<noteq> WriteShutdown \<and> perform ops k1 m = (k2, Some e))"

lemma write_loop_run:
  "\<exists>performed rest k1 k2 r. ms = performed @ rest \<and> WriteShutdown \<notin> set performed \<and>
    run_loop (write_actor_step ops) k (map Some ms @ [None]) = Finished k2 r \<and>
    perform_all ops k performed = Some k1 \<and> write_stop ops k1 rest k2 r"
    (is "\<exists>performed rest k1 k2 r. ?P ms k performed rest k1 k2 r")
proof (induction ms arbitrary: k)
  case Nil
  have "?P [] k [] [] k k WriteActorHandlesDropped" by simp
  then show ?case by blast
next
  case (Cons m ms)
  show ?case
  proof (cases "m = WriteShutdown")
    case True
    then have "?P (m # ms) k [] (m # ms) k k WriteSignalled" by simp
    then show ?thesis by blast
  next
    case go: False
    obtain k0 res where did: "perform ops k m = (k0, res)" by fastforce
    show ?thesis
    proof (cases res)
      case None
      from Cons.IH [of k0] obtain performed rest k1 k2 r where "?P ms k0 performed rest k1 k2 r" by blast
      with go did None have "?P (m # ms) k (m # performed) rest k1 k2 r"
        by (clarsimp simp: write_step_performs)
      then show ?thesis by blast
    next
      case (Some e)
      with go did have "?P (m # ms) k [] (m # ms) k k0 SinkError"
        by (simp add: write_step_performs)
      then show ?thesis by blast
    qed
  qed
qed

text \<open>The whole actor: the same, and then the sink the loop ends with is closed.\<close>

lemma write_actor_exact:
  obtains performed rest k1 k2 r where "ms = performed @ rest" and "WriteShutdown \<notin> set performed"
    and "write_actor ops k (map Some ms @ [None]) = Finished (fst (sink_close ops k2)) r"
    and "perform_all ops k performed = Some k1" and "write_stop ops k1 rest k2 r"
proof -
  from write_loop_run [of ms ops k] obtain performed rest k1 k2 r where
    run: "ms = performed @ rest" "WriteShutdown \<notin> set performed"
      "run_loop (write_actor_step ops) k (map Some ms @ [None]) = Finished k2 r"
    and out: "perform_all ops k performed = Some k1" "write_stop ops k1 rest k2 r" by blast
  from run(3) have "write_actor ops k (map Some ms @ [None]) = Finished (fst (sink_close ops k2)) r"
    by (simp add: write_actor_def)
  from that [OF run(1,2) this out] show ?thesis .
qed

text \<open>What has been written then; closing the sink passes on nothing new.\<close>

definition write_outcome ::
  "('t \<Rightarrow> 'w) \<Rightarrow> ('k \<Rightarrow> 'w list) \<Rightarrow> 'k \<Rightarrow> 't write_actor_message list \<Rightarrow> 't write_actor_message list \<Rightarrow>
   'k \<Rightarrow> write_actor_shutdown_reason \<Rightarrow> bool" where
  "write_outcome emb written k performed rest k' r =
     (case r of
        WriteActorHandlesDropped \<Rightarrow> rest = [] \<and> written k' = written k @ map emb (payloads performed)
      | WriteSignalled \<Rightarrow> (\<exists>later. rest = WriteShutdown # later) \<and>
          written k' = written k @ map emb (payloads performed)
      | SinkError \<Rightarrow> (\<exists>m later. rest = m # later \<and> written k' \<in>
          {written k @ map emb (payloads performed), written k @ map emb (payloads (performed @ [m]))}))"

lemma write_stop_outcome:
  assumes law: "sink_ops_law emb written ops"
    and performed: "perform_all ops k performed = Some k1" and stop: "write_stop ops k1 rest k2 r"
  shows "write_outcome emb written k performed rest (fst (sink_close ops k2)) r"
proof -
  note first = perform_all_law [OF law performed]
  show ?thesis
  proof (cases r)
    case SinkError
    with stop obtain m later e where rest: "rest = m # later" and failed: "perform ops k1 m = (k2, Some e)"
      by auto
    from perform_law [OF law failed] first rest SinkError show ?thesis
      by (auto simp: write_outcome_def sink_close_law [OF law])
  qed (use stop first in \<open>simp_all add: write_outcome_def sink_close_law [OF law]\<close>)
qed

lemma write_actor_run:
  assumes law: "sink_ops_law emb written ops"
  obtains performed rest k' r where "ms = performed @ rest" and "WriteShutdown \<notin> set performed"
    and "write_actor ops k (map Some ms @ [None]) = Finished k' r"
    and "write_outcome emb written k performed rest k' r"
proof -
  obtain performed rest k1 k2 r where run: "ms = performed @ rest" "WriteShutdown \<notin> set performed"
      "write_actor ops k (map Some ms @ [None]) = Finished (fst (sink_close ops k2)) r"
    and out: "perform_all ops k performed = Some k1" "write_stop ops k1 rest k2 r"
    by (rule write_actor_exact [of ms ops k])
  from that [OF run write_stop_outcome [OF law out]] show ?thesis .
qed

lemma write_outcome_prefix:
  assumes "write_outcome emb written k performed rest k' r" and "ms = performed @ rest"
  obtains zs where "written k' = written k @ map emb zs" and "prefix zs (payloads ms)"
    and "r = WriteActorHandlesDropped \<longrightarrow> zs = payloads ms"
proof (cases r)
  case SinkError
  with assms(1) obtain m later where rest: "rest = m # later"
    and disj: "written k' = written k @ map emb (payloads performed) \<or>
      written k' = written k @ map emb (payloads (performed @ [m]))"
    by (auto simp: write_outcome_def)
  from disj show ?thesis
  proof
    assume "written k' = written k @ map emb (payloads performed)"
    then show ?thesis by (rule that) (simp_all add: assms(2) SinkError)
  next
    assume "written k' = written k @ map emb (payloads (performed @ [m]))"
    then show ?thesis by (rule that) (simp_all add: assms(2) rest SinkError)
  qed
next
  case WriteSignalled
  with assms(1) have "written k' = written k @ map emb (payloads performed)" by (simp add: write_outcome_def)
  then show ?thesis by (rule that) (simp_all add: assms(2) WriteSignalled)
next
  case WriteActorHandlesDropped
  with assms(1) have "written k' = written k @ map emb (payloads performed)" and "rest = []"
    by (simp_all add: write_outcome_def)
  then show ?thesis by (intro that [of "payloads performed"]) (simp_all add: assms(2))
qed

end
