(* ===== verification/Networking.thy ===== *)
theory Networking
  imports MessageTypes ReadActor WriteActor
begin

text \<open>
  The codecs over the sockets (\<open>src/src/networking/tcp.rs\<close>, \<open>src/src/networking/udp.rs\<close>).
  \<open>bincode\<close> is the pair of parameters \<open>serialize\<close>, \<open>deserialize\<close>; the framed sockets of
  \<open>tokio_util\<close> (length-delimited frames, datagrams) are a stream of read results and a sink.
\<close>

type_synonym byte = "8 word"
type_synonym bytes = "byte list"

type_synonym 'm serializer = "'m \<Rightarrow> bincode_error + bytes"
type_synonym 'm deserializer = "bytes \<Rightarrow> bincode_error + 'm"

text \<open>What \<open>bincode\<close> documents: a serialized value deserializes to itself.\<close>

definition serde_law :: "'m serializer \<Rightarrow> 'm deserializer \<Rightarrow> bool" where
  "serde_law serialize deserialize \<longleftrightarrow>
     (\<forall>m b. serialize m = Inr b \<longrightarrow> deserialize b = Inr m)"

lemma serde_lawD: "serde_law ser de \<Longrightarrow> ser m = Inr b \<Longrightarrow> de b = Inr m"
  by (simp add: serde_law_def)

section \<open>TCP\<close>

datatype tcp_error = TcpIo io_error | TcpBincode bincode_error

text \<open>The read half: the frames' IO errors are mapped, then each frame is deserialized.\<close>

fun tcp_read_item :: "'m deserializer \<Rightarrow> io_error + bytes \<Rightarrow> tcp_error + 'm" where
  "tcp_read_item deserialize (Inl e) = Inl (TcpIo e)"
| "tcp_read_item deserialize (Inr bytes_mut) =
     (case deserialize bytes_mut of
        Inr x \<Rightarrow> Inr x
      | Inl e \<Rightarrow> Inl (TcpBincode e))"

definition tcp_deserialized_read ::
  "'m deserializer \<Rightarrow> (io_error + bytes) list \<Rightarrow> (tcp_error + 'm) list" where
  "tcp_deserialized_read deserialize framed_read = map (tcp_read_item deserialize) framed_read"

text \<open>The write half: an item that cannot be serialized is an error and never reaches the sink.\<close>

fun tcp_serialize :: "'m serializer \<Rightarrow> 'm \<Rightarrow> tcp_error + bytes" where
  "tcp_serialize serialize x =
     (case serialize x of
        Inr v \<Rightarrow> Inr v
      | Inl e \<Rightarrow> Inl (TcpBincode e))"

text \<open>
  \<open>SinkExt::with\<close> (third-party): the item is mapped by the closure; an error of the closure is
  the result, an error of the inner sink is converted (\<open>From\<close>). \<open>flush\<close> and \<open>close\<close> pass through.
\<close>

definition with_call ::
  "('x \<Rightarrow> 'e + 'b) \<Rightarrow> ('i \<Rightarrow> 'e) \<Rightarrow> ('k, 'b, 'i) sink_call \<Rightarrow> ('k, 'x, 'e) sink_call" where
  "with_call f from_err call k x =
     (case f x of
        Inl e \<Rightarrow> (k, Some e)
      | Inr b \<Rightarrow> (case call k b of (k', r) \<Rightarrow> (k', map_option from_err r)))"

definition with_ops ::
  "('x \<Rightarrow> 'e + 'b) \<Rightarrow> ('i \<Rightarrow> 'e) \<Rightarrow> ('k, 'b, 'i) sink_ops \<Rightarrow> ('k, 'x, 'e) sink_ops" where
  "with_ops f from_err ops =
     \<lparr>sink_send = with_call f from_err (sink_send ops),
      sink_feed = with_call f from_err (sink_feed ops),
      sink_flush = (\<lambda>k. case sink_flush ops k of (k', r) \<Rightarrow> (k', map_option from_err r)),
      sink_close = (\<lambda>k. case sink_close ops k of (k', r) \<Rightarrow> (k', map_option from_err r))\<rparr>"

definition tcp_serialized_write ::
  "'m serializer \<Rightarrow> ('k, bytes, io_error) sink_ops \<Rightarrow> ('k, 'm, tcp_error) sink_ops" where
  "tcp_serialized_write serialize framed_write = with_ops (tcp_serialize serialize) TcpIo framed_write"

section \<open>UDP\<close>

datatype udp_error = UdpIo io_error | UdpBincode bincode_error

text \<open>
  A read result of the framed UDP socket is unwrapped with \<open>expect\<close>, then the datagram is
  deserialized; the sender's address is passed on in both cases.
\<close>

fun udp_read_item ::
  "'m deserializer \<Rightarrow> io_error + bytes \<times> socket_addr \<Rightarrow> panic + (udp_error + 'm) \<times> socket_addr" where
  "udp_read_item deserialize (Inl e) = Inl (Expect ''BytesCodec never fails deserialization'')"
| "udp_read_item deserialize (Inr (buf, socket_addr)) =
     Inr (case deserialize buf of Inr x \<Rightarrow> Inr x | Inl e \<Rightarrow> Inl (UdpBincode e), socket_addr)"

fun udp_serialize ::
  "'m serializer \<Rightarrow> 'm \<times> socket_addr \<Rightarrow> udp_error + bytes \<times> socket_addr" where
  "udp_serialize serialize (item, socket_addr) =
     (case serialize item of
        Inr v \<Rightarrow> Inr (v, socket_addr)
      | Inl e \<Rightarrow> Inl (UdpBincode e))"

definition udp_serializing_sink ::
  "'m serializer \<Rightarrow> ('k, bytes \<times> socket_addr, io_error) sink_ops \<Rightarrow>
   ('k, 'm \<times> socket_addr, udp_error) sink_ops" where
  "udp_serializing_sink serialize sink = with_ops (udp_serialize serialize) UdpIo sink"

text \<open>
  The read actor over the UDP stream polls it, so a panic of the stream is a panic of the
  actor's task.
\<close>

fun udp_poll ::
  "'m deserializer \<Rightarrow> (io_error + bytes \<times> socket_addr) received option \<Rightarrow>
   panic + ((udp_error + 'm) \<times> socket_addr) received option" where
  "udp_poll deserialize None = Inr None"
| "udp_poll deserialize (Some (RecvActorMessage m)) = Inr (Some (RecvActorMessage m))"
| "udp_poll deserialize (Some (RecvEndOfStream k)) = Inr (Some (RecvEndOfStream k))"
| "udp_poll deserialize (Some (RecvStreamItem r)) =
     and_then (udp_read_item deserialize r) (\<lambda>x. Inr (Some (RecvStreamItem x)))"

definition udp_read_actor_step ::
  "'m deserializer \<Rightarrow> ('k, ((udp_error + 'm) \<times> socket_addr) read_actor_event, 'e) sink_call \<Rightarrow> 'k \<Rightarrow>
   (io_error + bytes \<times> socket_addr) received option \<Rightarrow> ('k, read_actor_shutdown_reason) flow" where
  "udp_read_actor_step deserialize send tx r =
     (case udp_poll deserialize r of
        Inl p \<Rightarrow> Panicked p
      | Inr y \<Rightarrow> read_actor_step send tx y)"

section \<open>Round trips\<close>

text \<open>
  The contract of a transport: what the writing side makes of an item the reading side of the
  other end turns back into it, if \<open>bincode\<close> keeps its law. \<open>good x\<close> is the item as a successful
  read result.
\<close>

locale transport =
  fixes enc :: "'m serializer \<Rightarrow> 'x \<Rightarrow> 'e + 'f"
    and dec :: "'m deserializer \<Rightarrow> 'f \<Rightarrow> 'y"
    and good :: "'x \<Rightarrow> 'y"
  assumes roundtrip: "serde_law ser de \<Longrightarrow> enc ser x = Inr f \<Longrightarrow> dec de f = good x"
begin

lemma roundtrip_list:
  assumes "serde_law ser de" and "list_all2 (\<lambda>x f. enc ser x = Inr f) xs fs"
  shows "map (dec de) fs = map good xs"
  using assms(2) by (induction rule: list_all2_induct) (simp_all add: roundtrip [OF assms(1)])

lemma encoding_injective:
  "serde_law ser de \<Longrightarrow> enc ser x = Inr f \<Longrightarrow> enc ser y = Inr f \<Longrightarrow> good x = good y"
  using roundtrip by metis

text \<open>The transport's sink keeps the law of the framed sink, seen through the other end's reader.\<close>

lemma with_call_law:
  assumes serde: "serde_law ser de" and law: "item_call_law (\<lambda>f. f) frames call"
  shows "item_call_law good (\<lambda>k. map (dec de) (frames k)) (with_call (enc ser) from_err call)"
  unfolding item_call_law_def
proof (intro allI)
  fix k x
  show "case with_call (enc ser) from_err call k x of
      (k', None) \<Rightarrow> map (dec de) (frames k') = map (dec de) (frames k) @ [good x]
    | (k', Some e) \<Rightarrow> map (dec de) (frames k') = map (dec de) (frames k) \<or>
        map (dec de) (frames k') = map (dec de) (frames k) @ [good x]"
  proof (cases "enc ser x")
    case (Inl e)
    then show ?thesis by (simp add: with_call_def)
  next
    case (Inr f)
    obtain k' r where call: "call k f = (k', r)" by fastforce
    from item_call_cases [OF law call] roundtrip [OF serde Inr] Inr call
    show ?thesis by (cases r) (auto simp: with_call_def)
  qed
qed

lemma with_ops_law:
  assumes "serde_law ser de" and "sink_ops_law (\<lambda>f. f) frames ops"
  shows "sink_ops_law good (\<lambda>k. map (dec de) (frames k)) (with_ops (enc ser) from_err ops)"
  using assms
  by (auto simp: sink_ops_law_def with_ops_def with_call_law split: prod.splits dest: spec)
     (metis fst_conv)+

end

text \<open>A sink behind a closure that never fails shows each item as the closure maps it.\<close>

lemma with_pure_call_law:
  assumes "item_call_law emb written call"
  shows "item_call_law (\<lambda>x. emb (g x)) written (with_call (\<lambda>x. Inr (g x)) from_err call)"
  unfolding item_call_law_def
proof (intro allI)
  fix k x
  obtain k' r where "call k (g x) = (k', r)" by fastforce
  with item_call_cases [OF assms this]
  show "case with_call (\<lambda>x. Inr (g x)) from_err call k x of
      (k', None) \<Rightarrow> written k' = written k @ [emb (g x)]
    | (k', Some e) \<Rightarrow> written k' = written k \<or> written k' = written k @ [emb (g x)]"
    by (cases r) (auto simp: with_call_def)
qed

lemma with_pure_ops_law:
  assumes "sink_ops_law emb written ops"
  shows "sink_ops_law (\<lambda>x. emb (g x)) written (with_ops (\<lambda>x. Inr (g x)) from_err ops)"
  using assms
  by (auto simp: sink_ops_law_def with_ops_def with_pure_call_law split: prod.splits dest: spec)
     (metis fst_conv)+

interpretation tcp: transport tcp_serialize "\<lambda>de f. tcp_read_item de (Inr f)" Inr
  by unfold_locales (auto simp: serde_law_def split: sum.splits)

interpretation udp: transport udp_serialize "\<lambda>de f. udp_read_item de (Inr f)"
  "\<lambda>(m, a). Inr (Inr m, a)"
proof unfold_locales
  fix ser :: "'a serializer" and de and x :: "'a \<times> socket_addr" and f
  assume "serde_law ser de" and "udp_serialize ser x = Inr f"
  then show "udp_read_item de (Inr f) = (case x of (m, a) \<Rightarrow> Inr (Inr m, a))"
    by (cases x) (auto simp: serde_law_def split: sum.splits)
qed

end
