(* ===== verification/ServerTypes.thy ===== *)
theory ServerTypes
  imports MessageTypes
begin

text \<open>
  Peer identifiers (\<open>src/src/server/peer_uid.rs\<close>), the events the server emits
  (\<open>src/src/server/event.rs\<close>) and its configuration (\<open>src/src/server.rs\<close>).
\<close>

section \<open>Peer UIDs\<close>

datatype peer_uid = PeerUid (uid_val: "64 word")

text \<open>The derived \<open>Default\<close>, \<open>PartialOrd\<close> and \<open>Ord\<close>: those of the \<open>u64\<close>.\<close>

definition peer_uid_default :: peer_uid where
  "peer_uid_default = PeerUid 0"

instantiation peer_uid :: linorder
begin

definition less_eq_peer_uid :: "peer_uid \<Rightarrow> peer_uid \<Rightarrow> bool" where
  "less_eq_peer_uid u v \<longleftrightarrow> uid_val u \<le> uid_val v"

definition less_peer_uid :: "peer_uid \<Rightarrow> peer_uid \<Rightarrow> bool" where
  "less_peer_uid u v \<longleftrightarrow> uid_val u < uid_val v"

instance
  by standard (auto simp: less_eq_peer_uid_def less_peer_uid_def peer_uid.expand)

end

text \<open>
  \<open>self.0 += 1\<close> on a \<open>u64\<close>: with overflow checks (debug builds) an overflow panics, without
  them it wraps around.
\<close>

definition peer_uid_increment :: "bool \<Rightarrow> peer_uid \<Rightarrow> panic + peer_uid" where
  "peer_uid_increment overflow_checks u =
     (if overflow_checks \<and> uid_val u = - 1 then Inl Overflow
      else Inr (PeerUid (uid_val u + 1)))"

definition uid_nat :: "peer_uid \<Rightarrow> nat" where
  "uid_nat u = unat (uid_val u)"

lemma uid_nat_inject: "uid_nat u = uid_nat v \<longleftrightarrow> u = v"
  by (cases u; cases v) (simp add: uid_nat_def word_unat_eq_iff)

lemma uid_less_nat: "u < v \<longleftrightarrow> uid_nat u < uid_nat v"
  by (simp add: less_peer_uid_def uid_nat_def word_less_nat_alt)

lemma uid_nat_default [simp]: "uid_nat peer_uid_default = 0"
  by (simp add: uid_nat_def peer_uid_default_def)

lemma increment_total:
  "b \<longrightarrow> uid_val u \<noteq> - 1 \<Longrightarrow> \<exists>v. peer_uid_increment b u = Inr v"
  by (auto simp: peer_uid_increment_def)

lemma increment_ok:
  assumes "uid_val u \<noteq> - 1"
  shows "peer_uid_increment b u = Inr (PeerUid (uid_val u + 1))"
    and "uid_nat (PeerUid (uid_val u + 1)) = Suc (uid_nat u)"
proof -
  show "peer_uid_increment b u = Inr (PeerUid (uid_val u + 1))"
    using assms by (simp add: peer_uid_increment_def)
  have "1 + uid_val u \<noteq> 0" using assms by (auto simp: add_eq_0_iff)
  then show "uid_nat (PeerUid (uid_val u + 1)) = Suc (uid_nat u)"
    by (simp add: uid_nat_def unatSuc add.commute)
qed

section \<open>Events\<close>

record new_peer =
  new_peer_uid :: peer_uid

datatype disconnect_reason =
    PeerClosedConnection
  | PeerSubmittedUnintelligibleData

record peer_disconnect =
  disconnected_uid :: peer_uid
  disconnect_reason :: disconnect_reason

record 't peer_message =
  message_from :: peer_uid
  message_body :: 't

datatype ('tts, 'uts) server_event =
    NewPeer new_peer
  | TcpMessage "'tts peer_message"
  | UdpMessage "'uts peer_message"
  | PeerDisconnect peer_disconnect

section \<open>Configuration\<close>

text \<open>\<open>usize\<close> only counts here, it is a natural number; a \<open>Duration\<close> is its nanoseconds.\<close>

type_synonym duration = nat

definition duration_from_secs :: "nat \<Rightarrow> duration" where
  "duration_from_secs secs = secs * 1000000000"

definition DEFAULT_MAX_CONNECTIONS :: nat where
  "DEFAULT_MAX_CONNECTIONS = 2"

definition DEFAULT_UDP_HEARTBEAT_INTERVAL :: duration where
  "DEFAULT_UDP_HEARTBEAT_INTERVAL = duration_from_secs 5"

record config =
  max_connections :: nat
  udp_heartbeat_interval :: duration

definition config_default :: config where
  "config_default =
     \<lparr>max_connections = DEFAULT_MAX_CONNECTIONS,
      udp_heartbeat_interval = DEFAULT_UDP_HEARTBEAT_INTERVAL\<rparr>"

end
