(* ===== verification/ServerActor.thy ===== *)
theory ServerActor
  imports HashMap Networking ServerTypes
begin

text \<open>
  The broker task of the server (\<open>src/src/server/actor.rs\<close>): its state, one definition per
  handler, and the round of its loop, from awaiting an item of the merged streams to awaiting
  the next one.
\<close>

section \<open>Messages and incoming items\<close>

text \<open>A \<open>oneshot\<close> sender is only ever consumed by one \<open>send\<close>: its identity stands for it.\<close>

type_synonym reply_channel = nat

datatype ('tfs, 'ufs) server_message =
    ToPeerTcp peer_uid 'tfs
  | ToPeerUdp peer_uid 'ufs
  | AnnounceTcp 'tfs
  | AnnounceUdp 'ufs
  | GetNumberOfConnectedPeers reply_channel

datatype incoming_kind =
    EofActorMessage
  | EofTcpListener
  | EofTcpReader peer_uid "read_actor_shutdown_reason actor_shutdown"
  | EofTcpWriter peer_uid "write_actor_shutdown_reason actor_shutdown"
  | EofUdpReader "read_actor_shutdown_reason actor_shutdown"
  | EofUdpWriter "write_actor_shutdown_reason actor_shutdown"

text \<open>\<open>tokio::net::TcpStream\<close>, seen through the only call the broker makes on it.\<close>

record tcp_stream =
  peer_addr :: "io_error + socket_addr"

datatype ('tts, 'tfs, 'uts, 'ufs) incoming =
    ActorMessage "('tfs, 'ufs) server_message"
  | TcpListener "io_error + tcp_stream"
  | TcpReader "(tcp_error + 'tts tcp_to_server) read_actor_event" peer_uid
  | UdpReader "((udp_error + 'uts udp_to_server) \<times> socket_addr) read_actor_event"
  | UdpHeartbeat
  | EndOfStream incoming_kind

section \<open>State\<close>

record ('rtx, 'wtx) peer =
  tcp_socket_addr :: socket_addr
  udp_socket_addr :: "socket_addr option"
  tcp_read_actor_handle :: "'rtx read_actor_handle"
  tcp_write_actor_handle :: "'wtx write_actor_handle"
  handshake_uuid :: uuid

text \<open>The streams merged into the broker's input, by what they deliver.\<close>

datatype stream_source =
    FromActorMessages
  | FromUdpReader task_id
  | FromUdpWriter task_id
  | FromTcpListener
  | FromUdpHeartbeat duration
  | FromTcpReader peer_uid task_id
  | FromTcpWriter peer_uid task_id

text \<open>
  The fields of the code's \<open>State\<close>, and two histories of effects whose values the code gives
  away: the replies put into \<open>oneshot\<close> channels, and the peers taken out of the map by
  \<open>drop_peer\<close> with the last state of their handles.
\<close>

record ('rtx, 'wtx, 'utx, 'etx) server_state =
  peers :: "(peer_uid, ('rtx, 'wtx) peer) hash_map"
  config :: config
  next_peer_uid :: peer_uid
  streams :: "stream_source list"
  peer_tcp_socket_addr_to_peer_uid :: "(socket_addr, peer_uid) hash_map"
  peer_udp_socket_addr_to_peer_uid :: "(socket_addr, peer_uid) hash_map"
  peer_handshake_uuid_to_peer_uid :: "(uuid, peer_uid) hash_map"
  event_sender :: 'etx
  udp_write_actor :: "'utx write_actor_handle"
  replies :: "(reply_channel \<times> nat) list"
  dropped_peers :: "(peer_uid \<times> ('rtx, 'wtx) peer) list"

text \<open>
  The build (debug assertions and overflow checks go together in cargo's profiles) and the code
  the broker calls that is not the crate's: the channels, the application's \<open>clone\<close> of message
  payloads, and the iteration order of a \<open>HashMap\<close>.
\<close>

record ('rtx, 'wtx, 'utx, 'etx, 'tts, 'tfs, 'uts, 'ufs) server_env =
  debug_assertions :: bool
  rd_try_send :: "('rtx, read_actor_message) try_send"
  wr_try_send :: "('wtx, 'tfs tcp_from_server write_actor_message) try_send"
  udp_try_send :: "('utx, ('ufs udp_from_server \<times> socket_addr) write_actor_message) try_send"
  unbounded_send :: "('etx, ('tts, 'uts) server_event) try_send"
  clone_tfs :: "'tfs \<Rightarrow> 'tfs"
  clone_ufs :: "'ufs \<Rightarrow> 'ufs"
  iter_order :: "peer_uid list \<Rightarrow> peer_uid list"

text \<open>What the environment supplies when a connection is accepted: channels, tasks, a UUID.\<close>

record ('rtx, 'wtx) spawned =
  rd_channel :: "nat \<Rightarrow> 'rtx"
  rd_task :: task_id
  wr_channel :: "nat \<Rightarrow> 'wtx"
  wr_task :: task_id
  new_v4 :: uuid

section \<open>Invariant check of debug builds\<close>

definition assert_invariants :: "('rtx, 'wtx, 'utx, 'etx) server_state \<Rightarrow> panic + unit" where
  "assert_invariants st =
     and_then (assert_that (hm_len (peer_udp_socket_addr_to_peer_uid st)
         \<le> hm_len (peer_tcp_socket_addr_to_peer_uid st)) ()) (\<lambda>_.
     and_then (assert_that (hm_len (peer_tcp_socket_addr_to_peer_uid st) \<le> hm_len (peers st)) ()) (\<lambda>_.
     and_then (assert_that (hm_len (peer_udp_socket_addr_to_peer_uid st) \<le> hm_len (peers st)) ()) (\<lambda>_.
     assert_that (hm_len (peer_handshake_uuid_to_peer_uid st) \<le> hm_len (peers st)) ())))"

section \<open>Events\<close>

text \<open>\<open>event_sender.unbounded_send(ev)\<close>, where an error is \<open>todo!()\<close>.\<close>

definition emit_event ::
  "('rtx, 'wtx, 'utx, 'etx, 'tts, 'tfs, 'uts, 'ufs) server_env \<Rightarrow> ('tts, 'uts) server_event \<Rightarrow>
   ('rtx, 'wtx, 'utx, 'etx) server_state \<Rightarrow> panic + ('rtx, 'wtx, 'utx, 'etx) server_state" where
  "emit_event env ev st =
     (case unbounded_send env (event_sender st) ev of
        (tx, None) \<Rightarrow> Inr (st\<lparr>event_sender := tx\<rparr>)
      | (tx, Some err) \<Rightarrow> Inl Todo)"

section \<open>Handlers\<close>

definition handle_new_tcp_connection ::
  "('rtx, 'wtx, 'utx, 'etx, 'tts, 'tfs, 'uts, 'ufs) server_env \<Rightarrow> ('rtx, 'wtx) spawned \<Rightarrow> tcp_stream \<Rightarrow>
   ('rtx, 'wtx, 'utx, 'etx) server_state \<Rightarrow> panic + ('rtx, 'wtx, 'utx, 'etx) server_state" where
  "handle_new_tcp_connection env new stream st =
     (case peer_addr stream of
        Inl e \<Rightarrow> Inl (Expect ''Failed to get SocketAddr from TcpStream'')
      | Inr peer_tcp_socket_addr \<Rightarrow>
          if max_connections (config st) \<le> hm_len (peers st) then Inr st
          else
            let peer_uid = next_peer_uid st in
            and_then (peer_uid_increment (debug_assertions env) (next_peer_uid st)) (\<lambda>next_uid.
            let tcp_read_actor_handle = read_spawn_actor (rd_channel new) (rd_task new);
                tcp_write_actor_handle = write_spawn_actor (wr_channel new) (wr_task new);
                handshake_uuid = new_v4 new;
                st = st\<lparr>next_peer_uid := next_uid,
                  streams := streams st @
                    [FromTcpReader peer_uid (read_wait tcp_read_actor_handle),
                     FromTcpWriter peer_uid (write_wait tcp_write_actor_handle)],
                  peer_tcp_socket_addr_to_peer_uid :=
                    hm_insert peer_tcp_socket_addr peer_uid (peer_tcp_socket_addr_to_peer_uid st),
                  peer_handshake_uuid_to_peer_uid :=
                    hm_insert handshake_uuid peer_uid (peer_handshake_uuid_to_peer_uid st)\<rparr> in
            and_then (write_send (wr_try_send env) tcp_write_actor_handle (TcpWelcome handshake_uuid))
              (\<lambda>(tcp_write_actor_handle, _).
            let peer = \<lparr>tcp_socket_addr = peer_tcp_socket_addr, udp_socket_addr = None,
                  tcp_read_actor_handle = tcp_read_actor_handle,
                  tcp_write_actor_handle = tcp_write_actor_handle,
                  handshake_uuid = handshake_uuid\<rparr> in
            emit_event env (NewPeer \<lparr>new_peer_uid = peer_uid\<rparr>)
              (st\<lparr>peers := hm_insert peer_uid peer (peers st)\<rparr>))))"

definition drop_peer ::
  "('rtx, 'wtx, 'utx, 'etx, 'tts, 'tfs, 'uts, 'ufs) server_env \<Rightarrow> peer_uid \<Rightarrow> disconnect_reason \<Rightarrow>
   ('rtx, 'wtx, 'utx, 'etx) server_state \<Rightarrow> panic + ('rtx, 'wtx, 'utx, 'etx) server_state" where
  "drop_peer env peer_uid reason st =
     (case hm_get (peers st) peer_uid of
        None \<Rightarrow> Inr st
      | Some peer \<Rightarrow>
          let st = st\<lparr>peers := hm_remove peer_uid (peers st),
                peer_tcp_socket_addr_to_peer_uid :=
                  hm_remove (tcp_socket_addr peer) (peer_tcp_socket_addr_to_peer_uid st),
                peer_udp_socket_addr_to_peer_uid :=
                  (case udp_socket_addr peer of
                     Some peer_udp_socket_addr \<Rightarrow>
                       hm_remove peer_udp_socket_addr (peer_udp_socket_addr_to_peer_uid st)
                   | None \<Rightarrow> peer_udp_socket_addr_to_peer_uid st),
                peer_handshake_uuid_to_peer_uid :=
                  hm_remove (handshake_uuid peer) (peer_handshake_uuid_to_peer_uid st)\<rparr> in
          and_then (read_signal_shutdown (rd_try_send env) (tcp_read_actor_handle peer)) (\<lambda>(rh, _).
          and_then (write_signal_shutdown (wr_try_send env) (tcp_write_actor_handle peer)) (\<lambda>(wh, _).
          emit_event env
            (PeerDisconnect \<lparr>disconnected_uid = peer_uid, disconnect_reason = reason\<rparr>)
            (st\<lparr>dropped_peers := dropped_peers st @
               [(peer_uid, peer\<lparr>tcp_read_actor_handle := rh, tcp_write_actor_handle := wh\<rparr>)]\<rparr>))))"

text \<open>
  A \<open>for\<close> loop over the peers visits every entry once, in the order \<open>iter_order\<close> gives for the
  keys. A failed send is logged.
\<close>

definition announce_tcp_to ::
  "('rtx, 'wtx, 'utx, 'etx, 'tts, 'tfs, 'uts, 'ufs) server_env \<Rightarrow> 'tfs tcp_from_server \<Rightarrow> peer_uid \<Rightarrow>
   ('rtx, 'wtx, 'utx, 'etx) server_state \<Rightarrow> panic + ('rtx, 'wtx, 'utx, 'etx) server_state" where
  "announce_tcp_to env msg peer_uid st =
     (case hm_get (peers st) peer_uid of
        None \<Rightarrow> Inr st
      | Some peer \<Rightarrow>
          and_then (write_send (wr_try_send env) (tcp_write_actor_handle peer)
              (clone_tcp_from_server (clone_tfs env) msg)) (\<lambda>(wh, _).
          Inr (st\<lparr>peers := hm_insert peer_uid (peer\<lparr>tcp_write_actor_handle := wh\<rparr>) (peers st)\<rparr>)))"

definition announce_tcp ::
  "('rtx, 'wtx, 'utx, 'etx, 'tts, 'tfs, 'uts, 'ufs) server_env \<Rightarrow> 'tfs tcp_from_server \<Rightarrow>
   ('rtx, 'wtx, 'utx, 'etx) server_state \<Rightarrow> panic + ('rtx, 'wtx, 'utx, 'etx) server_state" where
  "announce_tcp env msg st =
     fold_ok (announce_tcp_to env msg) (iter_order env (hm_keys (peers st))) st"

definition announce_udp_to ::
  "('rtx, 'wtx, 'utx, 'etx, 'tts, 'tfs, 'uts, 'ufs) server_env \<Rightarrow> 'ufs udp_from_server \<Rightarrow> peer_uid \<Rightarrow>
   ('rtx, 'wtx, 'utx, 'etx) server_state \<Rightarrow> panic + ('rtx, 'wtx, 'utx, 'etx) server_state" where
  "announce_udp_to env msg peer_uid st =
     (case hm_get (peers st) peer_uid of
        None \<Rightarrow> Inr st
      | Some peer \<Rightarrow>
          and_then (write_feed (udp_try_send env) (udp_write_actor st)
              (clone_udp_from_server (clone_ufs env) msg, tcp_socket_addr peer)) (\<lambda>(uh, _).
          Inr (st\<lparr>udp_write_actor := uh\<rparr>)))"

definition announce_udp ::
  "('rtx, 'wtx, 'utx, 'etx, 'tts, 'tfs, 'uts, 'ufs) server_env \<Rightarrow> 'ufs udp_from_server \<Rightarrow>
   ('rtx, 'wtx, 'utx, 'etx) server_state \<Rightarrow> panic + ('rtx, 'wtx, 'utx, 'etx) server_state" where
  "announce_udp env msg st =
     and_then (fold_ok (announce_udp_to env msg) (iter_order env (hm_keys (peers st))) st) (\<lambda>st.
     and_then (write_flush (udp_try_send env) (udp_write_actor st)) (\<lambda>(uh, _).
     Inr (st\<lparr>udp_write_actor := uh\<rparr>)))"

fun handle_actor_message ::
  "('rtx, 'wtx, 'utx, 'etx, 'tts, 'tfs, 'uts, 'ufs) server_env \<Rightarrow> ('tfs, 'ufs) server_message \<Rightarrow>
   ('rtx, 'wtx, 'utx, 'etx) server_state \<Rightarrow> panic + ('rtx, 'wtx, 'utx, 'etx) server_state" where
  "handle_actor_message env (ToPeerTcp peer_uid msg) st =
     (case hm_get (peers st) peer_uid of
        Some peer \<Rightarrow>
          and_then (write_send (wr_try_send env) (tcp_write_actor_handle peer)
              (TcpFromServerApplicationLogic msg)) (\<lambda>(wh, _).
          Inr (st\<lparr>peers := hm_insert peer_uid (peer\<lparr>tcp_write_actor_handle := wh\<rparr>) (peers st)\<rparr>))
      | None \<Rightarrow> Inr st)"
| "handle_actor_message env (ToPeerUdp peer_uid msg) st =
     (case hm_get (peers st) peer_uid of
        Some peer \<Rightarrow>
          (case udp_socket_addr peer of
             None \<Rightarrow> Inr st
           | Some peer_udp_socket_addr \<Rightarrow>
               and_then (write_send (udp_try_send env) (udp_write_actor st)
                   (UdpFromServerApplicationLogic msg, peer_udp_socket_addr)) (\<lambda>(uh, _).
               Inr (st\<lparr>udp_write_actor := uh\<rparr>)))
      | None \<Rightarrow> Inr st)"
| "handle_actor_message env (AnnounceTcp msg) st =
     announce_tcp env (TcpFromServerApplicationLogic msg) st"
| "handle_actor_message env (AnnounceUdp msg) st =
     announce_udp env (UdpFromServerApplicationLogic msg) st"
| "handle_actor_message env (GetNumberOfConnectedPeers tx) st =
     Inr (st\<lparr>replies := replies st @ [(tx, hm_len (peers st))]\<rparr>)"

fun handle_udp_reader_stream_item ::
  "('rtx, 'wtx, 'utx, 'etx, 'tts, 'tfs, 'uts, 'ufs) server_env \<Rightarrow> 'uts udp_to_server \<Rightarrow> socket_addr \<Rightarrow>
   ('rtx, 'wtx, 'utx, 'etx) server_state \<Rightarrow> panic + ('rtx, 'wtx, 'utx, 'etx) server_state" where
  "handle_udp_reader_stream_item env (UdpHello uuid) socket_addr st =
     (case hm_get (peer_handshake_uuid_to_peer_uid st) uuid of
        None \<Rightarrow> Inr st
      | Some peer_uid \<Rightarrow>
          (case hm_get (peers st) peer_uid of
             None \<Rightarrow> Inr st
           | Some peer \<Rightarrow>
               and_then (write_send (wr_try_send env) (tcp_write_actor_handle peer)
                   UdpHandshakeAcknowledged) (\<lambda>(wh, _).
               and_then (write_send (udp_try_send env) (udp_write_actor st)
                   (UdpWelcome, socket_addr)) (\<lambda>(uh, _).
               Inr (st\<lparr>peers := hm_insert peer_uid
                         (peer\<lparr>udp_socket_addr := Some socket_addr,
                               tcp_write_actor_handle := wh\<rparr>) (peers st),
                       peer_udp_socket_addr_to_peer_uid :=
                         hm_insert socket_addr peer_uid (peer_udp_socket_addr_to_peer_uid st),
                       udp_write_actor := uh\<rparr>)))))"
| "handle_udp_reader_stream_item env (UdpToServerApplicationLogic msg) socket_addr st =
     (case hm_get (peer_udp_socket_addr_to_peer_uid st) socket_addr of
        None \<Rightarrow> Inr st
      | Some peer_uid \<Rightarrow>
          emit_event env (UdpMessage \<lparr>message_from = peer_uid, message_body = msg\<rparr>) st)"

fun handle_tcp_reader_stream_item ::
  "('rtx, 'wtx, 'utx, 'etx, 'tts, 'tfs, 'uts, 'ufs) server_env \<Rightarrow> 'tts tcp_to_server \<Rightarrow> peer_uid \<Rightarrow>
   ('rtx, 'wtx, 'utx, 'etx) server_state \<Rightarrow> panic + ('rtx, 'wtx, 'utx, 'etx) server_state" where
  "handle_tcp_reader_stream_item env (TcpToServerApplicationLogic msg) peer_uid st =
     emit_event env (TcpMessage \<lparr>message_from = peer_uid, message_body = msg\<rparr>) st"

section \<open>The loop\<close>

text \<open>
  The \<open>match\<close> on an item: the state afterwards and the peers to drop at the top of the next
  round. \<open>keep\<close> pairs a handler's state with no peer to drop.
\<close>

definition keep :: "panic + 's \<Rightarrow> panic + 's \<times> (peer_uid \<times> disconnect_reason) list" where
  "keep m = and_then m (\<lambda>st. Inr (st, []))"

text \<open>\<open>assert!(!state.peers.contains_key(&peer_uid))\<close>\<close>

definition assert_not_connected ::
  "peer_uid \<Rightarrow> ('rtx, 'wtx, 'utx, 'etx) server_state \<Rightarrow>
   panic + ('rtx, 'wtx, 'utx, 'etx) server_state \<times> (peer_uid \<times> disconnect_reason) list" where
  "assert_not_connected peer_uid st = keep (assert_that (hm_get (peers st) peer_uid = None) st)"

fun handle_end_of_stream ::
  "incoming_kind \<Rightarrow> ('rtx, 'wtx, 'utx, 'etx) server_state \<Rightarrow>
   panic + ('rtx, 'wtx, 'utx, 'etx) server_state \<times> (peer_uid \<times> disconnect_reason) list" where
  "handle_end_of_stream EofActorMessage st = Inl Todo"
| "handle_end_of_stream EofTcpListener st = Inl Todo"
| "handle_end_of_stream (EofTcpReader peer_uid (Controlled ReadEndOfStream)) st =
     Inr (st, [(peer_uid, PeerClosedConnection)])"
| "handle_end_of_stream (EofTcpReader peer_uid (Controlled ReadSignalled)) st =
     assert_not_connected peer_uid st"
| "handle_end_of_stream (EofTcpReader peer_uid (Controlled ReadActorHandlesDropped)) st =
     assert_not_connected peer_uid st"
| "handle_end_of_stream (EofTcpReader peer_uid (Controlled ReceiverClosedChannel)) st =
     assert_not_connected peer_uid st"
| "handle_end_of_stream (EofTcpReader peer_uid (Erratic Cancelled)) st = Inr (st, [])"
| "handle_end_of_stream (EofTcpReader peer_uid (Erratic Panic)) st = Inr (st, [])"
| "handle_end_of_stream (EofTcpWriter peer_uid (Controlled WriteSignalled)) st =
     assert_not_connected peer_uid st"
| "handle_end_of_stream (EofTcpWriter peer_uid (Controlled SinkError)) st =
     Inr (st, [(peer_uid, PeerClosedConnection)])"
| "handle_end_of_stream (EofTcpWriter peer_uid (Controlled WriteActorHandlesDropped)) st =
     assert_not_connected peer_uid st"
| "handle_end_of_stream (EofTcpWriter peer_uid (Erratic Cancelled)) st = Inr (st, [])"
| "handle_end_of_stream (EofTcpWriter peer_uid (Erratic Panic)) st = Inr (st, [])"
| "handle_end_of_stream (EofUdpReader (Controlled ReadSignalled)) st = Inr (st, [])"
| "handle_end_of_stream (EofUdpReader (Controlled ReadEndOfStream)) st =
     Inl (PanicWith ''UDP socket reader actor shut down.'')"
| "handle_end_of_stream (EofUdpReader (Controlled ReadActorHandlesDropped)) st = Inl Unreachable"
| "handle_end_of_stream (EofUdpReader (Controlled ReceiverClosedChannel)) st = Inl Unreachable"
| "handle_end_of_stream (EofUdpReader (Erratic Cancelled)) st =
     Inl (PanicWith ''UDP read actor was cancelled.'')"
| "handle_end_of_stream (EofUdpReader (Erratic Panic)) st =
     Inl (PanicWith ''UDP read actor panicked.'')"
| "handle_end_of_stream (EofUdpWriter (Controlled WriteSignalled)) st = Inr (st, [])"
| "handle_end_of_stream (EofUdpWriter (Controlled SinkError)) st =
     Inl (PanicWith ''UDP write actor sink error.'')"
| "handle_end_of_stream (EofUdpWriter (Controlled WriteActorHandlesDropped)) st = Inl Unreachable"
| "handle_end_of_stream (EofUdpWriter (Erratic Cancelled)) st =
     Inl (PanicWith ''UDP write actor was cancelled.'')"
| "handle_end_of_stream (EofUdpWriter (Erratic Panic)) st =
     Inl (PanicWith ''UDP write actor panicked.'')"

fun server_dispatch ::
  "('rtx, 'wtx, 'utx, 'etx, 'tts, 'tfs, 'uts, 'ufs) server_env \<Rightarrow> ('rtx, 'wtx) spawned \<Rightarrow>
   ('tts, 'tfs, 'uts, 'ufs) incoming \<Rightarrow> ('rtx, 'wtx, 'utx, 'etx) server_state \<Rightarrow>
   panic + ('rtx, 'wtx, 'utx, 'etx) server_state \<times> (peer_uid \<times> disconnect_reason) list" where
  "server_dispatch env new (ActorMessage msg) st = keep (handle_actor_message env msg st)"
| "server_dispatch env new (TcpListener (Inl e)) st = Inr (st, [])"
| "server_dispatch env new (TcpListener (Inr stream)) st =
     keep (handle_new_tcp_connection env new stream st)"
| "server_dispatch env new (TcpReader (StreamItem (Inr message)) peer_uid) st =
     keep (handle_tcp_reader_stream_item env message peer_uid st)"
| "server_dispatch env new (TcpReader (StreamItem (Inl err)) peer_uid) st =
     Inr (st, [(peer_uid, PeerSubmittedUnintelligibleData)])"
| "server_dispatch env new (UdpReader (StreamItem (Inr message, socket_addr))) st =
     keep (handle_udp_reader_stream_item env message socket_addr st)"
| "server_dispatch env new (UdpReader (StreamItem (Inl err, socket_addr))) st =
     (case hm_get (peer_udp_socket_addr_to_peer_uid st) socket_addr of
        Some peer_uid \<Rightarrow> Inr (st, [(peer_uid, PeerSubmittedUnintelligibleData)])
      | None \<Rightarrow> Inr (st, []))"
| "server_dispatch env new UdpHeartbeat st = keep (announce_udp env Heartbeat st)"
| "server_dispatch env new (EndOfStream eof) st = handle_end_of_stream eof st"

text \<open>
  What the receiving half of the handles' channel and the listener give the loop: their items, and
  an \<open>EndOfStream\<close> item chained behind. The channel of the handles ends when the last of them is
  dropped and all messages are read.
\<close>

definition server_msg_rx ::
  "('tfs, 'ufs) server_message list \<Rightarrow> ('tts, 'tfs, 'uts, 'ufs) incoming list" where
  "server_msg_rx msgs = map ActorMessage msgs @ [EndOfStream EofActorMessage]"

definition server_listener_rx ::
  "(io_error + tcp_stream) list \<Rightarrow> ('tts, 'tfs, 'uts, 'ufs) incoming list" where
  "server_listener_rx accepted = map TcpListener accepted @ [EndOfStream EofTcpListener]"

text \<open>The top of the loop: the check of the invariants in debug builds, then the drops.\<close>

definition loop_top ::
  "('rtx, 'wtx, 'utx, 'etx, 'tts, 'tfs, 'uts, 'ufs) server_env \<Rightarrow>
   ('rtx, 'wtx, 'utx, 'etx) server_state \<times> (peer_uid \<times> disconnect_reason) list \<Rightarrow>
   panic + ('rtx, 'wtx, 'utx, 'etx) server_state" where
  "loop_top env = (\<lambda>(st, peers_to_drop).
     and_then (if debug_assertions env then assert_invariants st else Inr ()) (\<lambda>_.
     fold_ok (\<lambda>(peer_uid, reason). drop_peer env peer_uid reason) peers_to_drop st))"

text \<open>
  One round, from the \<open>await\<close> of an item to the next \<open>await\<close>: the \<open>match\<close> and the top of the
  loop. Between rounds no peer is waiting to be dropped.
\<close>

definition server_round ::
  "('rtx, 'wtx, 'utx, 'etx, 'tts, 'tfs, 'uts, 'ufs) server_env \<Rightarrow>
   ('rtx, 'wtx, 'utx, 'etx) server_state \<Rightarrow>
   ('tts, 'tfs, 'uts, 'ufs) incoming \<times> ('rtx, 'wtx) spawned \<Rightarrow>
   panic + ('rtx, 'wtx, 'utx, 'etx) server_state" where
  "server_round env st = (\<lambda>(inc, new). and_then (server_dispatch env new inc st) (loop_top env))"

definition server_step ::
  "('rtx, 'wtx, 'utx, 'etx, 'tts, 'tfs, 'uts, 'ufs) server_env \<Rightarrow>
   ('rtx, 'wtx, 'utx, 'etx) server_state \<Rightarrow>
   ('tts, 'tfs, 'uts, 'ufs) incoming \<times> ('rtx, 'wtx) spawned \<Rightarrow>
   (('rtx, 'wtx, 'utx, 'etx) server_state, unit) flow" where
  "server_step env st i = to_flow (server_round env st i)"

text \<open>
  A round on what \<open>state.streams.next().await\<close> yields, which the code unwraps: \<open>None\<close>, the end of
  all streams, panics.
\<close>

fun server_next ::
  "('rtx, 'wtx, 'utx, 'etx, 'tts, 'tfs, 'uts, 'ufs) server_env \<Rightarrow>
   ('rtx, 'wtx, 'utx, 'etx) server_state \<Rightarrow>
   (('tts, 'tfs, 'uts, 'ufs) incoming \<times> ('rtx, 'wtx) spawned) option \<Rightarrow>
   (('rtx, 'wtx, 'utx, 'etx) server_state, unit) flow" where
  "server_next env st None = Panicked UnwrapNone"
| "server_next env st (Some i) = server_step env st i"

text \<open>
  The state the task sets up, with the UDP read and write actors spawned. \<open>interval\<close> is
  \<open>tokio::time::interval\<close>, which panics for a zero period.
\<close>

definition server_state_new ::
  "config \<Rightarrow> 'etx \<Rightarrow> task_id \<Rightarrow> (nat \<Rightarrow> 'utx) \<Rightarrow> task_id \<Rightarrow>
   ('rtx, 'wtx, 'utx, 'etx) server_state" where
  "server_state_new cfg events_tx udp_read_task udp_channel udp_write_task =
     (let udp_write_actor = write_spawn_actor udp_channel udp_write_task in
      \<lparr>peers = hm_empty, config = cfg, next_peer_uid = peer_uid_default,
       streams = [FromActorMessages, FromUdpReader udp_read_task,
         FromUdpWriter (write_wait udp_write_actor), FromTcpListener,
         FromUdpHeartbeat (udp_heartbeat_interval cfg)],
       peer_tcp_socket_addr_to_peer_uid = hm_empty,
       peer_udp_socket_addr_to_peer_uid = hm_empty,
       peer_handshake_uuid_to_peer_uid = hm_empty,
       event_sender = events_tx, udp_write_actor = udp_write_actor,
       replies = [], dropped_peers = []\<rparr>)"

definition server_actor ::
  "('rtx, 'wtx, 'utx, 'etx, 'tts, 'tfs, 'uts, 'ufs) server_env \<Rightarrow> (duration \<Rightarrow> panic + unit) \<Rightarrow>
   config \<Rightarrow> 'etx \<Rightarrow> task_id \<Rightarrow> (nat \<Rightarrow> 'utx) \<Rightarrow> task_id \<Rightarrow>
   (('tts, 'tfs, 'uts, 'ufs) incoming \<times> ('rtx, 'wtx) spawned) option list \<Rightarrow>
   (('rtx, 'wtx, 'utx, 'etx) server_state, unit) flow" where
  "server_actor env interval cfg events_tx udp_read_task udp_channel udp_write_task rx =
     (case and_then (interval (udp_heartbeat_interval cfg)) (\<lambda>_.
             loop_top env
               (server_state_new cfg events_tx udp_read_task udp_channel udp_write_task, [])) of
        Inl p \<Rightarrow> Panicked p
      | Inr st \<Rightarrow> run_loop (server_next env) st rx)"

end
