(* ===== verification/ServerInv.thy ===== *)
theory ServerInv
  imports ServerActor
begin

text \<open>
  The invariant of the broker's state: the three reverse indices agree with the map of peers,
  peer UIDs are fresh, and the server is within its capacity. One lemma per handler, then one
  for the whole round.
\<close>

section \<open>Well-formedness\<close>

text \<open>The part of a peer that the indices depend on; handles may change under it.\<close>

type_synonym core = "socket_addr \<times> socket_addr option \<times> uuid"

definition peer_core :: "('rtx, 'wtx) peer \<Rightarrow> core" where
  "peer_core p = (tcp_socket_addr p, udp_socket_addr p, handshake_uuid p)"

definition tcp_key :: "core \<Rightarrow> socket_addr option" where "tcp_key c = Some (fst c)"
definition udp_key :: "core \<Rightarrow> socket_addr option" where "udp_key c = fst (snd c)"
definition uuid_key :: "core \<Rightarrow> uuid option" where "uuid_key c = Some (snd (snd c))"

lemmas key_defs = tcp_key_def udp_key_def uuid_key_def

lemma peer_core_simps [simp]:
  "tcp_key (peer_core p) = Some (tcp_socket_addr p)"
  "udp_key (peer_core p) = udp_socket_addr p"
  "uuid_key (peer_core p) = Some (handshake_uuid p)"
  "peer_core (p\<lparr>tcp_write_actor_handle := wh\<rparr>) = peer_core p"
  "peer_core (p\<lparr>tcp_read_actor_handle := rh\<rparr>) = peer_core p"
  by (simp_all add: peer_core_def key_defs)

text \<open>The connected peers, as the indices see them.\<close>

definition connected :: "('rtx, 'wtx, 'utx, 'etx) server_state \<Rightarrow> peer_uid \<Rightarrow> core option" where
  "connected st u = map_option peer_core (hm_get (peers st) u)"

lemma connected_Some:
  "connected st u = Some c \<longleftrightarrow> (\<exists>p. hm_get (peers st) u = Some p \<and> c = peer_core p)"
  by (auto simp: connected_def)

lemma connected_None [simp]: "connected st u = None \<longleftrightarrow> hm_get (peers st) u = None"
  by (simp add: connected_def)

lemma dom_connected: "dom (connected st) = dom (hm_get (peers st))"
  by (auto simp: connected_Some)

definition maps_wf :: "('rtx, 'wtx, 'utx, 'etx) server_state \<Rightarrow> bool" where
  "maps_wf st \<longleftrightarrow> hm_wf (peers st) \<and> hm_wf (peer_tcp_socket_addr_to_peer_uid st) \<and>
     hm_wf (peer_udp_socket_addr_to_peer_uid st) \<and> hm_wf (peer_handshake_uuid_to_peer_uid st)"

definition indices_agree :: "('rtx, 'wtx, 'utx, 'etx) server_state \<Rightarrow> bool" where
  "indices_agree st \<longleftrightarrow>
     index_sound tcp_key (connected st) (hm_get (peer_tcp_socket_addr_to_peer_uid st)) \<and>
     index_complete tcp_key (connected st) (hm_get (peer_tcp_socket_addr_to_peer_uid st)) \<and>
     index_sound udp_key (connected st) (hm_get (peer_udp_socket_addr_to_peer_uid st)) \<and>
     index_sound uuid_key (connected st) (hm_get (peer_handshake_uuid_to_peer_uid st)) \<and>
     index_complete uuid_key (connected st) (hm_get (peer_handshake_uuid_to_peer_uid st))"

definition uids_fresh :: "('rtx, 'wtx, 'utx, 'etx) server_state \<Rightarrow> bool" where
  "uids_fresh st \<longleftrightarrow> (\<forall>u. connected st u \<noteq> None \<longrightarrow> u < next_peer_uid st)"

definition within_capacity :: "('rtx, 'wtx, 'utx, 'etx) server_state \<Rightarrow> bool" where
  "within_capacity st \<longleftrightarrow> hm_len (peers st) \<le> max_connections (config st)"

definition server_wf :: "('rtx, 'wtx, 'utx, 'etx) server_state \<Rightarrow> bool" where
  "server_wf st \<longleftrightarrow> maps_wf st \<and> indices_agree st \<and> uids_fresh st \<and> within_capacity st"

lemmas server_wf_defs = server_wf_def maps_wf_def indices_agree_def uids_fresh_def within_capacity_def

text \<open>
  The store of the indexed peers is a map of cores; it obeys the interface of a keyed store, so
  the lemmas on reverse indices apply to each of the three.
\<close>

interpretation tcp_ix: indexed_store
  hm_empty hm_get hm_insert hm_remove hm_len hm_wf
  hm_empty hm_get hm_insert hm_remove hm_len hm_wf tcp_key
  by unfold_locales

interpretation udp_ix: indexed_store
  hm_empty hm_get hm_insert hm_remove hm_len hm_wf
  hm_empty hm_get hm_insert hm_remove hm_len hm_wf udp_key
  by unfold_locales

interpretation uuid_ix: indexed_store
  hm_empty hm_get hm_insert hm_remove hm_len hm_wf
  hm_empty hm_get hm_insert hm_remove hm_len hm_wf uuid_key
  by unfold_locales

text \<open>The map of the cores, as a map of its own.\<close>

definition cores :: "('rtx, 'wtx, 'utx, 'etx) server_state \<Rightarrow> (peer_uid, core) hash_map" where
  "cores st = map (map_prod id peer_core) (peers st)"

lemma hm_get_cores [simp]: "hm_get (cores st) = connected st"
  by (rule ext) (simp add: cores_def connected_def hm_get_def map_of_map map_prod_def)

lemma hm_len_cores [simp]: "hm_len (cores st) = hm_len (peers st)"
  by (simp add: cores_def hm_len_def)

lemma hm_wf_cores [simp]: "hm_wf (cores st) = hm_wf (peers st)"
proof -
  have "map fst (cores st) = map fst (peers st)" by (simp add: cores_def)
  then show ?thesis by (simp add: hm_wf_def)
qed

section \<open>The check of debug builds\<close>

lemma wf_len:
  assumes "server_wf st"
  shows "hm_len (peer_tcp_socket_addr_to_peer_uid st) = hm_len (peers st)"
    and "hm_len (peer_handshake_uuid_to_peer_uid st) = hm_len (peers st)"
    and "hm_len (peer_udp_socket_addr_to_peer_uid st) \<le> hm_len (peers st)"
proof -
  from assms have maps: "maps_wf st" and ix: "indices_agree st" by (simp_all add: server_wf_def)
  note wfs = maps [unfolded maps_wf_def]
  have some: "tcp_key c \<noteq> None" "uuid_key c \<noteq> None" for c by (simp_all add: key_defs)
  show "hm_len (peer_tcp_socket_addr_to_peer_uid st) = hm_len (peers st)"
    using tcp_ix.sound_len [of "cores st" "peer_tcp_socket_addr_to_peer_uid st"]
      tcp_ix.complete_len [of "cores st" "peer_tcp_socket_addr_to_peer_uid st"] wfs ix some
    by (simp add: indices_agree_def)
  show "hm_len (peer_handshake_uuid_to_peer_uid st) = hm_len (peers st)"
    using uuid_ix.sound_len [of "cores st" "peer_handshake_uuid_to_peer_uid st"]
      uuid_ix.complete_len [of "cores st" "peer_handshake_uuid_to_peer_uid st"] wfs ix some
    by (simp add: indices_agree_def)
  show "hm_len (peer_udp_socket_addr_to_peer_uid st) \<le> hm_len (peers st)"
    using udp_ix.sound_len [of "cores st" "peer_udp_socket_addr_to_peer_uid st"] wfs ix
    by (simp add: indices_agree_def)
qed

lemma wf_assert_invariants: "server_wf st \<Longrightarrow> assert_invariants st = Inr ()"
  by (simp add: assert_invariants_def wf_len)

section \<open>Steps that change no peer\<close>

text \<open>
  Most handlers only exchange channel handles. They leave the shape of the state alone: the
  connected peers, the indices, the UID counter and the configuration.
\<close>

definition same_shape ::
  "('rtx, 'wtx, 'utx, 'etx) server_state \<Rightarrow> ('rtx, 'wtx, 'utx, 'etx) server_state \<Rightarrow> bool" where
  "same_shape st st' \<longleftrightarrow> connected st' = connected st \<and>
     (hm_wf (peers st) \<longrightarrow> hm_wf (peers st')) \<and>
     peer_tcp_socket_addr_to_peer_uid st' = peer_tcp_socket_addr_to_peer_uid st \<and>
     peer_udp_socket_addr_to_peer_uid st' = peer_udp_socket_addr_to_peer_uid st \<and>
     peer_handshake_uuid_to_peer_uid st' = peer_handshake_uuid_to_peer_uid st \<and>
     next_peer_uid st' = next_peer_uid st \<and> config st' = config st \<and> streams st' = streams st"

lemma same_shape_refl [simp]: "same_shape st st"
  by (simp add: same_shape_def)

lemma same_shape_trans: "same_shape st su \<Longrightarrow> same_shape su sv \<Longrightarrow> same_shape st sv"
  by (simp add: same_shape_def)

lemma same_shape_len:
  "same_shape st st' \<Longrightarrow> hm_wf (peers st) \<Longrightarrow> hm_len (peers st') = hm_len (peers st)"
  by (simp add: same_shape_def hm_len_card dom_connected [symmetric])

lemma same_shape_wf: "same_shape st st' \<Longrightarrow> server_wf st \<Longrightarrow> server_wf st'"
  using same_shape_len [of st st'] by (simp add: server_wf_defs same_shape_def)

lemma same_shape_fields [simp]:
  "same_shape st (st\<lparr>event_sender := e\<rparr>)" "same_shape st (st\<lparr>udp_write_actor := w\<rparr>)"
  "same_shape st (st\<lparr>replies := r\<rparr>)" "same_shape st (st\<lparr>dropped_peers := d\<rparr>)"
  by (simp_all add: same_shape_def connected_def fun_eq_iff)

lemma same_shape_handle:
  "hm_get (peers st) u = Some p \<Longrightarrow> peer_core q = peer_core p \<Longrightarrow>
   same_shape st (st\<lparr>peers := hm_insert u q (peers st)\<rparr>)"
  by (auto simp: same_shape_def connected_def)

lemma emit_event_Inr:
  "emit_event env ev st = Inr st' \<longleftrightarrow>
   (\<exists>tx. unbounded_send env (event_sender st) ev = (tx, None) \<and> st' = st\<lparr>event_sender := tx\<rparr>)"
  by (auto simp: emit_event_def split: prod.splits option.splits)

lemma emit_event_shape: "emit_event env ev st = Inr st' \<Longrightarrow> same_shape st st'"
  by (auto simp: emit_event_Inr)

lemma announce_tcp_to_shape: "announce_tcp_to env msg u st = Inr st' \<Longrightarrow> same_shape st st'"
  by (auto simp: announce_tcp_to_def split: option.splits intro!: same_shape_handle)

lemma announce_udp_to_shape: "announce_udp_to env msg u st = Inr st' \<Longrightarrow> same_shape st st'"
  by (auto simp: announce_udp_to_def split: option.splits)

lemma fold_shape:
  assumes "\<And>x s s'. f x s = Inr s' \<Longrightarrow> same_shape s s'" and "fold_ok f xs st = Inr st'"
  shows "same_shape st st'"
  using fold_ok_invariant [where P = "same_shape st" and f = f, OF _ assms(2)] assms(1)
  by (metis same_shape_refl same_shape_trans)

lemma announce_tcp_shape: "announce_tcp env msg st = Inr st' \<Longrightarrow> same_shape st st'"
  unfolding announce_tcp_def by (rule fold_shape) (rule announce_tcp_to_shape)

lemma feeds_shape: "fold_ok (announce_udp_to env msg) us st = Inr st' \<Longrightarrow> same_shape st st'"
  by (rule fold_shape) (rule announce_udp_to_shape)

lemma announce_udp_shape: "announce_udp env msg st = Inr st' \<Longrightarrow> same_shape st st'"
  unfolding announce_udp_def
  by (auto intro!: same_shape_trans [OF _ same_shape_fields(2)] intro: feeds_shape)

lemma handle_actor_message_shape:
  "handle_actor_message env msg st = Inr st' \<Longrightarrow> same_shape st st'"
  by (cases msg)
    (auto split: option.splits intro!: same_shape_handle dest: announce_tcp_shape announce_udp_shape)

lemma handle_tcp_reader_shape:
  "handle_tcp_reader_stream_item env msg u st = Inr st' \<Longrightarrow> same_shape st st'"
  by (cases msg) (auto dest: emit_event_shape)

section \<open>Steps that change the peers\<close>

text \<open>A new connection is registered under the next UID.\<close>

definition joined_peer ::
  "socket_addr \<Rightarrow> ('rtx, 'wtx) spawned \<Rightarrow> 'wtx write_actor_handle \<Rightarrow> ('rtx, 'wtx) peer" where
  "joined_peer addr new wh =
     \<lparr>tcp_socket_addr = addr, udp_socket_addr = None,
      tcp_read_actor_handle = read_spawn_actor (rd_channel new) (rd_task new),
      tcp_write_actor_handle = wh, handshake_uuid = new_v4 new\<rparr>"

definition joined_state ::
  "socket_addr \<Rightarrow> ('rtx, 'wtx) spawned \<Rightarrow> 'wtx write_actor_handle \<Rightarrow> peer_uid \<Rightarrow> 'etx \<Rightarrow>
   ('rtx, 'wtx, 'utx, 'etx) server_state \<Rightarrow> ('rtx, 'wtx, 'utx, 'etx) server_state" where
  "joined_state addr new wh next_uid tx st =
     st\<lparr>peers := hm_insert (next_peer_uid st) (joined_peer addr new wh) (peers st),
       next_peer_uid := next_uid,
       streams := streams st @ [FromTcpReader (next_peer_uid st) (rd_task new),
         FromTcpWriter (next_peer_uid st) (wr_task new)],
       peer_tcp_socket_addr_to_peer_uid :=
         hm_insert addr (next_peer_uid st) (peer_tcp_socket_addr_to_peer_uid st),
       peer_handshake_uuid_to_peer_uid :=
         hm_insert (new_v4 new) (next_peer_uid st) (peer_handshake_uuid_to_peer_uid st),
       event_sender := tx\<rparr>"

lemma joined_state_fields [simp]:
  "peers (joined_state addr new wh n tx st) =
     hm_insert (next_peer_uid st) (joined_peer addr new wh) (peers st)"
  "config (joined_state addr new wh n tx st) = config st"
  "next_peer_uid (joined_state addr new wh n tx st) = n"
  "streams (joined_state addr new wh n tx st) = streams st @
     [FromTcpReader (next_peer_uid st) (rd_task new), FromTcpWriter (next_peer_uid st) (wr_task new)]"
  "peer_tcp_socket_addr_to_peer_uid (joined_state addr new wh n tx st) =
     hm_insert addr (next_peer_uid st) (peer_tcp_socket_addr_to_peer_uid st)"
  "peer_udp_socket_addr_to_peer_uid (joined_state addr new wh n tx st) =
     peer_udp_socket_addr_to_peer_uid st"
  "peer_handshake_uuid_to_peer_uid (joined_state addr new wh n tx st) =
     hm_insert (new_v4 new) (next_peer_uid st) (peer_handshake_uuid_to_peer_uid st)"
  "event_sender (joined_state addr new wh n tx st) = tx"
  "udp_write_actor (joined_state addr new wh n tx st) = udp_write_actor st"
  "replies (joined_state addr new wh n tx st) = replies st"
  "dropped_peers (joined_state addr new wh n tx st) = dropped_peers st"
  by (simp_all add: joined_state_def)

lemma new_connection_Inr:
  assumes "handle_new_tcp_connection env new stream st = Inr st'"
    and "peer_addr stream = Inr addr" and "hm_len (peers st) < max_connections (config st)"
  shows "\<exists>wh r next_uid tx.
      write_send (wr_try_send env) (write_spawn_actor (wr_channel new) (wr_task new))
        (TcpWelcome (new_v4 new)) = Inr (wh, r) \<and>
      unbounded_send env (event_sender st) (NewPeer \<lparr>new_peer_uid = next_peer_uid st\<rparr>) = (tx, None) \<and>
      peer_uid_increment (debug_assertions env) (next_peer_uid st) = Inr next_uid \<and>
      st' = joined_state addr new wh next_uid tx st"
  using assms
  by (auto simp: handle_new_tcp_connection_def Let_def emit_event_Inr read_wait_def write_wait_def
      read_spawn_actor_def write_spawn_actor_def read_handle_new_def write_handle_new_def
      joined_state_def joined_peer_def)

lemma new_connection_rejected:
  "peer_addr stream = Inr addr \<Longrightarrow> max_connections (config st) \<le> hm_len (peers st) \<Longrightarrow>
   handle_new_tcp_connection env new stream st = Inr st"
  by (simp add: handle_new_tcp_connection_def)

text \<open>
  What the environment must respect when a connection arrives: the remote address is not that
  of a connected peer, the drawn UUID is not in use, and the UID counter is not exhausted.
\<close>

definition connection_ok ::
  "('rtx, 'wtx, 'utx, 'etx) server_state \<Rightarrow> tcp_stream \<Rightarrow> ('rtx, 'wtx) spawned \<Rightarrow> bool" where
  "connection_ok st stream new \<longleftrightarrow>
     (case peer_addr stream of
        Inl e \<Rightarrow> True
      | Inr addr \<Rightarrow> hm_get (peer_tcp_socket_addr_to_peer_uid st) addr = None) \<and>
     hm_get (peer_handshake_uuid_to_peer_uid st) (new_v4 new) = None \<and>
     uid_val (next_peer_uid st) \<noteq> - 1"

lemma next_uid_not_connected: "uids_fresh st \<Longrightarrow> hm_get (peers st) (next_peer_uid st) = None"
  unfolding uids_fresh_def by (metis connected_None less_irrefl)

lemma next_uid_grows:
  "uid_val u \<noteq> - 1 \<Longrightarrow> peer_uid_increment b u = Inr v \<Longrightarrow> uid_nat v = Suc (uid_nat u)"
  using increment_ok(1) [of u b] increment_ok(2) [of u] by auto

lemma uids_freshD: "uids_fresh st \<Longrightarrow> connected st u = Some c \<Longrightarrow> uid_nat u < uid_nat (next_peer_uid st)"
  by (auto simp: uids_fresh_def uid_less_nat [symmetric] connected_Some)

lemma register_wf:
  fixes st :: "('rtx, 'wtx, 'utx, 'etx) server_state"
  assumes wf: "server_wf st" and room: "hm_len (peers st) < max_connections (config st)"
    and addr: "hm_get (peer_tcp_socket_addr_to_peer_uid st) addr = None"
    and uuid: "hm_get (peer_handshake_uuid_to_peer_uid st) uuid = None"
    and grows: "uid_nat next = Suc (uid_nat (next_peer_uid st))"
    and core: "peer_core p = (addr, None, uuid)"
    and st': "peers st' = hm_insert (next_peer_uid st) p (peers st)"
      "peer_tcp_socket_addr_to_peer_uid st' =
        hm_insert addr (next_peer_uid st) (peer_tcp_socket_addr_to_peer_uid st)"
      "peer_handshake_uuid_to_peer_uid st' =
        hm_insert uuid (next_peer_uid st) (peer_handshake_uuid_to_peer_uid st)"
      "peer_udp_socket_addr_to_peer_uid st' = peer_udp_socket_addr_to_peer_uid st"
      "next_peer_uid st' = next" "config st' = config st"
  shows "server_wf st'"
proof -
  let ?u = "next_peer_uid st"
  from wf have maps: "maps_wf st" and ix: "indices_agree st" and fresh: "uids_fresh st"
    by (simp_all add: server_wf_def)
  have new: "hm_get (peers st) ?u = None" using fresh by (rule next_uid_not_connected)
  have con: "connected st' = (connected st)(?u \<mapsto> (addr, None, uuid))"
    by (rule ext) (simp add: connected_def st'(1) core)
  have con_core: "connected st' = hm_get (hm_insert ?u (addr, None, uuid) (cores st))"
    by (simp add: con)
  have "maps_wf st'" using maps by (simp add: maps_wf_def st')
  moreover have "indices_agree st'"
    unfolding indices_agree_def con_core st'
  proof (intro conjI)
    note i = ix [unfolded indices_agree_def]
    have cu: "hm_get (cores st) ?u = None" using new by simp
    have kt: "tcp_key (addr, None, uuid) = Some addr" and ku: "uuid_key (addr, None, uuid) = Some uuid"
      by (simp_all add: key_defs)
    have unused: "tcp_key q \<noteq> Some addr" "uuid_key q \<noteq> Some uuid"
      if "hm_get (cores st) v = Some q" for v q
      using that i addr uuid by (auto dest: index_completeD)
    show "index_sound tcp_key (hm_get (hm_insert ?u (addr, None, uuid) (cores st)))
      (hm_get (hm_insert addr ?u (peer_tcp_socket_addr_to_peer_uid st)))"
      using i by (intro tcp_ix.register_sound cu kt) simp
    show "index_complete tcp_key (hm_get (hm_insert ?u (addr, None, uuid) (cores st)))
      (hm_get (hm_insert addr ?u (peer_tcp_socket_addr_to_peer_uid st)))"
      using i by (intro tcp_ix.register_complete kt unused(1)) simp_all
    show "index_sound udp_key (hm_get (hm_insert ?u (addr, None, uuid) (cores st)))
      (hm_get (peer_udp_socket_addr_to_peer_uid st))"
      using i by (intro udp_ix.store_unkeyed_sound cu) simp
    show "index_sound uuid_key (hm_get (hm_insert ?u (addr, None, uuid) (cores st)))
      (hm_get (hm_insert uuid ?u (peer_handshake_uuid_to_peer_uid st)))"
      using i by (intro uuid_ix.register_sound cu ku) simp
    show "index_complete uuid_key (hm_get (hm_insert ?u (addr, None, uuid) (cores st)))
      (hm_get (hm_insert uuid ?u (peer_handshake_uuid_to_peer_uid st)))"
      using i by (intro uuid_ix.register_complete ku unused(2)) simp_all
  qed
  moreover have "uids_fresh st'"
    unfolding uids_fresh_def con st'(5)
    using fresh grows by (auto simp: uid_less_nat less_Suc_eq dest: uids_freshD)
  moreover have "within_capacity st'"
    using hm.len_put_fresh [OF _ new] maps room by (simp add: within_capacity_def st' maps_wf_def)
  ultimately show ?thesis by (simp add: server_wf_def)
qed

lemma new_connection_wf:
  assumes "handle_new_tcp_connection env new stream st = Inr st'"
    and "server_wf st" and ok: "connection_ok st stream new"
  shows "server_wf st'"
proof (cases "peer_addr stream")
  case (Inl e)
  with assms(1) show ?thesis by (simp add: handle_new_tcp_connection_def)
next
  case (Inr addr)
  show ?thesis
  proof (cases "hm_len (peers st) < max_connections (config st)")
    case False
    with assms(1,2) Inr show ?thesis by (simp add: new_connection_rejected)
  next
    case True
    from new_connection_Inr [OF assms(1) Inr True] obtain wh next_uid tx where
      inc: "peer_uid_increment (debug_assertions env) (next_peer_uid st) = Inr next_uid"
      and st': "st' = joined_state addr new wh next_uid tx st" by blast
    have grows: "uid_nat next_uid = Suc (uid_nat (next_peer_uid st))"
      using next_uid_grows [OF _ inc] ok by (simp add: connection_ok_def)
    have unused: "hm_get (peer_tcp_socket_addr_to_peer_uid st) addr = None"
      "hm_get (peer_handshake_uuid_to_peer_uid st) (new_v4 new) = None"
      using ok Inr by (simp_all add: connection_ok_def)
    have core: "peer_core (joined_peer addr new wh) = (addr, None, new_v4 new)"
      by (simp add: joined_peer_def peer_core_def)
    show ?thesis
      by (rule register_wf [OF assms(2) True unused grows core]) (simp_all add: st')
  qed
qed

text \<open>Dropping a peer removes it with all its index entries.\<close>

lemma drop_peer_absent [simp]:
  "hm_get (peers st) u = None \<Longrightarrow> drop_peer env u reason st = Inr st"
  by (simp add: drop_peer_def)

definition left_state ::
  "peer_uid \<Rightarrow> ('rtx, 'wtx) peer \<Rightarrow> 'rtx read_actor_handle \<Rightarrow> 'wtx write_actor_handle \<Rightarrow> 'etx \<Rightarrow>
   ('rtx, 'wtx, 'utx, 'etx) server_state \<Rightarrow> ('rtx, 'wtx, 'utx, 'etx) server_state" where
  "left_state u p rh wh tx st =
     st\<lparr>peers := hm_remove u (peers st),
       peer_tcp_socket_addr_to_peer_uid :=
         hm_remove (tcp_socket_addr p) (peer_tcp_socket_addr_to_peer_uid st),
       peer_udp_socket_addr_to_peer_uid :=
         (case udp_socket_addr p of None \<Rightarrow> peer_udp_socket_addr_to_peer_uid st
          | Some a \<Rightarrow> hm_remove a (peer_udp_socket_addr_to_peer_uid st)),
       peer_handshake_uuid_to_peer_uid :=
         hm_remove (handshake_uuid p) (peer_handshake_uuid_to_peer_uid st),
       dropped_peers := dropped_peers st @
         [(u, p\<lparr>tcp_read_actor_handle := rh, tcp_write_actor_handle := wh\<rparr>)],
       event_sender := tx\<rparr>"

lemma left_state_fields [simp]:
  "peers (left_state u p rh wh tx st) = hm_remove u (peers st)"
  "config (left_state u p rh wh tx st) = config st"
  "next_peer_uid (left_state u p rh wh tx st) = next_peer_uid st"
  "streams (left_state u p rh wh tx st) = streams st"
  "peer_tcp_socket_addr_to_peer_uid (left_state u p rh wh tx st) =
     hm_remove (tcp_socket_addr p) (peer_tcp_socket_addr_to_peer_uid st)"
  "peer_udp_socket_addr_to_peer_uid (left_state u p rh wh tx st) =
     (case udp_socket_addr p of None \<Rightarrow> peer_udp_socket_addr_to_peer_uid st
      | Some a \<Rightarrow> hm_remove a (peer_udp_socket_addr_to_peer_uid st))"
  "peer_handshake_uuid_to_peer_uid (left_state u p rh wh tx st) =
     hm_remove (handshake_uuid p) (peer_handshake_uuid_to_peer_uid st)"
  "event_sender (left_state u p rh wh tx st) = tx"
  "udp_write_actor (left_state u p rh wh tx st) = udp_write_actor st"
  "replies (left_state u p rh wh tx st) = replies st"
  "dropped_peers (left_state u p rh wh tx st) = dropped_peers st @
     [(u, p\<lparr>tcp_read_actor_handle := rh, tcp_write_actor_handle := wh\<rparr>)]"
  by (simp_all add: left_state_def)

lemma drop_peer_Inr:
  assumes "drop_peer env u reason st = Inr st'" and "hm_get (peers st) u = Some p"
  shows "\<exists>rh r1 wh r2 tx. read_signal_shutdown (rd_try_send env) (tcp_read_actor_handle p) = Inr (rh, r1) \<and>
    write_signal_shutdown (wr_try_send env) (tcp_write_actor_handle p) = Inr (wh, r2) \<and>
    unbounded_send env (event_sender st)
      (PeerDisconnect \<lparr>disconnected_uid = u, disconnect_reason = reason\<rparr>) = (tx, None) \<and>
    st' = left_state u p rh wh tx st"
  using assms by (auto simp: drop_peer_def Let_def emit_event_Inr left_state_def split: option.splits)

lemma drop_peer_wf:
  assumes drop: "drop_peer env u reason st = Inr st'" and wf: "server_wf st"
  shows "server_wf st'"
proof (cases "hm_get (peers st) u")
  case None
  with assms show ?thesis by simp
next
  case (Some p)
  from drop_peer_Inr [OF drop this] obtain rh wh tx where st': "st' = left_state u p rh wh tx st"
    by blast
  from wf have maps: "maps_wf st" and ix: "indices_agree st" and fresh: "uids_fresh st"
    and cap: "within_capacity st" by (simp_all add: server_wf_def)
  have con: "connected st' = (connected st)(u := None)"
    by (rule ext) (simp add: connected_def st')
  have con_core: "connected st' = hm_get (hm_remove u (cores st))" by (simp add: con)
  have cu: "hm_get (cores st) u = Some (peer_core p)" using Some by (simp add: connected_def)
  have "maps_wf st'" using maps by (auto simp: maps_wf_def st' split: option.splits)
  moreover have "indices_agree st'"
    unfolding indices_agree_def con_core
    using ix [unfolded indices_agree_def]
      tcp_ix.unregister_sound [OF _ cu, of "peer_tcp_socket_addr_to_peer_uid st"]
      tcp_ix.unregister_complete [OF _ cu, of "peer_tcp_socket_addr_to_peer_uid st"]
      udp_ix.unregister_sound [OF _ cu, of "peer_udp_socket_addr_to_peer_uid st"]
      uuid_ix.unregister_sound [OF _ cu, of "peer_handshake_uuid_to_peer_uid st"]
      uuid_ix.unregister_complete [OF _ cu, of "peer_handshake_uuid_to_peer_uid st"]
    by (simp add: st')
  moreover have "uids_fresh st'"
    unfolding uids_fresh_def con using fresh by (auto simp: st' uid_less_nat dest: uids_freshD)
  moreover have "within_capacity st'"
    using cap maps hm.len_del [of "peers st" u]
    by (simp add: within_capacity_def st' maps_wf_def split: if_splits)
  ultimately show ?thesis by (simp add: server_wf_def)
qed

text \<open>
  A UDP Hello: the peer with that handshake UUID gets the sender's address. The address may be
  its first one or the one it already has; a second, different address is excluded here and
  treated separately.
\<close>

definition hello_ok ::
  "('rtx, 'wtx, 'utx, 'etx) server_state \<Rightarrow> uuid \<Rightarrow> socket_addr \<Rightarrow> bool" where
  "hello_ok st uuid addr \<longleftrightarrow>
     (\<forall>u p. hm_get (peer_handshake_uuid_to_peer_uid st) uuid = Some u \<longrightarrow>
        hm_get (peers st) u = Some p \<longrightarrow> udp_socket_addr p = None \<or> udp_socket_addr p = Some addr)"

definition greeted_state ::
  "peer_uid \<Rightarrow> ('rtx, 'wtx) peer \<Rightarrow> socket_addr \<Rightarrow> 'wtx write_actor_handle \<Rightarrow> 'utx write_actor_handle \<Rightarrow>
   ('rtx, 'wtx, 'utx, 'etx) server_state \<Rightarrow> ('rtx, 'wtx, 'utx, 'etx) server_state" where
  "greeted_state u p addr wh uh st =
     st\<lparr>peers := hm_insert u (p\<lparr>udp_socket_addr := Some addr, tcp_write_actor_handle := wh\<rparr>) (peers st),
       peer_udp_socket_addr_to_peer_uid := hm_insert addr u (peer_udp_socket_addr_to_peer_uid st),
       udp_write_actor := uh\<rparr>"

lemma greeted_state_fields [simp]:
  "peers (greeted_state u p addr wh uh st) =
     hm_insert u (p\<lparr>udp_socket_addr := Some addr, tcp_write_actor_handle := wh\<rparr>) (peers st)"
  "config (greeted_state u p addr wh uh st) = config st"
  "next_peer_uid (greeted_state u p addr wh uh st) = next_peer_uid st"
  "streams (greeted_state u p addr wh uh st) = streams st"
  "peer_tcp_socket_addr_to_peer_uid (greeted_state u p addr wh uh st) =
     peer_tcp_socket_addr_to_peer_uid st"
  "peer_udp_socket_addr_to_peer_uid (greeted_state u p addr wh uh st) =
     hm_insert addr u (peer_udp_socket_addr_to_peer_uid st)"
  "peer_handshake_uuid_to_peer_uid (greeted_state u p addr wh uh st) =
     peer_handshake_uuid_to_peer_uid st"
  "event_sender (greeted_state u p addr wh uh st) = event_sender st"
  "udp_write_actor (greeted_state u p addr wh uh st) = uh"
  "replies (greeted_state u p addr wh uh st) = replies st"
  "dropped_peers (greeted_state u p addr wh uh st) = dropped_peers st"
  by (simp_all add: greeted_state_def)

lemma hello_Inr:
  assumes "handle_udp_reader_stream_item env (UdpHello uuid) addr st = Inr st'"
    and "hm_get (peer_handshake_uuid_to_peer_uid st) uuid = Some u" and "hm_get (peers st) u = Some p"
  shows "\<exists>wh r1 uh r2.
    write_send (wr_try_send env) (tcp_write_actor_handle p) UdpHandshakeAcknowledged = Inr (wh, r1) \<and>
    write_send (udp_try_send env) (udp_write_actor st) (UdpWelcome, addr) = Inr (uh, r2) \<and>
    st' = greeted_state u p addr wh uh st"
  using assms by (auto simp: greeted_state_def)

lemma hello_wf:
  assumes hello: "handle_udp_reader_stream_item env (UdpHello uuid) addr st = Inr st'"
    and wf: "server_wf st" and ok: "hello_ok st uuid addr"
  shows "server_wf st'"
proof (cases "hm_get (peer_handshake_uuid_to_peer_uid st) uuid")
  case None
  with hello wf show ?thesis by simp
next
  case (Some u)
  show ?thesis
  proof (cases "hm_get (peers st) u")
    case None
    with hello wf Some show ?thesis by simp
  next
    case (Some p)
    note found = \<open>hm_get (peer_handshake_uuid_to_peer_uid st) uuid = Some u\<close>
    from hello_Inr [OF hello found Some] obtain wh uh where
      st': "st' = greeted_state u p addr wh uh st" by blast
    let ?c = "(tcp_socket_addr p, Some addr, handshake_uuid p)"
    from wf have maps: "maps_wf st" and ix: "indices_agree st" and fresh: "uids_fresh st"
      and cap: "within_capacity st" by (simp_all add: server_wf_def)
    have con: "connected st' = hm_get (hm_insert u ?c (cores st))"
      by (rule ext) (simp add: connected_def st' peer_core_def)
    have cu: "hm_get (cores st) u = Some (peer_core p)" using Some by (simp add: connected_def)
    have same: "tcp_key ?c = tcp_key (peer_core p)" "uuid_key ?c = uuid_key (peer_core p)"
      by (simp_all add: key_defs peer_core_def)
    have key: "udp_key (peer_core p) = None \<or> udp_key (peer_core p) = Some addr" "udp_key ?c = Some addr"
      using ok found Some by (auto simp: hello_ok_def key_defs peer_core_def)
    have "maps_wf st'" using maps by (simp add: maps_wf_def st')
    moreover have "indices_agree st'"
      unfolding indices_agree_def con
      using ix [unfolded indices_agree_def]
        tcp_ix.replace_sound [OF _ cu same(1), of "peer_tcp_socket_addr_to_peer_uid st"]
        tcp_ix.replace_complete [OF _ cu same(1), of "peer_tcp_socket_addr_to_peer_uid st"]
        udp_ix.rekey_sound [OF _ cu key, of "peer_udp_socket_addr_to_peer_uid st"]
        uuid_ix.replace_sound [OF _ cu same(2), of "peer_handshake_uuid_to_peer_uid st"]
        uuid_ix.replace_complete [OF _ cu same(2), of "peer_handshake_uuid_to_peer_uid st"]
      by (simp add: st')
    moreover have "uids_fresh st'"
      using fresh Some by (auto simp: uids_fresh_def con st')
    moreover have "within_capacity st'"
      using cap maps hm.len_put_same [OF _ Some] by (simp add: within_capacity_def st' maps_wf_def)
    ultimately show ?thesis by (simp add: server_wf_def)
  qed
qed

lemma udp_item_wf:
  assumes "handle_udp_reader_stream_item env msg addr st = Inr st'" and "server_wf st"
    and "\<And>uuid. msg = UdpHello uuid \<Longrightarrow> hello_ok st uuid addr"
  shows "server_wf st'"
proof (cases msg)
  case (UdpHello uuid)
  with assms show ?thesis by (auto intro: hello_wf)
next
  case (UdpToServerApplicationLogic m)
  with assms(1) have "same_shape st st'" by (auto split: option.splits dest: emit_event_shape)
  then show ?thesis using assms(2) by (rule same_shape_wf)
qed

section \<open>The whole round\<close>

text \<open>What the environment must respect for an item of each kind.\<close>

fun incoming_ok ::
  "('rtx, 'wtx, 'utx, 'etx) server_state \<Rightarrow>
   ('tts, 'tfs, 'uts, 'ufs) incoming \<times> ('rtx, 'wtx) spawned \<Rightarrow> bool" where
  "incoming_ok st (TcpListener (Inr stream), new) = connection_ok st stream new"
| "incoming_ok st (UdpReader (StreamItem (Inr (UdpHello uuid), addr)), new) = hello_ok st uuid addr"
| "incoming_ok st _ = True"

lemma keep_Inr [simp]: "keep m = Inr r \<longleftrightarrow> (\<exists>st. m = Inr st \<and> r = (st, []))"
  by (auto simp: keep_def)

lemma keep_Inl [simp]: "keep m = Inl p \<longleftrightarrow> m = Inl p"
  by (cases m) (auto simp: keep_def)

lemma end_of_stream_state: "handle_end_of_stream eof st = Inr (st', drops) \<Longrightarrow> st' = st"
  by (cases "(eof, st)" rule: handle_end_of_stream.cases) (auto simp: assert_not_connected_def)

lemma dispatch_wf:
  assumes "server_dispatch env new inc st = Inr (st', drops)" and "server_wf st"
    and "incoming_ok st (inc, new)"
  shows "server_wf st'"
  using assms
proof (cases "(env, new, inc, st)" rule: server_dispatch.cases)
  case (3 env new stream st)
  with assms show ?thesis by (auto intro: new_connection_wf)
next
  case (6 env new message socket_addr st)
  then have "handle_udp_reader_stream_item env message socket_addr st = Inr st'"
    using assms(1) by simp
  then show ?thesis using 6 assms by (auto intro: udp_item_wf)
qed (auto split: option.splits
    dest: handle_actor_message_shape handle_tcp_reader_shape announce_udp_shape end_of_stream_state
    elim: same_shape_wf)

lemma drops_wf:
  "fold_ok (\<lambda>(u, reason). drop_peer env u reason) drops st = Inr st' \<Longrightarrow> server_wf st \<Longrightarrow> server_wf st'"
  by (rule fold_ok_invariant [where P = server_wf]) (auto intro: drop_peer_wf)

lemma loop_top_Inr:
  "loop_top env (st, drops) = Inr st' \<longleftrightarrow>
   (debug_assertions env \<longrightarrow> assert_invariants st = Inr ()) \<and>
   fold_ok (\<lambda>(u, reason). drop_peer env u reason) drops st = Inr st'"
  by (auto simp: loop_top_def)

lemma server_step_Running:
  "server_step env st (inc, new) = Running st' \<longleftrightarrow>
   (\<exists>su drops. server_dispatch env new inc st = Inr (su, drops) \<and> loop_top env (su, drops) = Inr st')"
  by (auto simp: server_step_def server_round_def)

lemma server_step_wf:
  assumes "server_wf st" and "incoming_ok st i" and "server_step env st i = Running st'"
  shows "server_wf st'"
proof -
  obtain inc new where i: "i = (inc, new)" by (cases i)
  from assms(3) obtain su drops where
    su: "server_dispatch env new inc st = Inr (su, drops)" and top: "loop_top env (su, drops) = Inr st'"
    unfolding i server_step_Running by blast
  from dispatch_wf [OF su assms(1)] assms(2) have "server_wf su" by (simp add: i)
  with top show ?thesis by (auto simp: loop_top_Inr intro: drops_wf)
qed

lemma server_state_new_wf [simp]: "server_wf (server_state_new cfg tx rt uc ut)"
  by (auto simp: server_wf_defs server_state_new_def Let_def index_sound_def index_complete_def
      connected_def hm_len_def hm_empty_def hm_get_def hm_wf_def)

text \<open>The task: its first \<open>loop_top\<close> passes, and then it runs the rounds of its loop.\<close>

lemma server_actor_run:
  "interval (udp_heartbeat_interval cfg) = Inr () \<Longrightarrow>
   server_actor env interval cfg tx rt uc ut rx =
   run_loop (server_next env) (server_state_new cfg tx rt uc ut) rx"
  by (simp add: server_actor_def loop_top_def wf_assert_invariants)

lemma server_actor_rounds:
  "server_actor env interval cfg tx rt uc ut rx = Running st' \<longleftrightarrow>
   interval (udp_heartbeat_interval cfg) = Inr () \<and>
   run_loop (server_next env) (server_state_new cfg tx rt uc ut) rx = Running st'"
  by (auto simp: server_actor_def loop_top_def wf_assert_invariants split: sum.splits)

lemma run_next_items: "run_loop (server_next env) st (map Some is) = run_loop (server_step env) st is"
  by (induction "is" arbitrary: st) (simp_all split: flow.splits)

lemma server_actor_Running:
  "server_actor env interval cfg tx rt uc ut (map Some is) = Running st' \<longleftrightarrow>
   interval (udp_heartbeat_interval cfg) = Inr () \<and>
   run_loop (server_step env) (server_state_new cfg tx rt uc ut) is = Running st'"
  by (simp add: server_actor_rounds run_next_items)

text \<open>A task that awaits its next item has only been given items.\<close>

lemma server_actor_RunningE:
  assumes "server_actor env interval cfg tx rt uc ut rx = Running st'"
  obtains "is" where "rx = map Some is"
    and "run_loop (server_step env) (server_state_new cfg tx rt uc ut) is = Running st'"
proof -
  have "\<exists>is. rx = map Some is" if "run_loop (server_next env) st rx = Running st'" for st
    using that
  proof (induction rx arbitrary: st)
    case (Cons x rx)
    then obtain i where i: "x = Some i" by (cases x) auto
    with Cons.prems obtain st1 where "run_loop (server_next env) st1 rx = Running st'"
      by (auto split: flow.splits)
    from Cons.IH [OF this] obtain "is" where "rx = map Some is" by blast
    with i have "x # rx = map Some (i # is)" by simp
    then show ?case by (rule exI)
  qed simp
  with assms obtain "is" where "rx = map Some is" by (auto simp: server_actor_rounds)
  with assms that show thesis by (simp add: server_actor_Running)
qed

interpretation server_loop: loop_invariant "server_step env" incoming_ok server_wf for env
  by unfold_locales (rule server_step_wf)

end
