(* ===== verification/ServerEvents.thy ===== *)
theory ServerEvents
  imports ServerInv
begin

text \<open>
  What the application sees of the server: the stream of events. The abstract machine
  \<open>presence_act\<close> is the contract of that stream, and the broker refines it. Also the capacity
  bound, which holds whatever the environment does.
\<close>

section \<open>Capacity\<close>

definition capacity_inv :: "config \<Rightarrow> ('rtx, 'wtx, 'utx, 'etx) server_state \<Rightarrow> bool" where
  "capacity_inv cfg st \<longleftrightarrow> hm_wf (peers st) \<and> config st = cfg \<and> hm_len (peers st) \<le> max_connections cfg"

lemma capacity_shape: "same_shape st st' \<Longrightarrow> capacity_inv cfg st \<Longrightarrow> capacity_inv cfg st'"
  using same_shape_len [of st st'] by (simp add: capacity_inv_def same_shape_def)

lemma new_connection_capacity:
  assumes "handle_new_tcp_connection env new stream st = Inr st'" and inv: "capacity_inv cfg st"
  shows "capacity_inv cfg st'"
proof (cases "peer_addr stream")
  case (Inl e)
  with assms(1) show ?thesis by (simp add: handle_new_tcp_connection_def)
next
  case (Inr addr)
  show ?thesis
  proof (cases "hm_len (peers st) < max_connections (config st)")
    case False
    with assms Inr show ?thesis by (simp add: new_connection_rejected)
  next
    case True
    with new_connection_Inr [OF assms(1) Inr True] inv
      hm.len_put_le [of "peers st" "next_peer_uid st"]
    show ?thesis by (auto simp: capacity_inv_def) (meson Suc_leI le_trans)
  qed
qed

lemma drop_peer_capacity:
  assumes "drop_peer env u reason st = Inr st'" and "capacity_inv cfg st"
  shows "capacity_inv cfg st'"
proof (cases "hm_get (peers st) u")
  case None
  with assms show ?thesis by simp
next
  case (Some p)
  from drop_peer_Inr [OF assms(1) this] assms(2) hm.len_del [of "peers st" u] show ?thesis
    by (auto simp: capacity_inv_def)
qed

lemma udp_item_capacity:
  assumes "handle_udp_reader_stream_item env msg addr st = Inr st'" and "capacity_inv cfg st"
  shows "capacity_inv cfg st'"
proof (cases "\<exists>uuid u p. msg = UdpHello uuid \<and>
    hm_get (peer_handshake_uuid_to_peer_uid st) uuid = Some u \<and> hm_get (peers st) u = Some p")
  case True
  then obtain uuid u p where found: "msg = UdpHello uuid"
    "hm_get (peer_handshake_uuid_to_peer_uid st) uuid = Some u" "hm_get (peers st) u = Some p" by blast
  from hello_Inr [OF assms(1) [unfolded found(1)] found(2,3)] assms(2)
    hm.len_put_same [OF _ found(3)] show ?thesis
    by (auto simp: capacity_inv_def)
next
  case False
  with assms(1) have "same_shape st st'"
    by (cases msg) (auto split: option.splits dest: emit_event_shape)
  then show ?thesis using assms(2) by (rule capacity_shape)
qed

lemma dispatch_capacity:
  assumes "server_dispatch env new inc st = Inr (st', drops)" and "capacity_inv cfg st"
  shows "capacity_inv cfg st'"
  using assms
  by (cases "(env, new, inc, st)" rule: server_dispatch.cases)
    (auto split: option.splits
      dest: handle_actor_message_shape handle_tcp_reader_shape announce_udp_shape end_of_stream_state
        new_connection_capacity udp_item_capacity
      elim: capacity_shape)

lemma server_step_capacity:
  assumes "capacity_inv cfg st" and "server_step env st i = Running st'"
  shows "capacity_inv cfg st'"
proof -
  obtain inc new where i: "i = (inc, new)" by (cases i)
  from assms(2) obtain su drops where
    su: "server_dispatch env new inc st = Inr (su, drops)" and top: "loop_top env (su, drops) = Inr st'"
    unfolding i server_step_Running by blast
  have "capacity_inv cfg su" using su assms(1) by (rule dispatch_capacity)
  with top show ?thesis
    by (auto simp: loop_top_Inr intro: drop_peer_capacity
        elim!: fold_ok_invariant [where P = "capacity_inv cfg", rotated])
qed

interpretation capacity: loop_invariant "server_step env" "\<lambda>st i. True" "capacity_inv cfg"
  for env cfg
  by unfold_locales (rule server_step_capacity)

section \<open>The presence machine\<close>

text \<open>
  The contract of the event stream. The state is the set of the peers that are connected and
  the number of peers ever admitted. Peers are admitted under consecutive UIDs, only a
  connected peer disconnects, only a connected peer's UDP messages are reported, and TCP
  messages only of peers that were admitted at some time.
\<close>

type_synonym presence = "peer_uid set \<times> nat"

fun presence_act :: "presence \<Rightarrow> ('tts, 'uts) server_event \<Rightarrow> presence option" where
  "presence_act (C, n) (NewPeer e) =
     (if uid_nat (new_peer_uid e) = n \<and> new_peer_uid e \<notin> C
      then Some (insert (new_peer_uid e) C, Suc n) else None)"
| "presence_act (C, n) (PeerDisconnect e) =
     (if disconnected_uid e \<in> C then Some (C - {disconnected_uid e}, n) else None)"
| "presence_act (C, n) (UdpMessage m) = (if message_from m \<in> C then Some (C, n) else None)"
| "presence_act (C, n) (TcpMessage m) =
     (if uid_nat (message_from m) < n then Some (C, n) else None)"

definition presence :: "('rtx, 'wtx, 'utx, 'etx) server_state \<Rightarrow> presence" where
  "presence st = (dom (connected st), uid_nat (next_peer_uid st))"

text \<open>
  A TCP read actor's item comes through a stream that was registered when its peer was admitted.
\<close>

definition registered :: "('rtx, 'wtx, 'utx, 'etx) server_state \<Rightarrow> peer_uid \<Rightarrow> bool" where
  "registered st u \<longleftrightarrow> (\<exists>t. FromTcpReader u t \<in> set (streams st))"

definition streams_admitted :: "('rtx, 'wtx, 'utx, 'etx) server_state \<Rightarrow> bool" where
  "streams_admitted st \<longleftrightarrow> (\<forall>u. registered st u \<longrightarrow> u < next_peer_uid st)"

fun event_source_ok ::
  "('rtx, 'wtx, 'utx, 'etx) server_state \<Rightarrow>
   ('tts, 'tfs, 'uts, 'ufs) incoming \<times> ('rtx, 'wtx) spawned \<Rightarrow> bool" where
  "event_source_ok st (TcpReader ev u, new) = registered st u"
| "event_source_ok st _ = True"

definition events_ok ::
  "('rtx, 'wtx, 'utx, 'etx) server_state \<Rightarrow>
   ('tts, 'tfs, 'uts, 'ufs) incoming \<times> ('rtx, 'wtx) spawned \<Rightarrow> bool" where
  "events_ok st i \<longleftrightarrow> incoming_ok st i \<and> event_source_ok st i"

text \<open>The part of a run from one state to the next, seen through the event log.\<close>

definition logged_between ::
  "('etx \<Rightarrow> ('tts, 'uts) server_event list) \<Rightarrow> ('rtx, 'wtx, 'utx, 'etx) server_state \<Rightarrow>
   ('rtx, 'wtx, 'utx, 'etx) server_state \<Rightarrow> bool" where
  "logged_between acc st st' \<longleftrightarrow>
     (\<exists>es. acc (event_sender st') = acc (event_sender st) @ es \<and>
        replay presence_act (presence st) es = Some (presence st'))"

lemma logged_between_refl: "logged_between acc st st"
  unfolding logged_between_def by (rule exI [of _ "[]"]) simp

lemma logged_between_trans:
  "logged_between acc st su \<Longrightarrow> logged_between acc su sv \<Longrightarrow> logged_between acc st sv"
  unfolding logged_between_def by (fastforce simp: replay_append)

lemma logged_quiet:
  "same_shape st st' \<Longrightarrow> event_sender st' = event_sender st \<Longrightarrow> logged_between acc st st'"
  unfolding logged_between_def by (rule exI [of _ "[]"]) (simp add: presence_def same_shape_def)

lemma logged_one:
  assumes "try_send_law (unbounded_send env) acc"
    and "unbounded_send env (event_sender st) ev = (event_sender st', None)"
    and "presence_act (presence st) ev = Some (presence st')"
  shows "logged_between acc st st'"
  unfolding logged_between_def
  using try_send_law_ok [OF assms(1,2)] assms(3) by (intro exI [of _ "[ev]"]) simp

lemma logged_emit:
  assumes "try_send_law (unbounded_send env) acc" and "emit_event env ev st = Inr st'"
    and "presence_act (presence st) ev = Some (presence st)"
  shows "logged_between acc st st'"
proof -
  from assms(2) obtain tx where
    "unbounded_send env (event_sender st) ev = (tx, None)" "st' = st\<lparr>event_sender := tx\<rparr>"
    by (auto simp: emit_event_Inr)
  then show ?thesis
    using assms(3) by (auto intro!: logged_one [OF assms(1)] simp: presence_def connected_def)
qed

text \<open>Handlers that leave the event stream alone.\<close>

lemma announce_tcp_sender: "announce_tcp env msg st = Inr st' \<Longrightarrow> event_sender st' = event_sender st"
  unfolding announce_tcp_def
  by (erule fold_ok_invariant [where P = "\<lambda>s. event_sender s = event_sender st", rotated])
    (auto simp: announce_tcp_to_def split: option.splits)

lemma feeds_sender:
  "fold_ok (announce_udp_to env msg) us st = Inr st' \<Longrightarrow> event_sender st' = event_sender st"
  by (erule fold_ok_invariant [where P = "\<lambda>s. event_sender s = event_sender st", rotated])
    (auto simp: announce_udp_to_def split: option.splits)

lemma announce_udp_sender: "announce_udp env msg st = Inr st' \<Longrightarrow> event_sender st' = event_sender st"
  by (auto simp: announce_udp_def dest: feeds_sender)

lemma handle_actor_message_sender:
  "handle_actor_message env msg st = Inr st' \<Longrightarrow> event_sender st' = event_sender st"
  by (cases msg) (auto split: option.splits dest: announce_tcp_sender announce_udp_sender)

text \<open>Handlers that emit an event.\<close>

lemma new_connection_logged:
  assumes law: "try_send_law (unbounded_send env) acc" and wf: "server_wf st"
    and run: "handle_new_tcp_connection env new stream st = Inr st'"
    and ok: "connection_ok st stream new"
  shows "logged_between acc st st'"
proof (cases "peer_addr stream")
  case (Inl e)
  with run show ?thesis by (simp add: handle_new_tcp_connection_def)
next
  case (Inr addr)
  show ?thesis
  proof (cases "hm_len (peers st) < max_connections (config st)")
    case False
    with run Inr show ?thesis by (simp add: new_connection_rejected logged_between_refl)
  next
    case True
    from new_connection_Inr [OF run Inr True] obtain wh next_uid tx where
      sent: "unbounded_send env (event_sender st) (NewPeer \<lparr>new_peer_uid = next_peer_uid st\<rparr>) = (tx, None)"
      and inc: "peer_uid_increment (debug_assertions env) (next_peer_uid st) = Inr next_uid"
      and st': "st' = joined_state addr new wh next_uid tx st" by blast
    have "uid_nat next_uid = Suc (uid_nat (next_peer_uid st))"
      using next_uid_grows [OF _ inc] ok by (simp add: connection_ok_def)
    moreover have "next_peer_uid st \<notin> dom (connected st)"
      using wf next_uid_not_connected [of st] by (simp add: server_wf_def domIff)
    moreover have "dom (connected st') = insert (next_peer_uid st) (dom (connected st))"
      by (simp add: dom_connected st')
    ultimately have "presence_act (presence st) (NewPeer \<lparr>new_peer_uid = next_peer_uid st\<rparr>) =
        Some (presence st')" by (simp add: presence_def st')
    with sent show ?thesis by (intro logged_one [OF law]) (simp_all add: st')
  qed
qed

lemma drop_peer_logged:
  assumes law: "try_send_law (unbounded_send env) acc"
    and run: "drop_peer env u reason st = Inr st'"
  shows "logged_between acc st st'"
proof (cases "hm_get (peers st) u")
  case None
  with run show ?thesis by (simp add: logged_between_refl)
next
  case (Some p)
  from drop_peer_Inr [OF run this] obtain rh wh tx where
    sent: "unbounded_send env (event_sender st)
      (PeerDisconnect \<lparr>disconnected_uid = u, disconnect_reason = reason\<rparr>) = (tx, None)"
    and st': "st' = left_state u p rh wh tx st" by blast
  have "u \<in> dom (connected st)" using Some by (simp add: dom_connected domIff)
  moreover have "dom (connected st') = dom (connected st) - {u}" by (auto simp: dom_connected st')
  ultimately have "presence_act (presence st)
      (PeerDisconnect \<lparr>disconnected_uid = u, disconnect_reason = reason\<rparr>) = Some (presence st')"
    by (simp add: presence_def st')
  with sent show ?thesis by (intro logged_one [OF law]) (simp_all add: st')
qed

lemma udp_item_logged:
  assumes law: "try_send_law (unbounded_send env) acc" and wf: "server_wf st"
    and run: "handle_udp_reader_stream_item env msg addr st = Inr st'"
  shows "logged_between acc st st'"
proof (cases msg)
  case (UdpHello uuid)
  with run have "event_sender st' = event_sender st" "next_peer_uid st' = next_peer_uid st"
    "dom (connected st') = dom (connected st)"
    by (auto simp: dom_connected split: option.splits if_splits)
  then show ?thesis unfolding logged_between_def by (intro exI [of _ "[]"]) (simp add: presence_def)
next
  case (UdpToServerApplicationLogic m)
  show ?thesis
  proof (cases "hm_get (peer_udp_socket_addr_to_peer_uid st) addr")
    case None
    with run UdpToServerApplicationLogic show ?thesis by (simp add: logged_between_refl)
  next
    case (Some u)
    with run UdpToServerApplicationLogic
    have emit: "emit_event env (UdpMessage \<lparr>message_from = u, message_body = m\<rparr>) st = Inr st'" by simp
    from wf have "index_sound udp_key (connected st) (hm_get (peer_udp_socket_addr_to_peer_uid st))"
      by (simp add: server_wf_def indices_agree_def)
    from index_soundD [OF this Some] have "u \<in> dom (connected st)" by blast
    with emit show ?thesis by (intro logged_emit [OF law emit]) (simp add: presence_def)
  qed
qed

lemma tcp_item_logged:
  assumes law: "try_send_law (unbounded_send env) acc" and admitted: "u < next_peer_uid st"
    and run: "handle_tcp_reader_stream_item env msg u st = Inr st'"
  shows "logged_between acc st st'"
  using run admitted by (cases msg) (auto intro!: logged_emit [OF law] simp: presence_def uid_less_nat)

lemma dispatch_logged:
  assumes law: "try_send_law (unbounded_send env) acc" and wf: "server_wf st"
    and adm: "streams_admitted st" and run: "server_dispatch env new inc st = Inr (st', drops)"
    and ok: "events_ok st (inc, new)"
  shows "logged_between acc st st'"
  using run ok
proof (cases "(env, new, inc, st)" rule: server_dispatch.cases)
  case (3 env' new' stream st2)
  with run ok law wf show ?thesis by (auto simp: events_ok_def intro: new_connection_logged)
next
  case (4 env' new' message u st2)
  with run ok adm law show ?thesis
    by (auto simp: events_ok_def streams_admitted_def intro: tcp_item_logged)
next
  case (6 env' new' message addr st2)
  with run law wf show ?thesis by (auto intro: udp_item_logged)
qed (auto split: option.splits simp: logged_between_refl
    dest: end_of_stream_state
    intro: logged_quiet handle_actor_message_shape announce_udp_shape
      handle_actor_message_sender announce_udp_sender)

lemma drops_logged:
  assumes law: "try_send_law (unbounded_send env) acc"
    and run: "fold_ok (\<lambda>(u, reason). drop_peer env u reason) drops st = Inr st'"
  shows "logged_between acc st st'"
  using fold_ok_invariant [where P = "logged_between acc st", OF _ run logged_between_refl]
  by (auto intro: logged_between_trans drop_peer_logged [OF law])

lemma server_step_logged:
  assumes law: "try_send_law (unbounded_send env) acc" and wf: "server_wf st"
    and adm: "streams_admitted st" and ok: "events_ok st i" and run: "server_step env st i = Running st'"
  shows "logged_between acc st st'"
proof -
  obtain inc new where i: "i = (inc, new)" by (cases i)
  from run obtain su drops where
    su: "server_dispatch env new inc st = Inr (su, drops)" and top: "loop_top env (su, drops) = Inr st'"
    unfolding i server_step_Running by blast
  have "logged_between acc st su" using dispatch_logged [OF law wf adm su] ok i by simp
  moreover have "logged_between acc su st'" using top by (auto simp: loop_top_Inr intro: drops_logged [OF law])
  ultimately show ?thesis by (rule logged_between_trans)
qed

text \<open>The streams registered are those of admitted peers.\<close>

lemma streams_admitted_shape: "same_shape st st' \<Longrightarrow> streams_admitted st \<Longrightarrow> streams_admitted st'"
  by (simp add: same_shape_def streams_admitted_def registered_def)

lemma streams_admitted_same:
  "streams st' = streams st \<and> next_peer_uid st' = next_peer_uid st \<Longrightarrow> streams_admitted st \<Longrightarrow>
   streams_admitted st'"
  by (simp add: streams_admitted_def registered_def)

lemma new_connection_admitted:
  assumes run: "handle_new_tcp_connection env new stream st = Inr st'"
    and ok: "connection_ok st stream new" and adm: "streams_admitted st"
  shows "streams_admitted st'"
proof (cases "peer_addr stream")
  case (Inl e)
  with run show ?thesis by (simp add: handle_new_tcp_connection_def)
next
  case (Inr addr)
  show ?thesis
  proof (cases "hm_len (peers st) < max_connections (config st)")
    case False
    with run Inr adm show ?thesis by (simp add: new_connection_rejected)
  next
    case True
    from new_connection_Inr [OF run Inr True] obtain wh next_uid tx where
      inc: "peer_uid_increment (debug_assertions env) (next_peer_uid st) = Inr next_uid"
      and st': "st' = joined_state addr new wh next_uid tx st" by blast
    have "uid_nat next_uid = Suc (uid_nat (next_peer_uid st))"
      using next_uid_grows [OF _ inc] ok by (simp add: connection_ok_def)
    with adm show ?thesis
      by (auto simp: streams_admitted_def registered_def st' uid_less_nat less_Suc_eq)
  qed
qed

lemma drop_peer_streams:
  "drop_peer env u reason st = Inr st' \<Longrightarrow> streams st' = streams st \<and> next_peer_uid st' = next_peer_uid st"
  by (cases "hm_get (peers st) u") (auto dest: drop_peer_Inr)

lemma drops_streams:
  "fold_ok (\<lambda>(u, reason). drop_peer env u reason) drops st = Inr st' \<Longrightarrow>
   streams st' = streams st \<and> next_peer_uid st' = next_peer_uid st"
  by (erule fold_ok_invariant
      [where P = "\<lambda>s. streams s = streams st \<and> next_peer_uid s = next_peer_uid st", rotated])
    (auto dest: drop_peer_streams)

lemma udp_item_streams:
  "handle_udp_reader_stream_item env msg addr st = Inr st' \<Longrightarrow>
   streams st' = streams st \<and> next_peer_uid st' = next_peer_uid st"
  by (cases msg) (auto simp: emit_event_Inr split: option.splits)

lemma dispatch_admitted:
  assumes run: "server_dispatch env new inc st = Inr (st', drops)"
    and ok: "incoming_ok st (inc, new)" and adm: "streams_admitted st"
  shows "streams_admitted st'"
  using run ok adm
proof (cases "(env, new, inc, st)" rule: server_dispatch.cases)
  case (6 env' new' message addr st2)
  then have "handle_udp_reader_stream_item env message addr st = Inr st'" using run by simp
  from streams_admitted_same [OF udp_item_streams [OF this] adm] show ?thesis .
qed (auto split: option.splits
    dest: end_of_stream_state handle_actor_message_shape handle_tcp_reader_shape announce_udp_shape
      new_connection_admitted
    elim: streams_admitted_shape)

lemma server_step_admitted:
  assumes "streams_admitted st" and "incoming_ok st i" and "server_step env st i = Running st'"
  shows "streams_admitted st'"
proof -
  obtain inc new where i: "i = (inc, new)" by (cases i)
  from assms(3) obtain su drops where
    su: "server_dispatch env new inc st = Inr (su, drops)" and top: "loop_top env (su, drops) = Inr st'"
    unfolding i server_step_Running by blast
  have "streams_admitted su" using dispatch_admitted [OF su] assms i by simp
  with top show ?thesis
    using streams_admitted_same [OF drops_streams] by (auto simp: loop_top_Inr)
qed

section \<open>The broker refines the presence machine\<close>

definition presence_inv ::
  "('rtx, 'wtx, 'utx, 'etx, 'tts, 'tfs, 'uts, 'ufs) server_env \<Rightarrow>
   ('etx \<Rightarrow> ('tts, 'uts) server_event list) \<Rightarrow> ('rtx, 'wtx, 'utx, 'etx) server_state \<Rightarrow> bool" where
  "presence_inv env acc st \<longleftrightarrow>
     try_send_law (unbounded_send env) acc \<and> server_wf st \<and> streams_admitted st"

interpretation presence: logged_loop "server_step env" events_ok "presence_inv env acc"
  "\<lambda>st. acc (event_sender st)" presence presence_act for env acc
proof unfold_locales
  fix st i st'
  assume inv: "presence_inv env acc st" and ok: "events_ok st i" and run: "server_step env st i = Running st'"
  then show "presence_inv env acc st'"
    by (auto simp: presence_inv_def events_ok_def intro: server_step_wf server_step_admitted)
  show "\<exists>es. acc (event_sender st') = acc (event_sender st) @ es \<and>
      replay presence_act (presence st) es = Some (presence st')"
    using inv ok run unfolding presence_inv_def
    by (auto simp: logged_between_def [symmetric] intro: server_step_logged)
qed

lemma presence_inv_new:
  "try_send_law (unbounded_send env) acc \<Longrightarrow>
   presence_inv env acc (server_state_new cfg tx rt uc ut)"
  by (simp add: presence_inv_def)
    (auto simp: streams_admitted_def registered_def server_state_new_def Let_def)

lemma presence_new [simp]: "presence (server_state_new cfg tx rt uc ut) = ({}, 0)"
  by (auto simp: presence_def dom_connected server_state_new_def Let_def)

text \<open>Facts about any log the presence machine accepts.\<close>

lemma presence_count_mono: "replay presence_act (C, n) es = Some (D, m) \<Longrightarrow> n \<le> m"
proof (induction es arbitrary: C n)
  case (Cons e es)
  then obtain C' n' where step: "presence_act (C, n) e = Some (C', n')"
    and rest: "replay presence_act (C', n') es = Some (D, m)"
    by (auto split: option.splits)
  from step have "n \<le> n'" by (cases e) (auto split: if_splits)
  with Cons.IH [OF rest] show ?case by simp
qed simp

text \<open>The UIDs announced by the \<open>NewPeer\<close> events are consecutive, so no UID is given twice.\<close>

fun admitted_uids :: "('tts, 'uts) server_event list \<Rightarrow> peer_uid list" where
  "admitted_uids [] = []"
| "admitted_uids (NewPeer e # es) = new_peer_uid e # admitted_uids es"
| "admitted_uids (_ # es) = admitted_uids es"

lemma presence_admitted:
  "replay presence_act (C, n) es = Some (D, m) \<Longrightarrow> map uid_nat (admitted_uids es) = [n ..< m]"
proof (induction es arbitrary: C n)
  case Nil
  then show ?case by simp
next
  case (Cons e es)
  then obtain C' n' where step: "presence_act (C, n) e = Some (C', n')"
    and rest: "replay presence_act (C', n') es = Some (D, m)"
    by (auto split: option.splits)
  note IH = Cons.IH [OF rest]
  show ?case
  proof (cases e)
    case (NewPeer x)
    with step have n: "uid_nat (new_peer_uid x) = n" "n' = Suc n" by (auto split: if_splits)
    moreover have "n' \<le> m" using rest by (rule presence_count_mono)
    ultimately show ?thesis using IH NewPeer by (simp add: upt_rec [of n m])
  qed (use step IH in \<open>auto split: if_splits\<close>)
qed

end
