(* ===== verification/ServerSafety.thy ===== *)
theory ServerSafety
  imports ServerInv
begin

text \<open>
  Which items make the broker panic, as long as the application keeps its event receiver: every
  handler is total, the check of debug builds holds on well-formed states, and exactly the \<open>fatal\<close> items
  panic. An environment that keeps to its documented behaviour delivers none of those, because of
  what the broker itself has and has not posted to its peers' actors.
\<close>

section \<open>Totality of the handlers\<close>

definition server_env_law ::
  "('rtx, 'wtx, 'utx, 'etx, 'tts, 'tfs, 'uts, 'ufs) server_env \<Rightarrow> ('rtx \<Rightarrow> read_actor_message list) \<Rightarrow>
   ('wtx \<Rightarrow> 'tfs tcp_from_server write_actor_message list) \<Rightarrow>
   ('utx \<Rightarrow> ('ufs udp_from_server \<times> socket_addr) write_actor_message list) \<Rightarrow>
   ('etx \<Rightarrow> ('tts, 'uts) server_event list) \<Rightarrow> bool" where
  "server_env_law env ra wa ua ea \<longleftrightarrow>
     try_send_law (rd_try_send env) ra \<and> try_send_law (wr_try_send env) wa \<and>
     try_send_law (udp_try_send env) ua \<and> try_send_law (unbounded_send env) ea"

lemma server_env_lawD:
  assumes "server_env_law env ra wa ua ea"
  shows "try_send_law (rd_try_send env) ra" and "try_send_law (wr_try_send env) wa"
    and "try_send_law (udp_try_send env) ua" and "try_send_law (unbounded_send env) ea"
  using assms by (simp_all add: server_env_law_def)

lemma fold_ok_total: "(\<And>x s. \<exists>s'. f x s = Inr s') \<Longrightarrow> \<exists>t. fold_ok f xs s = Inr t"
proof (induction xs arbitrary: s)
  case (Cons x xs)
  then obtain s' where "f x s = Inr s'" by blast
  with Cons.IH [OF Cons.prems, of s'] show ?case by auto
qed simp

lemma emit_event_total: "receiver_open (unbounded_send env) \<Longrightarrow> \<exists>st'. emit_event env ev st = Inr st'"
  by (cases "unbounded_send env (event_sender st) ev") (auto simp: emit_event_Inr dest: channel_laws)

lemma write_send_total: "try_send_law ts acc \<Longrightarrow> \<exists>h' r. write_send ts h x = Inr (h', r)"
  unfolding write_send_def by (rule wr.post_total)

lemma write_feed_total: "try_send_law ts acc \<Longrightarrow> \<exists>h' r. write_feed ts h x = Inr (h', r)"
  unfolding write_feed_def by (rule wr.post_total)

lemma write_flush_total: "try_send_law ts acc \<Longrightarrow> \<exists>h' r. write_flush ts h = Inr (h', r)"
  unfolding write_flush_def by (rule wr.post_total)

lemma write_signal_total: "try_send_law ts acc \<Longrightarrow> \<exists>h' r. write_signal_shutdown ts h = Inr (h', r)"
  unfolding write_signal_shutdown_def by (rule wr.post_total)

lemma read_signal_total: "try_send_law ts acc \<Longrightarrow> \<exists>h' r. read_signal_shutdown ts h = Inr (h', r)"
  unfolding read_signal_shutdown_def by (rule rd.post_total)

lemma announce_tcp_total:
  assumes law: "try_send_law (wr_try_send env) wa"
  shows "\<exists>st'. announce_tcp env msg st = Inr st'"
proof -
  have "\<exists>s'. announce_tcp_to env msg u s = Inr s'" for u s
  proof (cases "hm_get (peers s) u")
    case (Some p)
    obtain wh r where "write_send (wr_try_send env) (tcp_write_actor_handle p)
        (clone_tcp_from_server (clone_tfs env) msg) = Inr (wh, r)"
      using write_send_total [OF law] by blast
    with Some show ?thesis by (simp add: announce_tcp_to_def)
  qed (simp add: announce_tcp_to_def)
  from fold_ok_total [of "announce_tcp_to env msg", OF this] show ?thesis
    unfolding announce_tcp_def .
qed

lemma announce_udp_total:
  assumes law: "try_send_law (udp_try_send env) ua"
  shows "\<exists>st'. announce_udp env msg st = Inr st'"
proof -
  have "\<exists>s'. announce_udp_to env msg u s = Inr s'" for u s
    using write_feed_total [OF law] by (auto simp: announce_udp_to_def split: option.splits)
  from fold_ok_total [of "announce_udp_to env msg", OF this] obtain su where
    "fold_ok (announce_udp_to env msg) (iter_order env (hm_keys (peers st))) st = Inr su" by blast
  with write_flush_total [OF law, of "udp_write_actor su"] show ?thesis
    by (auto simp: announce_udp_def)
qed

lemma handle_actor_message_total:
  assumes "try_send_law (wr_try_send env) wa" and "try_send_law (udp_try_send env) ua"
  shows "\<exists>st'. handle_actor_message env msg st = Inr st'"
  using announce_tcp_total [OF assms(1)] announce_udp_total [OF assms(2)]
    write_send_total [OF assms(1)] write_send_total [OF assms(2)]
  by (cases msg) (auto split: option.splits)

lemma new_connection_total:
  assumes "try_send_law (wr_try_send env) wa" and "receiver_open (unbounded_send env)"
    and "peer_addr stream = Inr addr"
    and room: "debug_assertions env \<longrightarrow> uid_val (next_peer_uid st) \<noteq> - 1"
  shows "\<exists>st'. handle_new_tcp_connection env new stream st = Inr st'"
proof -
  obtain next_uid where inc: "peer_uid_increment (debug_assertions env) (next_peer_uid st) = Inr next_uid"
    using increment_total [OF room] by blast
  obtain wh r where "write_send (wr_try_send env) (write_spawn_actor (wr_channel new) (wr_task new))
      (TcpWelcome (new_v4 new)) = Inr (wh, r)"
    using write_send_total [OF assms(1)] by blast
  with assms(3) inc show ?thesis
    by (simp add: handle_new_tcp_connection_def Let_def emit_event_total [OF assms(2)])
qed

lemma drop_peer_total:
  assumes "try_send_law (rd_try_send env) ra" and "try_send_law (wr_try_send env) wa"
    and "receiver_open (unbounded_send env)"
  shows "\<exists>st'. drop_peer env u reason st = Inr st'"
proof (cases "hm_get (peers st) u")
  case (Some p)
  then show ?thesis
    using read_signal_total [OF assms(1), of "tcp_read_actor_handle p"]
      write_signal_total [OF assms(2), of "tcp_write_actor_handle p"] emit_event_total [OF assms(3)]
    by (auto simp: drop_peer_def Let_def)
qed simp

lemma udp_item_total:
  assumes "try_send_law (wr_try_send env) wa" and "try_send_law (udp_try_send env) ua"
    and "receiver_open (unbounded_send env)"
  shows "\<exists>st'. handle_udp_reader_stream_item env msg addr st = Inr st'"
proof (cases "\<exists>uuid u p. msg = UdpHello uuid \<and>
    hm_get (peer_handshake_uuid_to_peer_uid st) uuid = Some u \<and> hm_get (peers st) u = Some p")
  case True
  then obtain uuid u p where found: "msg = UdpHello uuid"
    "hm_get (peer_handshake_uuid_to_peer_uid st) uuid = Some u" "hm_get (peers st) u = Some p" by blast
  obtain wh r where "write_send (wr_try_send env) (tcp_write_actor_handle p) UdpHandshakeAcknowledged =
      Inr (wh, r)"
    using write_send_total [OF assms(1)] by blast
  moreover obtain uh r' where "write_send (udp_try_send env) (udp_write_actor st) (UdpWelcome, addr) =
      Inr (uh, r')"
    using write_send_total [OF assms(2)] by blast
  ultimately show ?thesis using found by simp
next
  case False
  then show ?thesis using emit_event_total [OF assms(3)] by (cases msg) (auto split: option.splits)
qed

lemma tcp_item_total:
  "receiver_open (unbounded_send env) \<Longrightarrow>
   \<exists>st'. handle_tcp_reader_stream_item env msg u st = Inr st'"
  using emit_event_total by (cases msg) auto

section \<open>The shutdown reasons of a connected peer's actors\<close>

text \<open>
  The broker signals a shutdown only to the actors of a peer it has just removed. So nothing
  was ever posted to a connected peer's read actor, and no shutdown to its write actor.
\<close>

definition quiet_peer ::
  "('rtx \<Rightarrow> read_actor_message list) \<Rightarrow> ('wtx \<Rightarrow> 'tfs tcp_from_server write_actor_message list) \<Rightarrow>
   ('rtx, 'wtx) peer \<Rightarrow> bool" where
  "quiet_peer ra wa p \<longleftrightarrow> ra (rd_actor_msg_tx (tcp_read_actor_handle p)) = [] \<and>
     WriteShutdown \<notin> set (wa (wr_actor_msg_tx (tcp_write_actor_handle p)))"

definition handles_quiet ::
  "('rtx \<Rightarrow> read_actor_message list) \<Rightarrow> ('wtx \<Rightarrow> 'tfs tcp_from_server write_actor_message list) \<Rightarrow>
   ('rtx, 'wtx, 'utx, 'etx) server_state \<Rightarrow> bool" where
  "handles_quiet ra wa st \<longleftrightarrow>
     (\<forall>u p. hm_get (peers st) u = Some p \<longrightarrow> quiet_peer ra wa p)"

lemma handles_quietD: "handles_quiet ra wa st \<Longrightarrow> hm_get (peers st) u = Some p \<Longrightarrow> quiet_peer ra wa p"
  by (simp add: handles_quiet_def)

lemma quiet_same: "peers st' = peers st \<Longrightarrow> handles_quiet ra wa st \<Longrightarrow> handles_quiet ra wa st'"
  by (simp add: handles_quiet_def)

lemma quiet_insert:
  "peers st' = hm_insert u q (peers st) \<Longrightarrow> quiet_peer ra wa q \<Longrightarrow> handles_quiet ra wa st \<Longrightarrow>
   handles_quiet ra wa st'"
  by (auto simp: handles_quiet_def)

lemma quiet_remove:
  "peers st' = hm_remove u (peers st) \<Longrightarrow> handles_quiet ra wa st \<Longrightarrow> handles_quiet ra wa st'"
  by (auto simp: handles_quiet_def split: if_splits)

lemma quiet_send:
  assumes "try_send_law ts wa" and "write_send ts (tcp_write_actor_handle p) x = Inr (wh, r)"
    and "quiet_peer ra wa p"
  shows "quiet_peer ra wa (p\<lparr>tcp_write_actor_handle := wh\<rparr>)"
    and "quiet_peer ra wa (p\<lparr>udp_socket_addr := a, tcp_write_actor_handle := wh\<rparr>)"
  using assms(3) wr.post_history [OF assms(1) assms(2) [unfolded write_send_def]]
  by (auto simp: quiet_peer_def)

lemma announce_tcp_quiet:
  assumes law: "try_send_law (wr_try_send env) wa" and run: "announce_tcp env msg st = Inr st'"
    and quiet: "handles_quiet ra wa st"
  shows "handles_quiet ra wa st'"
proof (rule fold_ok_invariant [where P = "handles_quiet ra wa", OF _ run [unfolded announce_tcp_def] quiet])
  fix u s s'
  assume q: "handles_quiet ra wa s" and step: "announce_tcp_to env msg u s = Inr s'"
  show "handles_quiet ra wa s'"
  proof (cases "hm_get (peers s) u")
    case None
    with step q show ?thesis by (simp add: announce_tcp_to_def)
  next
    case (Some p)
    with step obtain wh r where sent: "write_send (wr_try_send env) (tcp_write_actor_handle p)
        (clone_tcp_from_server (clone_tfs env) msg) = Inr (wh, r)"
      and s': "peers s' = hm_insert u (p\<lparr>tcp_write_actor_handle := wh\<rparr>) (peers s)"
      by (auto simp: announce_tcp_to_def)
    from s' quiet_send(1) [OF law sent handles_quietD [OF q Some]] q show ?thesis
      by (rule quiet_insert)
  qed
qed

lemma announce_udp_peers: "announce_udp env msg st = Inr st' \<Longrightarrow> peers st' = peers st"
proof -
  have "peers su = peers st" if "fold_ok (announce_udp_to env msg) us st = Inr su" for us su
    using that
    by (rule fold_ok_invariant [where P = "\<lambda>s. peers s = peers st", rotated])
      (auto simp: announce_udp_to_def split: option.splits)
  then show "announce_udp env msg st = Inr st' \<Longrightarrow> peers st' = peers st"
    by (auto simp: announce_udp_def)
qed

lemma handle_actor_message_quiet:
  assumes law: "try_send_law (wr_try_send env) wa" and run: "handle_actor_message env msg st = Inr st'"
    and quiet: "handles_quiet ra wa st"
  shows "handles_quiet ra wa st'"
proof (cases msg)
  case (ToPeerTcp u m)
  show ?thesis
  proof (cases "hm_get (peers st) u")
    case None
    with run ToPeerTcp quiet show ?thesis by simp
  next
    case (Some p)
    with run ToPeerTcp obtain wh r where sent: "write_send (wr_try_send env) (tcp_write_actor_handle p)
        (TcpFromServerApplicationLogic m) = Inr (wh, r)"
      and st': "peers st' = hm_insert u (p\<lparr>tcp_write_actor_handle := wh\<rparr>) (peers st)"
      by auto
    from st' quiet_send(1) [OF law sent handles_quietD [OF quiet Some]] quiet show ?thesis
      by (rule quiet_insert)
  qed
next
  case (AnnounceTcp m)
  with run quiet show ?thesis by (auto intro: announce_tcp_quiet [OF law])
next
  case (AnnounceUdp m)
  with run quiet show ?thesis by (auto dest!: announce_udp_peers intro: quiet_same)
qed (use run quiet in \<open>auto split: option.splits simp: handles_quiet_def\<close>)

lemma udp_item_quiet:
  assumes law: "try_send_law (wr_try_send env) wa"
    and run: "handle_udp_reader_stream_item env msg addr st = Inr st'" and quiet: "handles_quiet ra wa st"
  shows "handles_quiet ra wa st'"
proof (cases "\<exists>uuid u p. msg = UdpHello uuid \<and>
    hm_get (peer_handshake_uuid_to_peer_uid st) uuid = Some u \<and> hm_get (peers st) u = Some p")
  case True
  then obtain uuid u p where found: "msg = UdpHello uuid"
    "hm_get (peer_handshake_uuid_to_peer_uid st) uuid = Some u" "hm_get (peers st) u = Some p" by blast
  from hello_Inr [OF run [unfolded found(1)] found(2,3)] obtain wh r uh where
    sent: "write_send (wr_try_send env) (tcp_write_actor_handle p) UdpHandshakeAcknowledged = Inr (wh, r)"
    and st': "st' = greeted_state u p addr wh uh st" by blast
  show ?thesis
    by (rule quiet_insert [OF _ quiet_send(2) [OF law sent handles_quietD [OF quiet found(3)]] quiet])
      (simp add: st')
next
  case False
  with run have "peers st' = peers st"
    by (cases msg) (auto simp: emit_event_Inr split: option.splits)
  then show ?thesis using quiet by (rule quiet_same)
qed

lemma tcp_item_quiet:
  "handle_tcp_reader_stream_item env msg u st = Inr st' \<Longrightarrow> handles_quiet ra wa st \<Longrightarrow>
   handles_quiet ra wa st'"
  by (cases msg) (auto simp: emit_event_Inr handles_quiet_def)

lemma drop_peer_quiet:
  assumes "drop_peer env u reason st = Inr st'" and "handles_quiet ra wa st"
  shows "handles_quiet ra wa st'"
proof (cases "hm_get (peers st) u")
  case None
  with assms show ?thesis by simp
next
  case (Some p)
  from drop_peer_Inr [OF assms(1) this] obtain rh wh tx where "st' = left_state u p rh wh tx st" by blast
  then show ?thesis using assms(2) by (intro quiet_remove [of st' u st]) simp_all
qed

section \<open>A benign environment\<close>

text \<open>
  What the environment documents, item by item. New channels are empty. The reason a read actor
  reports is the one of the read actor's loop: \<open>Signalled\<close> only after a shutdown was accepted
  by its mailbox, \<open>ActorHandlesDropped\<close> and \<open>ReceiverClosedChannel\<close> only after the broker let go
  of the handle and the receiver, which it keeps while the peer is connected. The control
  channel and the listener stay open and the UDP actors run.
\<close>

fun read_reason_ok ::
  "('rtx \<Rightarrow> read_actor_message list) \<Rightarrow> ('rtx, 'wtx) peer \<Rightarrow> read_actor_shutdown_reason \<Rightarrow> bool" where
  "read_reason_ok ra p ReadSignalled =
     (ReadShutdown \<in> set (ra (rd_actor_msg_tx (tcp_read_actor_handle p))))"
| "read_reason_ok ra p ReadEndOfStream = True"
| "read_reason_ok ra p ReadActorHandlesDropped = False"
| "read_reason_ok ra p ReceiverClosedChannel = False"

fun write_reason_ok ::
  "('wtx \<Rightarrow> 'tfs tcp_from_server write_actor_message list) \<Rightarrow> ('rtx, 'wtx) peer \<Rightarrow>
   write_actor_shutdown_reason \<Rightarrow> bool" where
  "write_reason_ok wa p WriteSignalled =
     (WriteShutdown \<in> set (wa (wr_actor_msg_tx (tcp_write_actor_handle p))))"
| "write_reason_ok wa p SinkError = True"
| "write_reason_ok wa p WriteActorHandlesDropped = False"

fun eof_ok ::
  "('rtx \<Rightarrow> read_actor_message list) \<Rightarrow> ('wtx \<Rightarrow> 'tfs tcp_from_server write_actor_message list) \<Rightarrow>
   ('rtx, 'wtx, 'utx, 'etx) server_state \<Rightarrow> incoming_kind \<Rightarrow> bool" where
  "eof_ok ra wa st EofActorMessage = False"
| "eof_ok ra wa st EofTcpListener = False"
| "eof_ok ra wa st (EofTcpReader u (Controlled r)) =
     (case hm_get (peers st) u of None \<Rightarrow> True | Some p \<Rightarrow> read_reason_ok ra p r)"
| "eof_ok ra wa st (EofTcpReader u (Erratic e)) = True"
| "eof_ok ra wa st (EofTcpWriter u (Controlled r)) =
     (case hm_get (peers st) u of None \<Rightarrow> True | Some p \<Rightarrow> write_reason_ok wa p r)"
| "eof_ok ra wa st (EofTcpWriter u (Erratic e)) = True"
| "eof_ok ra wa st (EofUdpReader r) = (r = Controlled ReadSignalled)"
| "eof_ok ra wa st (EofUdpWriter r) = (r = Controlled WriteSignalled)"

fun delivery_ok ::
  "('rtx \<Rightarrow> read_actor_message list) \<Rightarrow> ('wtx \<Rightarrow> 'tfs tcp_from_server write_actor_message list) \<Rightarrow>
   ('rtx, 'wtx, 'utx, 'etx) server_state \<Rightarrow>
   ('tts, 'tfs, 'uts, 'ufs) incoming \<times> ('rtx, 'wtx) spawned \<Rightarrow> bool" where
  "delivery_ok ra wa st (TcpListener (Inr stream), new) =
     ((case peer_addr stream of Inl e \<Rightarrow> False | Inr addr \<Rightarrow> True) \<and>
      ra (rd_channel new 8) = [] \<and> wa (wr_channel new 32) = [])"
| "delivery_ok ra wa st (EndOfStream eof, new) = eof_ok ra wa st eof"
| "delivery_ok ra wa st _ = True"

definition benign ::
  "('rtx \<Rightarrow> read_actor_message list) \<Rightarrow> ('wtx \<Rightarrow> 'tfs tcp_from_server write_actor_message list) \<Rightarrow>
   ('rtx, 'wtx, 'utx, 'etx) server_state \<Rightarrow>
   ('tts, 'tfs, 'uts, 'ufs) incoming \<times> ('rtx, 'wtx) spawned \<Rightarrow> bool" where
  "benign ra wa st i \<longleftrightarrow> incoming_ok st i \<and> delivery_ok ra wa st i"

lemma quiet_not_signalled:
  "handles_quiet ra wa st \<Longrightarrow> hm_get (peers st) u = Some p \<Longrightarrow> \<not> read_reason_ok ra p ReadSignalled"
  "handles_quiet ra wa st \<Longrightarrow> hm_get (peers st) u = Some p \<Longrightarrow> \<not> write_reason_ok wa p WriteSignalled"
  by (auto dest!: handles_quietD simp: quiet_peer_def)

lemma quiet_reason:
  assumes "handles_quiet ra wa st" and "hm_get (peers st) u = Some p"
  shows "read_reason_ok ra p r \<Longrightarrow> r = ReadEndOfStream" and "write_reason_ok wa p w \<Longrightarrow> w = SinkError"
proof -
  note silent = quiet_not_signalled [OF assms]
  from silent(1) show "read_reason_ok ra p r \<Longrightarrow> r = ReadEndOfStream" by (cases r) simp_all
  from silent(2) show "write_reason_ok wa p w \<Longrightarrow> w = SinkError" by (cases w) simp_all
qed

lemma new_connection_quiet:
  assumes law: "try_send_law (wr_try_send env) wa"
    and run: "handle_new_tcp_connection env new stream st = Inr st'"
    and ok: "delivery_ok ra wa st (TcpListener (Inr stream), new)" and quiet: "handles_quiet ra wa st"
  shows "handles_quiet ra wa st'"
proof -
  from ok obtain addr where addr: "peer_addr stream = Inr addr" by (auto split: sum.splits)
  show ?thesis
  proof (cases "hm_len (peers st) < max_connections (config st)")
    case False
    with run addr quiet show ?thesis by (simp add: new_connection_rejected)
  next
    case True
    from new_connection_Inr [OF run addr True] obtain wh r next_uid tx where
      sent: "write_send (wr_try_send env) (write_spawn_actor (wr_channel new) (wr_task new))
        (TcpWelcome (new_v4 new)) = Inr (wh, r)"
      and st': "st' = joined_state addr new wh next_uid tx st" by blast
    have "quiet_peer ra wa (joined_peer addr new wh)"
      using ok wr.post_history [OF law sent [unfolded write_send_def]]
      by (auto simp: quiet_peer_def joined_peer_def read_spawn_actor_def read_handle_new_def
          write_spawn_actor_def write_handle_new_def)
    then show ?thesis using quiet by (intro quiet_insert [of st']) (simp_all add: st')
  qed
qed

section \<open>Which items are fatal\<close>

text \<open>
  The items on which a round panics while the broker can report its events: those for which the
  \<open>match\<close> has a \<open>todo!\<close>, \<open>panic!\<close>, \<open>unreachable!\<close>, a failing \<open>expect\<close> or a failing \<open>assert!\<close>, and the
  end of all streams, which is unwrapped.
\<close>

fun fatal_end :: "('rtx, 'wtx, 'utx, 'etx) server_state \<Rightarrow> incoming_kind \<Rightarrow> bool" where
  "fatal_end st EofActorMessage = True"
| "fatal_end st EofTcpListener = True"
| "fatal_end st (EofTcpReader u (Controlled r)) = (r \<noteq> ReadEndOfStream \<and> hm_get (peers st) u \<noteq> None)"
| "fatal_end st (EofTcpReader u (Erratic e)) = False"
| "fatal_end st (EofTcpWriter u (Controlled r)) = (r \<noteq> SinkError \<and> hm_get (peers st) u \<noteq> None)"
| "fatal_end st (EofTcpWriter u (Erratic e)) = False"
| "fatal_end st (EofUdpReader r) = (r \<noteq> Controlled ReadSignalled)"
| "fatal_end st (EofUdpWriter r) = (r \<noteq> Controlled WriteSignalled)"

fun fatal ::
  "('rtx, 'wtx, 'utx, 'etx) server_state \<Rightarrow>
   (('tts, 'tfs, 'uts, 'ufs) incoming \<times> ('rtx, 'wtx) spawned) option \<Rightarrow> bool" where
  "fatal st None = True"
| "fatal st (Some (TcpListener (Inr stream), new)) =
     (case peer_addr stream of Inl e \<Rightarrow> True | Inr addr \<Rightarrow> False)"
| "fatal st (Some (EndOfStream eof, new)) = fatal_end st eof"
| "fatal st (Some _) = False"

lemma end_of_stream_fatal:
  "if fatal_end st eof then \<exists>p. handle_end_of_stream eof st = Inl p
   else \<exists>drops. handle_end_of_stream eof st = Inr (st, drops)"
  by (cases "(eof, st)" rule: handle_end_of_stream.cases)
    (auto simp: assert_not_connected_def assert_that_def keep_def)

lemma keep_total: "\<exists>st'. m = Inr st' \<Longrightarrow> \<exists>r. keep m = Inr r"
  by (auto simp: keep_def)

lemma dispatch_total:
  assumes law: "server_env_law env ra wa ua ea" and opened: "receiver_open (unbounded_send env)"
    and uid: "debug_assertions env \<longrightarrow> incoming_ok st (inc, new)"
    and ok: "\<not> fatal st (Some (inc, new))"
  shows "\<exists>r. server_dispatch env new inc st = Inr r"
proof -
  note laws = server_env_lawD [OF law]
  show ?thesis
  proof (cases "(env, new, inc, st)" rule: server_dispatch.cases)
    case (3 env' new' stream s)
    with ok obtain addr where addr: "peer_addr stream = Inr addr" by (auto split: sum.splits)
    from uid 3 have "debug_assertions env \<longrightarrow> uid_val (next_peer_uid st) \<noteq> - 1"
      by (simp add: connection_ok_def)
    from keep_total [OF new_connection_total [OF laws(2) opened addr this, of new]] 3 show ?thesis by simp
  next
    case (9 env' new' eof s)
    with ok end_of_stream_fatal [of st eof] show ?thesis by auto
  qed (auto intro!: keep_total handle_actor_message_total [OF laws(2,3)] tcp_item_total [OF opened]
      udp_item_total [OF laws(2,3) opened] announce_udp_total [OF laws(3)] split: option.splits)
qed

lemma dispatch_fatal:
  "fatal st (Some (inc, new)) \<Longrightarrow> \<exists>p. server_dispatch env new inc st = Inl p"
proof (cases "(env, new, inc, st)" rule: server_dispatch.cases)
  case (9 env' new' eof s)
  moreover assume "fatal st (Some (inc, new))"
  ultimately show ?thesis using end_of_stream_fatal [of st eof] by simp
qed (auto simp: keep_def handle_new_tcp_connection_def split: sum.splits)

section \<open>The loop\<close>

text \<open>
  The broker can report its events; and, where the checks of debug builds are on, its maps agree.
  An item that is not fatal then keeps it running, and a fatal one panics. \<open>vetted\<close> is what debug
  builds need of the item besides: a release build has no check to fail.
\<close>

definition vetted ::
  "('rtx, 'wtx, 'utx, 'etx, 'tts, 'tfs, 'uts, 'ufs) server_env \<Rightarrow>
   ('rtx, 'wtx, 'utx, 'etx) server_state \<Rightarrow>
   (('tts, 'tfs, 'uts, 'ufs) incoming \<times> ('rtx, 'wtx) spawned) option \<Rightarrow> bool" where
  "vetted env st x \<longleftrightarrow>
     debug_assertions env \<longrightarrow> (case x of None \<Rightarrow> True | Some i \<Rightarrow> incoming_ok st i)"

definition base_inv ::
  "('rtx, 'wtx, 'utx, 'etx, 'tts, 'tfs, 'uts, 'ufs) server_env \<Rightarrow> ('rtx \<Rightarrow> read_actor_message list) \<Rightarrow>
   ('wtx \<Rightarrow> 'tfs tcp_from_server write_actor_message list) \<Rightarrow>
   ('utx \<Rightarrow> ('ufs udp_from_server \<times> socket_addr) write_actor_message list) \<Rightarrow>
   ('etx \<Rightarrow> ('tts, 'uts) server_event list) \<Rightarrow> ('rtx, 'wtx, 'utx, 'etx) server_state \<Rightarrow> bool" where
  "base_inv env ra wa ua ea st \<longleftrightarrow>
     server_env_law env ra wa ua ea \<and> receiver_open (unbounded_send env) \<and>
     (debug_assertions env \<longrightarrow> server_wf st)"

lemma drops_total:
  assumes law: "server_env_law env ra wa ua ea" and opened: "receiver_open (unbounded_send env)"
  shows "\<exists>st'. fold_ok (\<lambda>(u, reason). drop_peer env u reason) drops st = Inr st'"
proof (rule fold_ok_total)
  show "\<exists>s'. (\<lambda>(u, reason). drop_peer env u reason) d s = Inr s'" for d s
    using drop_peer_total [OF server_env_lawD(1,2) [OF law] opened] by (cases d) auto
qed

lemma server_step_total:
  assumes inv: "base_inv env ra wa ua ea st" and vet: "vetted env st (Some i)"
    and ok: "\<not> fatal st (Some i)"
  shows "\<exists>st'. server_step env st i = Running st' \<and> base_inv env ra wa ua ea st'"
proof -
  obtain inc new where i: "i = (inc, new)" by (cases i)
  from inv have law: "server_env_law env ra wa ua ea" and opened: "receiver_open (unbounded_send env)"
    and wf: "debug_assertions env \<longrightarrow> server_wf st" by (simp_all add: base_inv_def)
  from vet i have item: "debug_assertions env \<longrightarrow> incoming_ok st (inc, new)" by (simp add: vetted_def)
  from dispatch_total [OF law opened item] ok i obtain su drops where
    su: "server_dispatch env new inc st = Inr (su, drops)" by (metis surj_pair)
  have "debug_assertions env \<longrightarrow> assert_invariants su = Inr ()"
    using dispatch_wf [OF su] wf item by (auto intro: wf_assert_invariants)
  moreover obtain st' where
    "fold_ok (\<lambda>(u, reason). drop_peer env u reason) drops su = Inr st'"
    using drops_total [OF law opened] by blast
  ultimately have run: "server_step env st i = Running st'"
    unfolding i server_step_Running using su by (auto simp: loop_top_Inr)
  moreover have "debug_assertions env \<longrightarrow> server_wf st'"
    using server_step_wf [OF _ _ run] wf item i by blast
  ultimately show ?thesis using law opened by (simp add: base_inv_def)
qed

lemma server_step_fatal: "fatal st (Some i) \<Longrightarrow> \<exists>p. server_step env st i = Panicked p"
  using dispatch_fatal [of st "fst i" "snd i" env]
  by (auto simp: server_step_def server_round_def split: prod.splits)

text \<open>A whole run: it panics exactly when it is given a fatal item.\<close>

lemma run_panics_iff_fatal:
  assumes "base_inv env ra wa ua ea st" and "admissible (server_next env) (vetted env) st rx"
  shows "if admissible (server_next env) (\<lambda>s x. \<not> fatal s x) st rx
    then \<exists>st'. run_loop (server_next env) st rx = Running st'
    else \<exists>p. run_loop (server_next env) st rx = Panicked p"
  using assms
proof (induction rx arbitrary: st)
  case (Cons x rx)
  show ?case
  proof (cases "fatal st x")
    case True
    then have "\<exists>p. server_next env st x = Panicked p" by (cases x) (simp_all add: server_step_fatal)
    with True show ?thesis by auto
  next
    case False
    then obtain i where x: "x = Some i" by (cases x) auto
    from Cons.prems(2) x have vet: "vetted env st (Some i)" by simp
    from server_step_total [OF Cons.prems(1) vet] False x obtain st' where
      st': "server_step env st i = Running st'" "base_inv env ra wa ua ea st'" by blast
    with Cons.prems(2) x have "admissible (server_next env) (vetted env) st' rx" by simp
    from Cons.IH [OF st'(2) this] st'(1) x False show ?thesis by (simp split: if_splits)
  qed
qed simp

text \<open>
  An environment that delivers only what it documents never delivers a fatal item, because of
  what the broker itself has posted to its peers' actors.
\<close>

lemma delivery_not_fatal:
  assumes "handles_quiet ra wa st" and "delivery_ok ra wa st i"
  shows "\<not> fatal st (Some i)"
proof (cases "(ra, wa, st, i)" rule: delivery_ok.cases)
  case (2 ra' wa' st' eof new)
  with assms show ?thesis
    by (cases "(ra, wa, st, eof)" rule: eof_ok.cases)
      (auto dest: quiet_reason split: option.splits)
qed (use assms in \<open>auto split: sum.splits\<close>)

lemma dispatch_quiet:
  assumes law: "server_env_law env ra wa ua ea" and quiet: "handles_quiet ra wa st"
    and ok: "delivery_ok ra wa st (inc, new)"
    and run: "server_dispatch env new inc st = Inr (st', drops)"
  shows "handles_quiet ra wa st'"
proof -
  note laws = server_env_lawD [OF law]
  show ?thesis
  proof (cases "(env, new, inc, st)" rule: server_dispatch.cases)
    case (3 env' new' stream s)
    with run ok show ?thesis by (auto intro: new_connection_quiet [OF laws(2) _ _ quiet])
  next
    case (9 env' new' eof s)
    with run quiet show ?thesis by (auto dest: end_of_stream_state)
  qed (use run quiet in \<open>auto intro: handle_actor_message_quiet [OF laws(2)] tcp_item_quiet
      udp_item_quiet [OF laws(2)] quiet_same announce_udp_peers split: option.splits\<close>)
qed

text \<open>
  What the environment documents of an item: \<open>orderly\<close>; and what the debug assertions need
  besides. The invariant: the handles are quiet.
\<close>

definition orderly ::
  "('rtx, 'wtx, 'utx, 'etx, 'tts, 'tfs, 'uts, 'ufs) server_env \<Rightarrow>
   ('rtx \<Rightarrow> read_actor_message list) \<Rightarrow> ('wtx \<Rightarrow> 'tfs tcp_from_server write_actor_message list) \<Rightarrow>
   ('rtx, 'wtx, 'utx, 'etx) server_state \<Rightarrow>
   ('tts, 'tfs, 'uts, 'ufs) incoming \<times> ('rtx, 'wtx) spawned \<Rightarrow> bool" where
  "orderly env ra wa st i \<longleftrightarrow>
     delivery_ok ra wa st i \<and> (debug_assertions env \<longrightarrow> incoming_ok st i)"

definition live_inv ::
  "('rtx, 'wtx, 'utx, 'etx, 'tts, 'tfs, 'uts, 'ufs) server_env \<Rightarrow> ('rtx \<Rightarrow> read_actor_message list) \<Rightarrow>
   ('wtx \<Rightarrow> 'tfs tcp_from_server write_actor_message list) \<Rightarrow>
   ('utx \<Rightarrow> ('ufs udp_from_server \<times> socket_addr) write_actor_message list) \<Rightarrow>
   ('etx \<Rightarrow> ('tts, 'uts) server_event list) \<Rightarrow> ('rtx, 'wtx, 'utx, 'etx) server_state \<Rightarrow> bool" where
  "live_inv env ra wa ua ea st \<longleftrightarrow> base_inv env ra wa ua ea st \<and> handles_quiet ra wa st"

lemma orderly_fun:
  "orderly env ra wa = (\<lambda>st i. delivery_ok ra wa st i \<and> (debug_assertions env \<longrightarrow> incoming_ok st i))"
  by (intro ext) (simp add: orderly_def)

lemma server_step_live:
  assumes inv: "live_inv env ra wa ua ea st" and ok: "orderly env ra wa st i"
  shows "\<exists>st'. server_step env st i = Running st' \<and> live_inv env ra wa ua ea st'"
proof -
  from inv have base: "base_inv env ra wa ua ea st" and quiet: "handles_quiet ra wa st"
    by (simp_all add: live_inv_def)
  from ok have del: "delivery_ok ra wa st i" and vet: "vetted env st (Some i)"
    by (simp_all add: orderly_def vetted_def)
  from server_step_total [OF base vet delivery_not_fatal [OF quiet del]] obtain st' where
    run: "server_step env st i = Running st'" and "base_inv env ra wa ua ea st'" by blast
  moreover have "handles_quiet ra wa st'"
  proof -
    obtain inc new where i: "i = (inc, new)" by (cases i)
    with run obtain su drops where su: "server_dispatch env new inc st = Inr (su, drops)"
      and top: "fold_ok (\<lambda>(u, reason). drop_peer env u reason) drops su = Inr st'"
      by (auto simp: server_step_Running loop_top_Inr)
    from base have law: "server_env_law env ra wa ua ea" by (simp add: base_inv_def)
    have "handles_quiet ra wa su" by (rule dispatch_quiet [OF law quiet del [unfolded i] su])
    from fold_ok_invariant [where P = "handles_quiet ra wa", OF _ top this] show ?thesis
      by (auto intro: drop_peer_quiet)
  qed
  ultimately show ?thesis by (auto simp: live_inv_def)
qed

lemma server_step_live_keeps:
  "live_inv env ra wa ua ea st \<Longrightarrow> orderly env ra wa st i \<Longrightarrow> server_step env st i = Running st' \<Longrightarrow>
   live_inv env ra wa ua ea st'"
  using server_step_live [of env ra wa ua ea st i] by auto

lemma server_step_live_not_panics:
  "live_inv env ra wa ua ea st \<Longrightarrow> orderly env ra wa st i \<Longrightarrow> server_step env st i \<noteq> Panicked p"
  using server_step_live [of env ra wa ua ea st i] by auto

interpretation live_server: safe_loop "server_step env" "orderly env ra wa" "live_inv env ra wa ua ea"
  for env ra wa ua ea
  by unfold_locales (rule server_step_live_keeps, assumption+, rule server_step_live_not_panics)

text \<open>With well-formed maps too, whatever the build: what the properties of single operations assume.\<close>

definition safe_inv ::
  "('rtx, 'wtx, 'utx, 'etx, 'tts, 'tfs, 'uts, 'ufs) server_env \<Rightarrow> ('rtx \<Rightarrow> read_actor_message list) \<Rightarrow>
   ('wtx \<Rightarrow> 'tfs tcp_from_server write_actor_message list) \<Rightarrow>
   ('utx \<Rightarrow> ('ufs udp_from_server \<times> socket_addr) write_actor_message list) \<Rightarrow>
   ('etx \<Rightarrow> ('tts, 'uts) server_event list) \<Rightarrow> ('rtx, 'wtx, 'utx, 'etx) server_state \<Rightarrow> bool" where
  "safe_inv env ra wa ua ea st \<longleftrightarrow>
     server_env_law env ra wa ua ea \<and> receiver_open (unbounded_send env) \<and> server_wf st \<and>
     handles_quiet ra wa st"

lemma safe_inv_live: "safe_inv env ra wa ua ea st \<longleftrightarrow> live_inv env ra wa ua ea st \<and> server_wf st"
  by (auto simp: safe_inv_def live_inv_def base_inv_def)

lemma server_step_safe:
  assumes inv: "safe_inv env ra wa ua ea st" and ok: "benign ra wa st i"
  shows "\<exists>st'. server_step env st i = Running st' \<and> safe_inv env ra wa ua ea st'"
proof -
  from ok have "orderly env ra wa st i" by (simp add: benign_def orderly_def)
  with inv server_step_live [of env ra wa ua ea st i] obtain st' where
    run: "server_step env st i = Running st'" and "live_inv env ra wa ua ea st'"
    by (auto simp: safe_inv_live)
  moreover have "server_wf st'"
    using server_step_wf [OF _ _ run] inv ok by (simp add: safe_inv_def benign_def)
  ultimately show ?thesis by (simp add: safe_inv_live)
qed

lemma server_step_safe_keeps:
  "safe_inv env ra wa ua ea st \<Longrightarrow> benign ra wa st i \<Longrightarrow> server_step env st i = Running st' \<Longrightarrow>
   safe_inv env ra wa ua ea st'"
  using server_step_safe [of env ra wa ua ea st i] by auto

lemma server_step_not_panics:
  "safe_inv env ra wa ua ea st \<Longrightarrow> benign ra wa st i \<Longrightarrow> server_step env st i \<noteq> Panicked p"
  using server_step_safe [of env ra wa ua ea st i] by auto

interpretation safe_server: safe_loop "server_step env" "benign ra wa" "safe_inv env ra wa ua ea"
  for env ra wa ua ea
  by unfold_locales (rule server_step_safe_keeps, assumption+, rule server_step_not_panics)

lemma safe_inv_new:
  "server_env_law env ra wa ua ea \<Longrightarrow> receiver_open (unbounded_send env) \<Longrightarrow>
   safe_inv env ra wa ua ea (server_state_new cfg tx rt uc ut)"
  by (simp add: safe_inv_def) (simp add: handles_quiet_def server_state_new_def Let_def)

text \<open>The broker's loop has no exit: it awaits its next item or has panicked.\<close>

lemma server_run_not_finished: "run_loop (server_step env) st is \<noteq> Finished st' r"
  by (induction "is" arbitrary: st) (auto simp: server_step_def split: flow.splits)

lemma live_run_total:
  assumes "admissible (server_step env) (orderly env ra wa) st is" and "live_inv env ra wa ua ea st"
  obtains st' where "run_loop (server_step env) st is = Running st'"
  using live_server.run_never_panics [OF assms] server_run_not_finished
  by (cases "run_loop (server_step env) st is") auto

end
