(* ===== verification/ServerSpec.thy ===== *)
theory ServerSpec
  imports ServerEvents ServerSafety
begin

text \<open>
  The functional behaviour of the broker's handlers: announcements, direct messages, the UDP
  handshake, dropping peers, and garbage from peers.
\<close>

section \<open>The iteration order of the map of peers\<close>

text \<open>A \<open>for\<close> loop over a \<open>HashMap\<close> visits every entry exactly once, in some order.\<close>

definition iter_law :: "(peer_uid list \<Rightarrow> peer_uid list) \<Rightarrow> bool" where
  "iter_law iter \<longleftrightarrow> (\<forall>ks. mset (iter ks) = mset ks)"

lemma iter_law_set: "iter_law iter \<Longrightarrow> set (iter ks) = set ks"
  unfolding iter_law_def by (metis set_mset_mset)

lemma iter_law_distinct: "iter_law iter \<Longrightarrow> distinct ks \<Longrightarrow> distinct (iter ks)"
  unfolding iter_law_def by (metis mset_eq_imp_distinct_iff)

section \<open>Announcements over TCP\<close>

text \<open>What one send does to a peer: only its write handle changes.\<close>

definition sent_to_peer ::
  "('wtx, 'tfs tcp_from_server write_actor_message) try_send \<Rightarrow> 'tfs tcp_from_server \<Rightarrow>
   ('rtx, 'wtx) peer \<Rightarrow> ('rtx, 'wtx) peer \<Rightarrow> bool" where
  "sent_to_peer ts msg p q \<longleftrightarrow>
     (\<exists>wh r. write_send ts (tcp_write_actor_handle p) msg = Inr (wh, r) \<and>
        q = p\<lparr>tcp_write_actor_handle := wh\<rparr>)"

lemma sent_to_peer_history:
  assumes law: "try_send_law ts wa" and sent: "sent_to_peer ts msg p q"
  shows "\<exists>xs. wa (wr_actor_msg_tx (tcp_write_actor_handle q)) =
      wa (wr_actor_msg_tx (tcp_write_actor_handle p)) @ xs \<and> (xs = [] \<or> xs = [Send msg]) \<and>
      (receiver_open ts \<longrightarrow> xs = [Send msg])"
proof -
  from sent obtain wh r where
    post: "write_send_actor_message ts (tcp_write_actor_handle p) (Send msg) = Inr (wh, r)"
    and q: "q = p\<lparr>tcp_write_actor_handle := wh\<rparr>"
    by (auto simp: sent_to_peer_def write_send_def)
  have "r = None" if "receiver_open ts"
    using wr.post_open [OF law that, of "tcp_write_actor_handle p" "Send msg"] post by auto
  with wr.post_history [OF law post] q show ?thesis by auto
qed

lemma announce_tcp_fold:
  assumes "fold_ok (announce_tcp_to env msg) us st = Inr st'" and "distinct us"
  shows "st' = st\<lparr>peers := peers st'\<rparr> \<and>
    (\<forall>u. u \<notin> set us \<longrightarrow> hm_get (peers st') u = hm_get (peers st) u) \<and>
    (\<forall>u \<in> set us. \<forall>p. hm_get (peers st) u = Some p \<longrightarrow>
      (\<exists>q. hm_get (peers st') u = Some q \<and>
         sent_to_peer (wr_try_send env) (clone_tcp_from_server (clone_tfs env) msg) p q))"
  using assms
proof (induction us arbitrary: st)
  case Nil
  then show ?case by simp
next
  case (Cons v us)
  from Cons.prems(1) obtain s where
    first: "announce_tcp_to env msg v st = Inr s" and rest: "fold_ok (announce_tcp_to env msg) us s = Inr st'"
    by auto
  have s: "s = st\<lparr>peers := peers s\<rparr>" "\<And>u. u \<noteq> v \<Longrightarrow> hm_get (peers s) u = hm_get (peers st) u"
    "\<And>p. hm_get (peers st) v = Some p \<Longrightarrow> \<exists>q. hm_get (peers s) v = Some q \<and>
       sent_to_peer (wr_try_send env) (clone_tcp_from_server (clone_tfs env) msg) p q"
    using first by (auto simp: announce_tcp_to_def sent_to_peer_def split: option.splits)
  from Cons.IH [OF rest] Cons.prems(2)
  have IH: "st' = s\<lparr>peers := peers st'\<rparr>" "\<And>u. u \<notin> set us \<Longrightarrow> hm_get (peers st') u = hm_get (peers s) u"
    "\<And>u p. u \<in> set us \<Longrightarrow> hm_get (peers s) u = Some p \<Longrightarrow> \<exists>q. hm_get (peers st') u = Some q \<and>
       sent_to_peer (wr_try_send env) (clone_tcp_from_server (clone_tfs env) msg) p q"
    by auto
  obtain ps ps' where "s = st\<lparr>peers := ps\<rparr>" and "st' = s\<lparr>peers := ps'\<rparr>" using s(1) IH(1) by blast
  then have "st' = st\<lparr>peers := peers st'\<rparr>" by simp
  moreover have "hm_get (peers st') u = hm_get (peers st) u" if "u \<notin> set (v # us)" for u
    using that IH(2) s(2) by simp
  moreover have "\<exists>q. hm_get (peers st') u = Some q \<and>
      sent_to_peer (wr_try_send env) (clone_tcp_from_server (clone_tfs env) msg) p q"
    if "u \<in> set (v # us)" and "hm_get (peers st) u = Some p" for u p
  proof (cases "u = v")
    case True
    with that s(3) IH(2) Cons.prems(2) show ?thesis by auto
  next
    case False
    with that s(2) IH(3) show ?thesis by auto
  qed
  ultimately show ?case by blast
qed

lemma announce_tcp_spec:
  assumes iter: "iter_law (iter_order env)" and wf: "hm_wf (peers st)"
    and run: "announce_tcp env msg st = Inr st'"
  shows "st' = st\<lparr>peers := peers st'\<rparr>"
    and "hm_get (peers st) u = None \<Longrightarrow> hm_get (peers st') u = None"
    and "hm_get (peers st) u = Some p \<Longrightarrow> \<exists>q. hm_get (peers st') u = Some q \<and>
      sent_to_peer (wr_try_send env) (clone_tcp_from_server (clone_tfs env) msg) p q"
proof -
  have "distinct (iter_order env (hm_keys (peers st)))" using iter wf by (simp add: iter_law_distinct)
  note spec = announce_tcp_fold [OF run [unfolded announce_tcp_def] this]
  have keys: "u \<in> set (iter_order env (hm_keys (peers st))) \<longleftrightarrow> hm_get (peers st) u \<noteq> None" for u
    by (simp add: iter_law_set [OF iter] in_hm_keys)
  show "st' = st\<lparr>peers := peers st'\<rparr>" using spec by blast
  show "hm_get (peers st) u = None \<Longrightarrow> hm_get (peers st') u = None" using spec keys by metis
  show "hm_get (peers st) u = Some p \<Longrightarrow> \<exists>q. hm_get (peers st') u = Some q \<and>
      sent_to_peer (wr_try_send env) (clone_tcp_from_server (clone_tfs env) msg) p q"
    using spec keys by (metis option.distinct(1))
qed

section \<open>Announcements over UDP\<close>

text \<open>The mailbox messages an announcement asks for: one feed for each peer.\<close>

definition udp_feeds ::
  "('rtx, 'wtx, 'utx, 'etx, 'tts, 'tfs, 'uts, 'ufs) server_env \<Rightarrow> 'ufs udp_from_server \<Rightarrow>
   (peer_uid, ('rtx, 'wtx) peer) hash_map \<Rightarrow> peer_uid list \<Rightarrow>
   ('ufs udp_from_server \<times> socket_addr) write_actor_message list" where
  "udp_feeds env msg ps us =
     concat (map (\<lambda>u. case hm_get ps u of None \<Rightarrow> []
       | Some p \<Rightarrow> [Feed (clone_udp_from_server (clone_ufs env) msg, tcp_socket_addr p)]) us)"

lemma announce_udp_fold:
  "fold_ok (announce_udp_to env msg) us st =
   and_then (post_each (write_send_actor_message (udp_try_send env)) (udp_feeds env msg (peers st) us)
       (udp_write_actor st)) (\<lambda>uh. Inr (st\<lparr>udp_write_actor := uh\<rparr>))"
proof (induction us arbitrary: st)
  case Nil
  show ?case by (simp add: udp_feeds_def)
next
  case (Cons u us)
  show ?case
  proof (cases "hm_get (peers st) u")
    case None
    then show ?thesis using Cons.IH [of st] by (simp add: announce_udp_to_def udp_feeds_def)
  next
    case (Some p)
    let ?m = "Feed (clone_udp_from_server (clone_ufs env) msg, tcp_socket_addr p)"
    show ?thesis
    proof (cases "write_send_actor_message (udp_try_send env) (udp_write_actor st) ?m")
      case (Inl e)
      then show ?thesis using Some by (simp add: announce_udp_to_def write_feed_def udp_feeds_def)
    next
      case (Inr hr)
      obtain uh r where "hr = (uh, r)" by (cases hr)
      with Inr Some Cons.IH [of "st\<lparr>udp_write_actor := uh\<rparr>"] show ?thesis
        by (simp add: announce_udp_to_def write_feed_def udp_feeds_def)
    qed
  qed
qed

lemma announce_udp_spec:
  assumes law: "try_send_law (udp_try_send env) ua" and run: "announce_udp env msg st = Inr st'"
  shows "st' = st\<lparr>udp_write_actor := udp_write_actor st'\<rparr> \<and>
    (\<exists>xs. subseq xs (udp_feeds env msg (peers st) (iter_order env (hm_keys (peers st))) @ [Flush]) \<and>
      ua (wr_actor_msg_tx (udp_write_actor st')) = ua (wr_actor_msg_tx (udp_write_actor st)) @ xs \<and>
      (receiver_open (udp_try_send env) \<longrightarrow>
         xs = udp_feeds env msg (peers st) (iter_order env (hm_keys (peers st))) @ [Flush]))"
proof -
  let ?ms = "udp_feeds env msg (peers st) (iter_order env (hm_keys (peers st)))"
  from run obtain h uh r where
    feeds: "post_each (write_send_actor_message (udp_try_send env)) ?ms (udp_write_actor st) = Inr h"
    and flush: "write_send_actor_message (udp_try_send env) h Flush = Inr (uh, r)"
    and st': "st' = st\<lparr>udp_write_actor := uh\<rparr>"
    by (auto simp: announce_udp_def announce_udp_fold write_flush_def)
  from wr.post_each_history [OF law, of ?ms "udp_write_actor st"] feeds obtain xs where
    xs: "subseq xs ?ms"
      "ua (wr_actor_msg_tx h) = ua (wr_actor_msg_tx (udp_write_actor st)) @ xs" by auto
  have opened: "xs = ?ms \<and> r = None" if "receiver_open (udp_try_send env)"
    using wr.post_each_open [OF law that, of ?ms "udp_write_actor st"] feeds xs(2)
      wr.post_open [OF law that, of h Flush] flush by auto
  have "subseq (xs @ (if r = None then [Flush] else [])) (?ms @ [Flush])"
    using xs(1) by (intro list_emb_append_mono) auto
  with wr.post_history [OF law flush] xs(2) opened st' show ?thesis by force
qed

lemma udp_feeds_targets:
  "Feed (x, a) \<in> set (udp_feeds env msg ps us) \<Longrightarrow>
   \<exists>u \<in> set us. \<exists>p. hm_get ps u = Some p \<and> a = tcp_socket_addr p"
  by (force simp: udp_feeds_def split: option.splits)

lemma udp_feeds_map:
  "(\<And>u. u \<in> set us \<Longrightarrow> hm_get ps u \<noteq> None) \<Longrightarrow>
   udp_feeds env msg ps us =
     map (\<lambda>u. Feed (clone_udp_from_server (clone_ufs env) msg, tcp_socket_addr (the (hm_get ps u)))) us"
  by (induction us) (fastforce simp: udp_feeds_def)+

text \<open>One feed for each peer visited, then a flush.\<close>

definition udp_round ::
  "(('rtx, 'wtx) peer \<Rightarrow> 'ufs udp_from_server \<times> socket_addr) \<Rightarrow> ('rtx, 'wtx, 'utx, 'etx) server_state \<Rightarrow>
   peer_uid list \<Rightarrow> ('ufs udp_from_server \<times> socket_addr) write_actor_message list" where
  "udp_round datagram st us = map (\<lambda>u. Feed (datagram (the (hm_get (peers st) u)))) us @ [Flush]"

lemma announce_udp_round:
  assumes iter: "iter_law (iter_order env)" and law: "try_send_law (udp_try_send env) ua"
    and run: "announce_udp env msg st = Inr st'"
  shows "st' = st\<lparr>udp_write_actor := udp_write_actor st'\<rparr> \<and>
    (\<exists>us xs. mset us = mset (hm_keys (peers st)) \<and>
      ua (wr_actor_msg_tx (udp_write_actor st')) = ua (wr_actor_msg_tx (udp_write_actor st)) @ xs \<and>
      subseq xs (udp_round (\<lambda>p. (clone_udp_from_server (clone_ufs env) msg, tcp_socket_addr p)) st us) \<and>
      (receiver_open (udp_try_send env) \<longrightarrow>
         xs = udp_round (\<lambda>p. (clone_udp_from_server (clone_ufs env) msg, tcp_socket_addr p)) st us))"
proof -
  let ?us = "iter_order env (hm_keys (peers st))"
  let ?g = "\<lambda>p. (clone_udp_from_server (clone_ufs env) msg, tcp_socket_addr p)"
  have "udp_feeds env msg (peers st) ?us =
      map (\<lambda>u. Feed (clone_udp_from_server (clone_ufs env) msg, tcp_socket_addr (the (hm_get (peers st) u)))) ?us"
    by (rule udp_feeds_map) (simp add: iter_law_set [OF iter] in_hm_keys)
  then have feeds: "udp_feeds env msg (peers st) ?us @ [Flush] = udp_round ?g st ?us"
    by (simp add: udp_round_def)
  have order: "mset ?us = mset (hm_keys (peers st))" using iter by (simp add: iter_law_def)
  from announce_udp_spec [OF law run, unfolded feeds] obtain xs where
    xs: "ua (wr_actor_msg_tx (udp_write_actor st')) = ua (wr_actor_msg_tx (udp_write_actor st)) @ xs \<and>
      subseq xs (udp_round ?g st ?us) \<and> (receiver_open (udp_try_send env) \<longrightarrow> xs = udp_round ?g st ?us)"
    and same: "st' = st\<lparr>udp_write_actor := udp_write_actor st'\<rparr>"
    by (elim conjE exE) (rule that, intro conjI)
  show ?thesis by (rule conjI [OF same], rule exI, rule exI, rule conjI [OF order xs])
qed

section \<open>Messages to one peer\<close>

lemma write_send_history:
  assumes law: "try_send_law ts acc" and sent: "write_send ts h x = Inr (h', r)"
  shows "\<exists>xs. acc (wr_actor_msg_tx h') = acc (wr_actor_msg_tx h) @ xs \<and> xs \<in> {[], [Send x]} \<and>
    (receiver_open ts \<longrightarrow> xs \<noteq> [])"
proof -
  let ?xs = "if r = None then [Send x] else []"
  have "r = None" if "receiver_open ts"
  proof -
    from wr.post_open [OF law that] obtain h2 where "write_send ts h x = Inr (h2, None)"
      unfolding write_send_def by blast
    with sent show ?thesis by simp
  qed
  then have "receiver_open ts \<longrightarrow> ?xs \<noteq> []" by simp
  moreover have "?xs \<in> {[], [Send x]}" by simp
  ultimately show ?thesis using wr.post_history [OF law sent [unfolded write_send_def]] by blast
qed

section \<open>Dropping a peer\<close>

lemma drop_peer_clean:
  assumes wf: "server_wf st" and run: "drop_peer env u reason st = Inr st'"
  shows "hm_get (peers st') u = None"
    and "hm_get (peer_tcp_socket_addr_to_peer_uid st') a \<noteq> Some u"
    and "hm_get (peer_udp_socket_addr_to_peer_uid st') a \<noteq> Some u"
    and "hm_get (peer_handshake_uuid_to_peer_uid st') uuid \<noteq> Some u"
    and "v \<noteq> u \<Longrightarrow> hm_get (peers st') v = hm_get (peers st) v"
proof -
  show gone: "hm_get (peers st') u = None"
    using run by (cases "hm_get (peers st) u") (auto dest: drop_peer_Inr)
  from drop_peer_wf [OF run wf] have "indices_agree st'" by (simp add: server_wf_def)
  then have sound: "index_sound tcp_key (connected st') (hm_get (peer_tcp_socket_addr_to_peer_uid st'))"
    "index_sound udp_key (connected st') (hm_get (peer_udp_socket_addr_to_peer_uid st'))"
    "index_sound uuid_key (connected st') (hm_get (peer_handshake_uuid_to_peer_uid st'))"
    by (simp_all add: indices_agree_def)
  from gone have "connected st' u = None" by simp
  note absent = index_sound_absent [OF sound(1) this] index_sound_absent [OF sound(2) this]
    index_sound_absent [OF sound(3) this]
  show "hm_get (peer_tcp_socket_addr_to_peer_uid st') a \<noteq> Some u"
    and "hm_get (peer_udp_socket_addr_to_peer_uid st') a \<noteq> Some u"
    and "hm_get (peer_handshake_uuid_to_peer_uid st') uuid \<noteq> Some u"
    by (rule absent)+
  show "v \<noteq> u \<Longrightarrow> hm_get (peers st') v = hm_get (peers st) v"
    using run by (cases "hm_get (peers st) u") (auto dest: drop_peer_Inr)
qed

lemma drop_peer_effects:
  assumes law: "server_env_law env ra wa ua ea" and run: "drop_peer env u reason st = Inr st'"
    and p: "hm_get (peers st) u = Some p"
  shows "ea (event_sender st') = ea (event_sender st) @
      [PeerDisconnect \<lparr>disconnected_uid = u, disconnect_reason = reason\<rparr>] \<and>
    (\<exists>q. dropped_peers st' = dropped_peers st @ [(u, q)] \<and>
      (receiver_open (rd_try_send env) \<longrightarrow>
         ra (rd_actor_msg_tx (tcp_read_actor_handle q)) =
         ra (rd_actor_msg_tx (tcp_read_actor_handle p)) @ [ReadShutdown]) \<and>
      (receiver_open (wr_try_send env) \<longrightarrow>
         wa (wr_actor_msg_tx (tcp_write_actor_handle q)) =
         wa (wr_actor_msg_tx (tcp_write_actor_handle p)) @ [WriteShutdown]))"
proof -
  note laws = server_env_lawD [OF law]
  from drop_peer_Inr [OF run p] obtain rh r1 wh r2 tx where
    rd: "read_send_actor_message (rd_try_send env) (tcp_read_actor_handle p) ReadShutdown = Inr (rh, r1)"
    and wr: "write_send_actor_message (wr_try_send env) (tcp_write_actor_handle p) WriteShutdown = Inr (wh, r2)"
    and ev: "unbounded_send env (event_sender st)
      (PeerDisconnect \<lparr>disconnected_uid = u, disconnect_reason = reason\<rparr>) = (tx, None)"
    and st': "st' = left_state u p rh wh tx st"
    by (auto simp: read_signal_shutdown_def write_signal_shutdown_def)
  have "r1 = None" if "receiver_open (rd_try_send env)"
    using rd.post_open [OF laws(1) that, of "tcp_read_actor_handle p" ReadShutdown] rd by auto
  moreover have "r2 = None" if "receiver_open (wr_try_send env)"
    using wr.post_open [OF laws(2) that, of "tcp_write_actor_handle p" WriteShutdown] wr by auto
  ultimately show ?thesis
    using try_send_law_ok [OF laws(4) ev] rd.post_history [OF laws(1) rd] wr.post_history [OF laws(2) wr]
    by (auto simp: st')
qed

text \<open>The same on every branch: whatever the peer's two mailboxes answer, and with the event refused.\<close>

lemma drop_peer_exact:
  assumes law: "server_env_law env ra wa ua ea" and p: "hm_get (peers st) u = Some p"
    and ev: "unbounded_send env (event_sender st)
      (PeerDisconnect \<lparr>disconnected_uid = u, disconnect_reason = reason\<rparr>) = (tx, None)"
  shows "\<exists>rh wh. drop_peer env u reason st = Inr (left_state u p rh wh tx st) \<and>
    ra (rd_actor_msg_tx rh) = ra (rd_actor_msg_tx (tcp_read_actor_handle p)) @
      taken (rd_try_send env) (rd_actor_msg_tx (tcp_read_actor_handle p)) ReadShutdown \<and>
    wa (wr_actor_msg_tx wh) = wa (wr_actor_msg_tx (tcp_write_actor_handle p)) @
      taken (wr_try_send env) (wr_actor_msg_tx (tcp_write_actor_handle p)) WriteShutdown"
proof -
  note laws = server_env_lawD [OF law]
  obtain rh r1 where rd: "read_send_actor_message (rd_try_send env) (tcp_read_actor_handle p) ReadShutdown =
      Inr (rh, r1)"
    using rd.post_total [OF laws(1)] by blast
  obtain wh r2 where wr: "write_send_actor_message (wr_try_send env) (tcp_write_actor_handle p) WriteShutdown =
      Inr (wh, r2)"
    using wr.post_total [OF laws(2)] by blast
  have "drop_peer env u reason st = Inr (left_state u p rh wh tx st)"
    using p ev rd wr
    by (simp add: drop_peer_def Let_def emit_event_def left_state_def read_signal_shutdown_def
        write_signal_shutdown_def split: option.splits)
  with rd.post_taken [OF laws(1) rd] wr.post_taken [OF laws(2) wr] show ?thesis by blast
qed

lemma drop_peer_refused:
  assumes law: "server_env_law env ra wa ua ea" and p: "hm_get (peers st) u = Some p"
    and ev: "unbounded_send env (event_sender st)
      (PeerDisconnect \<lparr>disconnected_uid = u, disconnect_reason = reason\<rparr>) = (tx, Some err)"
  shows "drop_peer env u reason st = Inl Todo"
proof -
  note laws = server_env_lawD [OF law]
  obtain rh r1 wh r2 where "read_signal_shutdown (rd_try_send env) (tcp_read_actor_handle p) = Inr (rh, r1)"
    "write_signal_shutdown (wr_try_send env) (tcp_write_actor_handle p) = Inr (wh, r2)"
    using read_signal_total [OF laws(1)] write_signal_total [OF laws(2)] by blast
  with p ev show ?thesis
    by (simp add: drop_peer_def Let_def emit_event_def split: option.splits)
qed

text \<open>A round that asks for one peer to be dropped.\<close>

definition disconnected_from ::
  "('etx \<Rightarrow> ('tts, 'uts) server_event list) \<Rightarrow> peer_uid \<Rightarrow> disconnect_reason \<Rightarrow>
   ('rtx, 'wtx, 'utx, 'etx) server_state \<Rightarrow> ('rtx, 'wtx, 'utx, 'etx) server_state \<Rightarrow> bool" where
  "disconnected_from ea u reason st st' \<longleftrightarrow>
     (case hm_get (peers st) u of
        None \<Rightarrow> st' = st
      | Some p \<Rightarrow> hm_get (peers st') = (hm_get (peers st))(u := None) \<and>
          ea (event_sender st') = ea (event_sender st) @
            [PeerDisconnect \<lparr>disconnected_uid = u, disconnect_reason = reason\<rparr>])"

lemma drop_peer_disconnects:
  assumes law: "server_env_law env ra wa ua ea" and run: "drop_peer env u reason st = Inr st'"
  shows "disconnected_from ea u reason st st'"
proof (cases "hm_get (peers st) u")
  case None
  with run show ?thesis by (simp add: disconnected_from_def)
next
  case (Some p)
  from drop_peer_Inr [OF run Some] have "hm_get (peers st') = (hm_get (peers st))(u := None)" by auto
  with drop_peer_effects [OF law run Some] Some show ?thesis by (simp add: disconnected_from_def)
qed

lemma disconnect_step:
  assumes inv: "safe_inv env ra wa ua ea st"
    and disp: "server_dispatch env new inc st = Inr (st, [(u, reason)])"
  obtains st' where "server_step env st (inc, new) = Running st'" and "safe_inv env ra wa ua ea st'"
    and "disconnected_from ea u reason st st'"
proof -
  from inv have law: "server_env_law env ra wa ua ea" and opened: "receiver_open (unbounded_send env)"
    and wf: "server_wf st" and quiet: "handles_quiet ra wa st" by (simp_all add: safe_inv_def)
  obtain st' where drop: "drop_peer env u reason st = Inr st'"
    using drop_peer_total [OF server_env_lawD(1,2) [OF law] opened] by blast
  have "server_step env st (inc, new) = Running st'"
    unfolding server_step_Running using disp drop wf_assert_invariants [OF wf]
    by (simp add: loop_top_Inr)
  moreover have "safe_inv env ra wa ua ea st'"
    using law opened drop_peer_wf [OF drop wf] drop_peer_quiet [OF drop quiet] by (simp add: safe_inv_def)
  ultimately show ?thesis using drop_peer_disconnects [OF law drop] by (rule that)
qed

section \<open>A second Hello from another address\<close>

text \<open>
  A peer that already has a UDP address and greets again from a different, unused one keeps its
  old entry in the reverse index.
\<close>

lemma rehello_state:
  assumes "try_send_law (wr_try_send env) wa" and "try_send_law (udp_try_send env) ua"
    and "hm_get (peer_handshake_uuid_to_peer_uid st) uuid = Some u" and "hm_get (peers st) u = Some p"
  shows "\<exists>wh uh. handle_udp_reader_stream_item env (UdpHello uuid) addr st =
    Inr (greeted_state u p addr wh uh st)"
proof -
  obtain wh r where "write_send (wr_try_send env) (tcp_write_actor_handle p) UdpHandshakeAcknowledged =
      Inr (wh, r)"
    using write_send_total [OF assms(1)] by blast
  moreover obtain uh r' where "write_send (udp_try_send env) (udp_write_actor st) (UdpWelcome, addr) =
      Inr (uh, r')"
    using write_send_total [OF assms(2)] by blast
  ultimately show ?thesis using assms(3,4) by (auto simp: greeted_state_def)
qed

text \<open>A Hello that finds its peer posts two messages, of which each mailbox takes its own or not.\<close>

lemma hello_exact:
  assumes wlaw: "try_send_law (wr_try_send env) wa" and ulaw: "try_send_law (udp_try_send env) ua"
    and known: "hm_get (peer_handshake_uuid_to_peer_uid st) uuid = Some u" and p: "hm_get (peers st) u = Some p"
  shows "\<exists>wh uh. handle_udp_reader_stream_item env (UdpHello uuid) addr st =
      Inr (greeted_state u p addr wh uh st) \<and>
    wa (wr_actor_msg_tx wh) = wa (wr_actor_msg_tx (tcp_write_actor_handle p)) @
      taken (wr_try_send env) (wr_actor_msg_tx (tcp_write_actor_handle p)) (Send UdpHandshakeAcknowledged) \<and>
    ua (wr_actor_msg_tx uh) = ua (wr_actor_msg_tx (udp_write_actor st)) @
      taken (udp_try_send env) (wr_actor_msg_tx (udp_write_actor st)) (Send (UdpWelcome, addr))"
proof -
  from rehello_state [OF wlaw ulaw known p, of addr] obtain wh0 uh0 where
    run: "handle_udp_reader_stream_item env (UdpHello uuid) addr st = Inr (greeted_state u p addr wh0 uh0 st)"
    by blast
  from hello_Inr [OF run known p] obtain wh r1 uh r2 where
    w: "write_send (wr_try_send env) (tcp_write_actor_handle p) UdpHandshakeAcknowledged = Inr (wh, r1)"
    and u: "write_send (udp_try_send env) (udp_write_actor st) (UdpWelcome, addr) = Inr (uh, r2)"
    and eq: "greeted_state u p addr wh0 uh0 st = greeted_state u p addr wh uh st" by blast
  from run eq wr.post_taken [OF wlaw w [unfolded write_send_def]]
    wr.post_taken [OF ulaw u [unfolded write_send_def]] show ?thesis by auto
qed

text \<open>With both mailboxes open, each takes it.\<close>

lemma hello_posts:
  assumes wlaw: "try_send_law (wr_try_send env) wa" and wopen: "receiver_open (wr_try_send env)"
    and ulaw: "try_send_law (udp_try_send env) ua" and uopen: "receiver_open (udp_try_send env)"
    and known: "hm_get (peer_handshake_uuid_to_peer_uid st) uuid = Some u" and p: "hm_get (peers st) u = Some p"
  shows "\<exists>wh uh. handle_udp_reader_stream_item env (UdpHello uuid) addr st =
      Inr (greeted_state u p addr wh uh st) \<and>
    wa (wr_actor_msg_tx wh) =
      wa (wr_actor_msg_tx (tcp_write_actor_handle p)) @ [Send UdpHandshakeAcknowledged] \<and>
    ua (wr_actor_msg_tx uh) = ua (wr_actor_msg_tx (udp_write_actor st)) @ [Send (UdpWelcome, addr)]"
  using hello_exact [OF wlaw ulaw known p, of addr] wopen uopen by simp

text \<open>
  The index of UDP addresses is as large as the map of peers exactly when every connected peer is
  found through it.
\<close>

lemma udp_index_full:
  assumes wf: "server_wf st"
  shows "hm_len (peer_udp_socket_addr_to_peer_uid st) = hm_len (peers st) \<longleftrightarrow>
    dom (hm_get (peers st)) \<subseteq> ran (hm_get (peer_udp_socket_addr_to_peer_uid st))"
proof -
  let ?ix = "hm_get (peer_udp_socket_addr_to_peer_uid st)"
  from wf have sound: "index_sound udp_key (connected st) ?ix"
    by (simp add: server_wf_def indices_agree_def)
  have inj: "inj_on ?ix (dom ?ix)"
  proof (rule inj_onI)
    fix a b assume "a \<in> dom ?ix" "b \<in> dom ?ix" "?ix a = ?ix b"
    then obtain u where "?ix a = Some u" "?ix b = Some u" by auto
    with index_soundD [OF sound, of a u] index_soundD [OF sound, of b u] show "a = b" by auto
  qed
  have ran: "Some ` ran ?ix = ?ix ` dom ?ix" by (auto simp: ran_def image_iff dom_def) metis
  have "card (ran ?ix) = card (Some ` ran ?ix)" by (simp add: card_image)
  also have "\<dots> = card (dom ?ix)" unfolding ran by (rule card_image [OF inj])
  finally have size: "card (dom ?ix) = card (ran ?ix)" by simp
  have sub: "ran ?ix \<subseteq> dom (hm_get (peers st))"
    using index_soundD [OF sound] by (fastforce simp: ran_def connected_Some)
  have fin: "finite (dom (hm_get (peers st)))" by (simp add: hm_get_def finite_dom_map_of)
  from wf have len: "hm_len (peers st) = card (dom (hm_get (peers st)))"
    "hm_len (peer_udp_socket_addr_to_peer_uid st) = card (dom ?ix)"
    by (simp_all add: server_wf_def maps_wf_def hm_len_card)
  show ?thesis
    unfolding len size using card_subset_eq [OF fin sub] sub by auto
qed

text \<open>A Hello that finds its peer fails the check of debug builds exactly when it makes that index too large.\<close>

lemma greeted_assertions:
  assumes wf: "server_wf st" and p: "hm_get (peers st) u = Some p"
  shows "assert_invariants (greeted_state u p addr wh uh st) =
    (if hm_get (peer_udp_socket_addr_to_peer_uid st) addr = None \<and>
        hm_len (peer_udp_socket_addr_to_peer_uid st) = hm_len (peers st)
     then Inl AssertFailed else Inr ())"
proof -
  have udp: "hm_wf (peer_udp_socket_addr_to_peer_uid st)" and "hm_wf (peers st)"
    using wf by (simp_all add: server_wf_def maps_wf_def)
  then have "hm_len (hm_insert u q (peers st)) = hm_len (peers st)" for q
    using p by (simp add: hm.len_put_same)
  moreover have "hm_len (hm_insert addr u (peer_udp_socket_addr_to_peer_uid st)) =
      hm_len (peer_udp_socket_addr_to_peer_uid st) +
      (if hm_get (peer_udp_socket_addr_to_peer_uid st) addr = None then 1 else 0)"
    using hm.len_put_fresh [OF udp, of addr u] hm.len_put_same [OF udp, of addr _ u]
    by (cases "hm_get (peer_udp_socket_addr_to_peer_uid st) addr") simp_all
  ultimately show ?thesis
    using wf_len [OF wf] by (auto simp: assert_invariants_def)
qed

lemma rehello_then_drop:
  assumes "hm_get (peer_udp_socket_addr_to_peer_uid st) old = Some u" and "old \<noteq> addr"
    and "drop_peer env u reason (greeted_state u p addr wh uh st) = Inr st'"
  shows "hm_get (peers st') u = None" and "hm_get (peer_udp_socket_addr_to_peer_uid st') old = Some u"
proof -
  have "hm_get (peers (greeted_state u p addr wh uh st)) u =
      Some (p\<lparr>udp_socket_addr := Some addr, tcp_write_actor_handle := wh\<rparr>)" by simp
  from drop_peer_Inr [OF assms(3) this] assms(1,2)
  show "hm_get (peers st') u = None" and "hm_get (peer_udp_socket_addr_to_peer_uid st') old = Some u"
    by auto
qed

section \<open>Messages to one peer\<close>

lemma message_peer_udp:
  assumes law: "try_send_law (udp_try_send env) ua"
    and run: "handle_actor_message env (ToPeerUdp u msg) st = Inr st'"
  shows "case hm_get (peers st) u of
      Some p \<Rightarrow> (case udp_socket_addr p of
          Some addr \<Rightarrow> st' = st\<lparr>udp_write_actor := udp_write_actor st'\<rparr> \<and>
            (\<exists>xs. ua (wr_actor_msg_tx (udp_write_actor st')) = ua (wr_actor_msg_tx (udp_write_actor st)) @ xs \<and>
               xs \<in> {[], [Send (UdpFromServerApplicationLogic msg, addr)]} \<and>
               (receiver_open (udp_try_send env) \<longrightarrow> xs \<noteq> []))
        | None \<Rightarrow> st' = st)
    | None \<Rightarrow> st' = st"
proof (cases "\<exists>p addr. hm_get (peers st) u = Some p \<and> udp_socket_addr p = Some addr")
  case True
  then obtain p addr where found: "hm_get (peers st) u = Some p" "udp_socket_addr p = Some addr" by blast
  with run obtain uh r where
    sent: "write_send (udp_try_send env) (udp_write_actor st) (UdpFromServerApplicationLogic msg, addr) = Inr (uh, r)"
    and st': "st' = st\<lparr>udp_write_actor := uh\<rparr>" by auto
  from write_send_history [OF law sent] st' found show ?thesis by auto
next
  case False
  with run show ?thesis by (auto split: option.splits)
qed

lemma message_peer_tcp:
  assumes law: "try_send_law (wr_try_send env) wa"
    and run: "handle_actor_message env (ToPeerTcp u msg) st = Inr st'"
  shows "case hm_get (peers st) u of
      Some p \<Rightarrow> \<exists>q xs. st' = st\<lparr>peers := peers st'\<rparr> \<and> hm_get (peers st') = (hm_get (peers st))(u \<mapsto> q) \<and>
        q = p\<lparr>tcp_write_actor_handle := tcp_write_actor_handle q\<rparr> \<and>
        wa (wr_actor_msg_tx (tcp_write_actor_handle q)) =
          wa (wr_actor_msg_tx (tcp_write_actor_handle p)) @ xs \<and>
        xs \<in> {[], [Send (TcpFromServerApplicationLogic msg)]} \<and>
        (receiver_open (wr_try_send env) \<longrightarrow> xs \<noteq> [])
    | None \<Rightarrow> st' = st"
proof (cases "hm_get (peers st) u")
  case None
  with run show ?thesis by simp
next
  case (Some p)
  with run obtain wh r where
    sent: "write_send (wr_try_send env) (tcp_write_actor_handle p) (TcpFromServerApplicationLogic msg) = Inr (wh, r)"
    and st': "st' = st\<lparr>peers := hm_insert u (p\<lparr>tcp_write_actor_handle := wh\<rparr>) (peers st)\<rparr>" by auto
  let ?q = "p\<lparr>tcp_write_actor_handle := wh\<rparr>"
  have "st' = st\<lparr>peers := peers st'\<rparr>" "hm_get (peers st') = (hm_get (peers st))(u \<mapsto> ?q)"
    "?q = p\<lparr>tcp_write_actor_handle := tcp_write_actor_handle ?q\<rparr>" by (simp_all add: st')
  with write_send_history [OF law sent] Some show ?thesis by fastforce
qed


section \<open>An application that is gone\<close>

text \<open>Without the application's event receiver no event can be sent, and every attempt panics.\<close>

definition receiver_gone :: "('tx, 'm) try_send \<Rightarrow> bool" where
  "receiver_gone ts \<longleftrightarrow> (\<forall>tx m. snd (ts tx m) \<noteq> None)"

lemma receiver_goneD [simp]: "receiver_gone ts \<Longrightarrow> ts tx m \<noteq> (tx', None)"
  unfolding receiver_gone_def by (metis snd_conv)

lemma emit_event_gone [simp]:
  "receiver_gone (unbounded_send env) \<Longrightarrow> emit_event env ev st = Inl Todo"
  by (simp add: emit_event_def split: prod.splits option.splits)

text \<open>What a round may then still do: nothing that has to be reported.\<close>

definition unreported ::
  "('rtx, 'wtx, 'utx, 'etx) server_state \<Rightarrow> ('rtx, 'wtx, 'utx, 'etx) server_state \<Rightarrow> bool" where
  "unreported st st' \<longleftrightarrow>
     dom (hm_get (peers st')) = dom (hm_get (peers st)) \<and> next_peer_uid st' = next_peer_uid st"

lemma unreported_refl [simp]: "unreported st st"
  by (simp add: unreported_def)

lemma unreported_shape: "same_shape st st' \<Longrightarrow> unreported st st'"
  by (simp add: unreported_def same_shape_def dom_connected [symmetric])

lemma drop_peer_unreported:
  assumes "receiver_gone (unbounded_send env)" and "drop_peer env u reason st = Inr st'"
  shows "st' = st"
proof (cases "hm_get (peers st) u")
  case (Some p)
  from drop_peer_Inr [OF assms(2) Some] assms(1) show ?thesis by simp
qed (use assms(2) in simp)

lemma dispatch_unreported:
  assumes gone: "receiver_gone (unbounded_send env)"
    and run: "server_dispatch env new inc st = Inr (st', drops)"
  shows "unreported st st'"
proof (cases "(env, new, inc, st)" rule: server_dispatch.cases)
  case (1 env' new' msg s)
  with run show ?thesis by (auto intro: unreported_shape handle_actor_message_shape)
next
  case (3 env' new' stream s)
  with run have hand: "handle_new_tcp_connection env new stream st = Inr st'" by simp
  show ?thesis
  proof (cases "peer_addr stream")
    case (Inl e)
    with hand show ?thesis by (simp add: handle_new_tcp_connection_def)
  next
    case (Inr addr)
    with hand new_connection_Inr [OF hand Inr] gone show ?thesis
      by (cases "hm_len (peers st) < max_connections (config st)")
        (auto simp: new_connection_rejected)
  qed
next
  case (4 env' new' msg u s)
  with run gone show ?thesis by (cases msg) auto
next
  case (6 env' new' msg addr s)
  with run gone show ?thesis
    by (cases msg) (auto simp: unreported_def split: option.splits if_splits)
next
  case (8 env' new' s)
  with run show ?thesis by (auto intro: unreported_shape announce_udp_shape)
next
  case (9 env' new' eof s)
  with run show ?thesis by (auto dest: end_of_stream_state)
qed (use run in \<open>auto split: option.splits\<close>)

lemma server_step_unreported:
  assumes gone: "receiver_gone (unbounded_send env)" and run: "server_step env st i = Running st'"
  shows "unreported st st'"
proof -
  obtain inc new where i: "i = (inc, new)" by (cases i)
  with run obtain su drops where su: "server_dispatch env new inc st = Inr (su, drops)"
    and top: "fold_ok (\<lambda>(u, reason). drop_peer env u reason) drops su = Inr st'"
    by (auto simp: server_step_Running loop_top_Inr)
  from fold_ok_invariant [where P = "\<lambda>s. s = su", OF _ top refl] have "st' = su"
    by (auto dest: drop_peer_unreported [OF gone])
  with dispatch_unreported [OF gone su] show ?thesis by simp
qed

lemma run_unreported:
  assumes gone: "receiver_gone (unbounded_send env)"
  shows "run_loop (server_step env) st is = Running st' \<Longrightarrow> unreported st st'"
proof (induction "is" arbitrary: st)
  case (Cons i "is")
  then obtain s where "server_step env st i = Running s" "run_loop (server_step env) s is = Running st'"
    by (auto split: flow.splits)
  with Cons.IH [of s] server_step_unreported [OF gone] show ?case by (fastforce simp: unreported_def)
qed simp

text \<open>No run gets past the end of the handles' channel or of the listener.\<close>

lemma server_step_lost:
  "eof \<in> {EofActorMessage, EofTcpListener} \<Longrightarrow>
   server_step env st (EndOfStream eof, new) = Panicked Todo"
  by (auto simp: server_step_def server_round_def)

lemma run_lost:
  assumes "(EndOfStream eof, new) \<in> set is" and "eof \<in> {EofActorMessage, EofTcpListener}"
  shows "\<exists>p. run_loop (server_step env) st is = Panicked p"
  using assms(1)
proof (induction "is" arbitrary: st)
  case (Cons i "is")
  show ?case
  proof (cases "server_step env st i")
    case (Running s)
    with server_step_lost [OF assms(2), of env st new] have "i \<noteq> (EndOfStream eof, new)" by auto
    with Cons.prems have "(EndOfStream eof, new) \<in> set is" by simp
    from Cons.IH [OF this, of s] Running show ?thesis by simp
  next
    case (Finished s r)
    then show ?thesis by (simp add: server_step_def)
  qed simp
qed simp

end
