(* ===== verification/ServerHandle.thy ===== *)
theory ServerHandle
  imports ServerSpec
begin

text \<open>
  The handle to the broker (\<open>src/src/server/actor_handle.rs\<close>) and \<open>start\<close>
  (\<open>src/src/server.rs\<close>).
\<close>

section \<open>The handle\<close>

record 'mtx server_handle =
  server_sender :: 'mtx
  server_join_handle :: task_id

definition server_handle_new :: "task_id \<Rightarrow> 'mtx \<Rightarrow> 'mtx server_handle" where
  "server_handle_new join_handle sender =
     \<lparr>server_sender = sender, server_join_handle = join_handle\<rparr>"

text \<open>\<open>self.sender.unbounded_send(msg).expect("Actor is not accepting any new messages")\<close>\<close>

definition server_post ::
  "('mtx, ('tfs, 'ufs) server_message) try_send \<Rightarrow> 'mtx server_handle \<Rightarrow> ('tfs, 'ufs) server_message \<Rightarrow>
   panic + 'mtx server_handle" where
  "server_post try_send h msg =
     (case try_send (server_sender h) msg of
        (tx, None) \<Rightarrow> Inr (h\<lparr>server_sender := tx\<rparr>)
      | (tx, Some err) \<Rightarrow> Inl (Expect ''Actor is not accepting any new messages''))"

definition message_peer_tcp ::
  "('mtx, ('tfs, 'ufs) server_message) try_send \<Rightarrow> 'mtx server_handle \<Rightarrow> peer_uid \<Rightarrow> 'tfs \<Rightarrow>
   panic + 'mtx server_handle" where
  "message_peer_tcp try_send h peer_uid msg = server_post try_send h (ToPeerTcp peer_uid msg)"

definition message_peer_udp ::
  "('mtx, ('tfs, 'ufs) server_message) try_send \<Rightarrow> 'mtx server_handle \<Rightarrow> peer_uid \<Rightarrow> 'ufs \<Rightarrow>
   panic + 'mtx server_handle" where
  "message_peer_udp try_send h peer_uid msg = server_post try_send h (ToPeerUdp peer_uid msg)"

definition handle_announce_tcp ::
  "('mtx, ('tfs, 'ufs) server_message) try_send \<Rightarrow> 'mtx server_handle \<Rightarrow> 'tfs \<Rightarrow>
   panic + 'mtx server_handle" where
  "handle_announce_tcp try_send h msg = server_post try_send h (AnnounceTcp msg)"

definition handle_announce_udp ::
  "('mtx, ('tfs, 'ufs) server_message) try_send \<Rightarrow> 'mtx server_handle \<Rightarrow> 'ufs \<Rightarrow>
   panic + 'mtx server_handle" where
  "handle_announce_udp try_send h msg = server_post try_send h (AnnounceUdp msg)"

text \<open>
  \<open>tx\<close> is the \<open>oneshot\<close> channel drawn for the call; \<open>await tx\<close> is the reply that arrives on it,
  \<open>None\<close> when its sender is dropped without one.
\<close>

definition get_number_of_connected_peers ::
  "('mtx, ('tfs, 'ufs) server_message) try_send \<Rightarrow> (reply_channel \<Rightarrow> nat option) \<Rightarrow>
   reply_channel \<Rightarrow> 'mtx server_handle \<Rightarrow> panic + 'mtx server_handle \<times> nat" where
  "get_number_of_connected_peers try_send await tx h =
     and_then (server_post try_send h (GetNumberOfConnectedPeers tx)) (\<lambda>h.
       case await tx of
         None \<Rightarrow> Inl (Expect ''Expected response from actor'')
       | Some n \<Rightarrow> Inr (h, n))"

section \<open>Starting\<close>

datatype start_server_error = StartIo io_error

record ('listener, 'udp) bind_calls =
  tcp_listener_bind :: "socket_addr \<Rightarrow> io_error + 'listener"
  udp_socket_bind :: "socket_addr \<Rightarrow> io_error + 'udp"

text \<open>
  \<open>start\<close>: bind, then hand the sockets and the channel ends to the spawned task \<open>join_handle\<close>
  and return the handle. What the task does is \<open>server_actor\<close>.
\<close>

definition server_start ::
  "('listener, 'udp) bind_calls \<Rightarrow> task_id \<Rightarrow> 'mtx \<Rightarrow> socket_addr \<Rightarrow> socket_addr \<Rightarrow>
   start_server_error + 'mtx server_handle \<times> 'listener \<times> 'udp" where
  "server_start net join_handle actor_msg_sender tcp_addr udp_addr =
     (case tcp_listener_bind net tcp_addr of
        Inl e \<Rightarrow> Inl (StartIo e)
      | Inr tcp_listener \<Rightarrow>
          (case udp_socket_bind net udp_addr of
             Inl e \<Rightarrow> Inl (StartIo e)
           | Inr udp_socket \<Rightarrow>
               Inr (server_handle_new join_handle actor_msg_sender, tcp_listener, udp_socket)))"

section \<open>Behaviour\<close>

lemma server_post_Inr:
  "server_post ts h m = Inr h' \<longleftrightarrow>
   (\<exists>tx. ts (server_sender h) m = (tx, None) \<and> h' = h\<lparr>server_sender := tx\<rparr>)"
  by (auto simp: server_post_def split: prod.splits option.splits)

lemma server_post_history:
  assumes "try_send_law ts acc" and "server_post ts h m = Inr h'"
  shows "acc (server_sender h') = acc (server_sender h) @ [m]"
  using assms by (auto simp: server_post_Inr dest: channel_laws)

lemma server_post_open:
  assumes "receiver_open ts"
  obtains h' where "server_post ts h m = Inr h'"
  using receiver_openD [OF assms] by (cases "ts (server_sender h) m") (fastforce simp: server_post_def)

text \<open>Running a batch of commands given to a handle.\<close>

lemma post_all_history:
  assumes law: "try_send_law ts acc" and run: "fold_ok (\<lambda>m h. server_post ts h m) ms h = Inr h'"
  shows "acc (server_sender h') = acc (server_sender h) @ ms"
  using run
proof (induction ms arbitrary: h)
  case (Cons m ms)
  then obtain h1 where "server_post ts h m = Inr h1"
    and "fold_ok (\<lambda>m h. server_post ts h m) ms h1 = Inr h'" by auto
  with Cons.IH [of h1] server_post_history [OF law] show ?case by simp
qed simp

end
