(* ===== verification/Chat.thy ===== *)
theory Chat
  imports ServerHandle
begin

text \<open>
  The chat server of \<open>src/examples/tcp-chat/main.rs\<close>, the application the repository runs on
  the library: it consumes the server's events and commands the server through its handle.
\<close>

section \<open>Data\<close>

datatype from_peer_to_server = PeerSays string

record user =
  user_name :: string

record chat_message =
  said_by :: user
  said_text :: string

record welcome_message =
  your_name :: string
  welcome_users :: "user list"
  latest_messages :: "chat_message list"

datatype from_server_to_peer =
    ChatWelcome welcome_message
  | UserConnect user
  | UserDisconnect user
  | NewMessage chat_message

record chat_state =
  connected_users :: "(peer_uid, user) hash_map"
  chat_messages :: "chat_message list"
  user_counter :: nat

definition chat_state_default :: chat_state where
  "chat_state_default = \<lparr>connected_users = hm_empty, chat_messages = [], user_counter = 0\<rparr>"

section \<open>User names\<close>

text \<open>\<open>format!("User {}", n)\<close>: a natural number in decimal.\<close>

definition decimal_digit :: "nat \<Rightarrow> char" where
  "decimal_digit d = char_of (48 + d)"

fun decimal :: "nat \<Rightarrow> string" where
  "decimal n = (if n < 10 then [decimal_digit n] else decimal (n div 10) @ [decimal_digit (n mod 10)])"


declare decimal.simps [simp del]

definition user_label :: "nat \<Rightarrow> string" where
  "user_label n = ''User '' @ decimal n"

definition digit_value :: "char \<Rightarrow> nat" where
  "digit_value c = of_char c - 48"

definition read_decimal :: "string \<Rightarrow> nat" where
  "read_decimal s = foldl (\<lambda>n c. 10 * n + digit_value c) 0 s"

lemma digit_value_digit: "d < 10 \<Longrightarrow> digit_value (decimal_digit d) = d"
  unfolding digit_value_def decimal_digit_def of_char_of by simp

lemma read_decimal_decimal: "read_decimal (decimal n) = n"
proof (induction n rule: decimal.induct)
  case (1 n)
  show ?case
  proof (cases "n < 10")
    case True
    then have "decimal n = [decimal_digit n]" by (subst decimal.simps) simp
    with True show ?thesis by (simp add: read_decimal_def digit_value_digit)
  next
    case False
    with 1 have IH: "read_decimal (decimal (n div 10)) = n div 10" by simp
    have "decimal n = decimal (n div 10) @ [decimal_digit (n mod 10)]"
      using False by (subst decimal.simps) simp
    with IH show ?thesis by (simp add: read_decimal_def digit_value_digit)
  qed
qed

lemma user_label_inject [simp]: "user_label m = user_label n \<longleftrightarrow> m = n"
proof
  assume "user_label m = user_label n"
  then have "read_decimal (decimal m) = read_decimal (decimal n)" by (simp only: user_label_def append_same_eq same_append_eq)
  then show "m = n" by (simp only: read_decimal_decimal)
qed simp

section \<open>The server loop\<close>

record ('mtx) chat_task =
  chat_state :: chat_state
  chat_handle :: "'mtx server_handle"

text \<open>
  \<open>values_order\<close> is the iteration order of the map of users; \<open>send\<close> the handle's channel.
\<close>

record ('mtx) chat_env =
  chat_send :: "('mtx, (from_server_to_peer, unit) server_message) try_send"
  values_order :: "peer_uid list \<Rightarrow> peer_uid list"

definition user_values :: "(peer_uid list \<Rightarrow> peer_uid list) \<Rightarrow> (peer_uid, user) hash_map \<Rightarrow> user list" where
  "user_values order m = List.map_filter (hm_get m) (order (hm_keys m))"

text \<open>\<open>while state.messages.len() > 10 { state.messages.pop_front(); }\<close>\<close>

function pop_front_over :: "nat \<Rightarrow> 'a list \<Rightarrow> 'a list" where
  "pop_front_over n xs = (if n < length xs then pop_front_over n (tl xs) else xs)"
  by pat_completeness auto

termination by (relation "measure (\<lambda>(n, xs). length xs)") auto

declare pop_front_over.simps [simp del]

fun chat_event ::
  "'mtx chat_env \<Rightarrow> (from_peer_to_server, unit) server_event \<Rightarrow> 'mtx chat_task \<Rightarrow> panic + 'mtx chat_task" where
  "chat_event env (NewPeer new_peer) task =
     (let st = chat_state task;
          st = st\<lparr>user_counter := user_counter st + 1\<rparr>;
          name = user_label (user_counter st);
          user = \<lparr>user_name = name\<rparr>;
          st = st\<lparr>connected_users := hm_insert (new_peer_uid new_peer) user (connected_users st)\<rparr>;
          welcome_msg = ChatWelcome
            \<lparr>your_name = name, welcome_users = user_values (values_order env) (connected_users st),
             latest_messages = chat_messages st\<rparr> in
      and_then (message_peer_tcp (chat_send env) (chat_handle task) (new_peer_uid new_peer) welcome_msg)
        (\<lambda>h.
      and_then (handle_announce_tcp (chat_send env) h (UserConnect user)) (\<lambda>h.
      Inr (task\<lparr>chat_state := st, chat_handle := h\<rparr>))))"
| "chat_event env (TcpMessage tcp_message) task =
     (let st = chat_state task in
      case hm_get (connected_users st) (message_from tcp_message) of
        None \<Rightarrow> Inl UnwrapNone
      | Some user \<Rightarrow>
          (case message_body tcp_message of
             PeerSays s \<Rightarrow>
               let message = \<lparr>said_by = user, said_text = s\<rparr> in
               and_then (handle_announce_tcp (chat_send env) (chat_handle task) (NewMessage message))
                 (\<lambda>h.
               Inr (task\<lparr>chat_state := st\<lparr>chat_messages := pop_front_over 10 (chat_messages st @ [message])\<rparr>,
                 chat_handle := h\<rparr>))))"
| "chat_event env (PeerDisconnect peer_disconnect) task =
     (let st = chat_state task in
      case hm_get (connected_users st) (disconnected_uid peer_disconnect) of
        None \<Rightarrow> Inl UnwrapNone
      | Some user \<Rightarrow>
          and_then (handle_announce_tcp (chat_send env) (chat_handle task) (UserDisconnect user)) (\<lambda>h.
          Inr (task\<lparr>chat_state := st\<lparr>connected_users :=
              hm_remove (disconnected_uid peer_disconnect) (connected_users st)\<rparr>,
            chat_handle := h\<rparr>)))"
| "chat_event env (UdpMessage m) task = Inr task"

definition chat_step ::
  "'mtx chat_env \<Rightarrow> 'mtx chat_task \<Rightarrow> (from_peer_to_server, unit) server_event \<Rightarrow>
   ('mtx chat_task, unit) flow" where
  "chat_step env task ev = to_flow (chat_event env ev task)"

lemma chat_step_Running: "chat_step env task ev = Running task' \<longleftrightarrow> chat_event env ev task = Inr task'"
  by (simp add: chat_step_def)

definition chat_task_new :: "'mtx server_handle \<Rightarrow> 'mtx chat_task" where
  "chat_task_new h = \<lparr>chat_state = chat_state_default, chat_handle = h\<rparr>"

section \<open>The users\<close>

text \<open>
  Every connected user carries the label of a connection counted so far, and no two carry the
  same.
\<close>

definition chat_inv :: "'mtx chat_task \<Rightarrow> bool" where
  "chat_inv task \<longleftrightarrow>
     (\<forall>u x. hm_get (connected_users (chat_state task)) u = Some x \<longrightarrow>
        (\<exists>k. 1 \<le> k \<and> k \<le> user_counter (chat_state task) \<and> user_name x = user_label k)) \<and>
     (\<forall>u v x y. hm_get (connected_users (chat_state task)) u = Some x \<longrightarrow>
        hm_get (connected_users (chat_state task)) v = Some y \<longrightarrow> user_name x = user_name y \<longrightarrow> u = v)"

lemma chat_invD:
  assumes "chat_inv task" and "hm_get (connected_users (chat_state task)) u = Some x"
  obtains k where "1 \<le> k" and "k \<le> user_counter (chat_state task)" and "user_name x = user_label k"
  using assms unfolding chat_inv_def by blast

lemma chat_inv_new: "chat_inv (chat_task_new h)"
  by (simp add: chat_inv_def chat_task_new_def chat_state_default_def)

text \<open>What an event does to the chat's state, when it does not panic.\<close>

lemma chat_event_state:
  assumes "chat_event env ev task = Inr task'"
  shows "case ev of
      NewPeer e \<Rightarrow> user_counter (chat_state task') = Suc (user_counter (chat_state task)) \<and>
        hm_get (connected_users (chat_state task')) = (hm_get (connected_users (chat_state task)))
          (new_peer_uid e \<mapsto> \<lparr>user_name = user_label (Suc (user_counter (chat_state task)))\<rparr>)
    | PeerDisconnect e \<Rightarrow> user_counter (chat_state task') = user_counter (chat_state task) \<and>
        hm_get (connected_users (chat_state task')) =
          (hm_get (connected_users (chat_state task))) (disconnected_uid e := None)
    | _ \<Rightarrow> user_counter (chat_state task') = user_counter (chat_state task) \<and>
        connected_users (chat_state task') = connected_users (chat_state task)"
  using assms by (cases ev) (auto simp: Let_def split: option.splits from_peer_to_server.splits)

lemma chat_event_inv:
  assumes inv: "chat_inv task" and run: "chat_event env ev task = Inr task'"
  shows "chat_inv task'"
proof (cases ev)
  case (NewPeer e)
  let ?n = "user_counter (chat_state task)"
  have fresh: "user_name x \<noteq> user_label (Suc ?n)"
    if "hm_get (connected_users (chat_state task)) u = Some x" for u x
    using chat_invD [OF inv that] by force
  from chat_event_state [OF run] NewPeer
  have "user_counter (chat_state task') = Suc ?n" and
    "hm_get (connected_users (chat_state task')) = (hm_get (connected_users (chat_state task)))
      (new_peer_uid e \<mapsto> \<lparr>user_name = user_label (Suc ?n)\<rparr>)" by simp_all
  with inv fresh show ?thesis
    unfolding chat_inv_def by (auto split: if_splits) (metis le_Suc_eq)+
next
  case (PeerDisconnect e)
  with chat_event_state [OF run] inv show ?thesis by (auto simp: chat_inv_def)
qed (use chat_event_state [OF run] inv in \<open>auto simp: chat_inv_def\<close>)

interpretation chat: loop_invariant "chat_step env" "\<lambda>task ev. True" chat_inv for env
  by unfold_locales (auto simp: chat_step_def intro: chat_event_inv)

section \<open>The history of messages\<close>

definition take_last :: "nat \<Rightarrow> 'a list \<Rightarrow> 'a list" where
  "take_last n xs = drop (length xs - n) xs"

lemma pop_front_over_take_last: "pop_front_over n xs = take_last n xs"
proof (induction n xs rule: pop_front_over.induct)
  case (1 n xs)
  show ?case
  proof (cases "n < length xs")
    case True
    with 1 have "pop_front_over n xs = take_last n (tl xs)" by (subst pop_front_over.simps) simp
    also have "\<dots> = take_last n xs"
      using True by (simp add: take_last_def drop_Suc [symmetric] Suc_diff_Suc flip: drop_Suc)
    finally show ?thesis .
  next
    case False
    then show ?thesis by (subst pop_front_over.simps) (simp add: take_last_def)
  qed
qed

lemma take_last_length: "length (take_last n xs) = min n (length xs)"
  by (simp add: take_last_def min_def)

lemma take_last_snoc: "take_last n (take_last n xs @ [x]) = take_last n (xs @ [x])"
  by (cases "length xs \<le> n") (simp_all add: take_last_def Suc_diff_le)

text \<open>The messages announced to the chat room, read off the commands given to the server.\<close>

fun announced :: "(from_server_to_peer, unit) server_message list \<Rightarrow> chat_message list" where
  "announced [] = []"
| "announced (AnnounceTcp (NewMessage m) # cs) = m # announced cs"
| "announced (_ # cs) = announced cs"

lemma announced_append [simp]: "announced (cs @ ds) = announced cs @ announced ds"
  by (induction cs rule: announced.induct) simp_all

lemma handle_ops_history:
  assumes "try_send_law ts acc"
  shows "message_peer_tcp ts h u m = Inr h' \<Longrightarrow>
      acc (server_sender h') = acc (server_sender h) @ [ToPeerTcp u m]"
    and "handle_announce_tcp ts h m = Inr h' \<Longrightarrow>
      acc (server_sender h') = acc (server_sender h) @ [AnnounceTcp m]"
  using server_post_history [OF assms] by (simp_all add: message_peer_tcp_def handle_announce_tcp_def)

lemma chat_event_history:
  assumes law: "try_send_law (chat_send env) acc" and run: "chat_event env ev task = Inr task'"
  shows "\<exists>cs. acc (server_sender (chat_handle task')) = acc (server_sender (chat_handle task)) @ cs \<and>
    (chat_messages (chat_state task') = chat_messages (chat_state task) \<and> announced cs = [] \<or>
     (\<exists>m. chat_messages (chat_state task') = take_last 10 (chat_messages (chat_state task) @ [m]) \<and>
        announced cs = [m]))"
proof (cases ev)
  case (NewPeer e)
  with run obtain h1 h2 w x where
    h1: "message_peer_tcp (chat_send env) (chat_handle task) (new_peer_uid e) (ChatWelcome w) = Inr h1"
    and h2: "handle_announce_tcp (chat_send env) h1 (UserConnect x) = Inr h2"
    and "chat_handle task' = h2" "chat_messages (chat_state task') = chat_messages (chat_state task)"
    by (auto simp: Let_def)
  with handle_ops_history(1) [OF law h1] handle_ops_history(2) [OF law h2] show ?thesis by simp
next
  case (TcpMessage e)
  with run obtain h x m where
    h: "handle_announce_tcp (chat_send env) (chat_handle task) (NewMessage m) = Inr h"
    and "chat_handle task' = h"
    and "chat_messages (chat_state task') = take_last 10 (chat_messages (chat_state task) @ [m])"
    by (auto simp: Let_def pop_front_over_take_last split: option.splits from_peer_to_server.splits)
  with handle_ops_history(2) [OF law h] show ?thesis by simp
next
  case (PeerDisconnect e)
  with run obtain h x where
    h: "handle_announce_tcp (chat_send env) (chat_handle task) (UserDisconnect x) = Inr h"
    and "chat_handle task' = h" "chat_messages (chat_state task') = chat_messages (chat_state task)"
    by (auto simp: Let_def split: option.splits)
  with handle_ops_history(2) [OF law h] show ?thesis by simp
next
  case (UdpMessage e)
  with run show ?thesis by simp
qed

lemma chat_run_history:
  assumes law: "try_send_law (chat_send env) acc"
    and run: "run_loop (chat_step env) task evs = Running task'"
    and start: "chat_messages (chat_state task) = take_last 10 ms"
  shows "\<exists>cs. acc (server_sender (chat_handle task')) = acc (server_sender (chat_handle task)) @ cs \<and>
    chat_messages (chat_state task') = take_last 10 (ms @ announced cs)"
  using run start
proof (induction evs arbitrary: task ms)
  case Nil
  then show ?case by simp
next
  case (Cons ev evs)
  then obtain su where su: "chat_event env ev task = Inr su"
    and rest: "run_loop (chat_step env) su evs = Running task'"
    by (auto simp: chat_step_Running split: flow.splits)
  from chat_event_history [OF law su] Cons.prems(2) obtain cs where
    cs: "acc (server_sender (chat_handle su)) = acc (server_sender (chat_handle task)) @ cs"
      "chat_messages (chat_state su) = take_last 10 (ms @ announced cs)"
    by (auto simp: take_last_snoc)
  from Cons.IH [OF rest cs(2)] cs(1) show ?case by auto
qed

section \<open>The chat server on a stream of events\<close>

text \<open>A TCP message from a peer whose disconnect has already been reported.\<close>

fun late_message :: "presence \<Rightarrow> ('tts, 'uts) server_event list \<Rightarrow> bool" where
  "late_message a [] = False"
| "late_message a (ev # evs) =
     ((case ev of TcpMessage m \<Rightarrow> message_from m \<notin> fst a | _ \<Rightarrow> False) \<or>
      (case presence_act a ev of None \<Rightarrow> False | Some b \<Rightarrow> late_message b evs))"

definition chat_presence :: "'mtx chat_task \<Rightarrow> presence" where
  "chat_presence task = (dom (hm_get (connected_users (chat_state task))), user_counter (chat_state task))"

lemma chat_presence_new [simp]: "chat_presence (chat_task_new h) = ({}, 0)"
  by (auto simp: chat_presence_def chat_task_new_def chat_state_default_def)

lemma handle_ops_open:
  assumes "receiver_open ts"
  shows "\<exists>h'. message_peer_tcp ts h u m = Inr h'" and "\<exists>h'. handle_announce_tcp ts h m = Inr h'"
  using server_post_open [OF assms] unfolding message_peer_tcp_def handle_announce_tcp_def by metis+

lemma chat_event_late:
  "message_from m \<notin> fst (chat_presence task) \<Longrightarrow> chat_event env (TcpMessage m) task = Inl UnwrapNone"
  by (simp add: chat_presence_def Let_def domIff)

lemma chat_event_accepts:
  assumes opened: "receiver_open (chat_send env)"
    and act: "presence_act (chat_presence task) ev = Some b"
    and timely: "\<And>m. ev = TcpMessage m \<Longrightarrow> message_from m \<in> fst (chat_presence task)"
  obtains task' where "chat_event env ev task = Inr task'" and "chat_presence task' = b"
proof -
  have "\<exists>task'. chat_event env ev task = Inr task'"
  proof (cases ev)
    case (NewPeer e)
    then show ?thesis
      using handle_ops_open [OF opened] by (simp add: Let_def) metis
  next
    case (TcpMessage m)
    then have "message_from m \<in> dom (hm_get (connected_users (chat_state task)))"
      using timely by (simp add: chat_presence_def)
    then show ?thesis using TcpMessage handle_ops_open [OF opened]
      by (auto simp: Let_def split: from_peer_to_server.splits)
  next
    case (PeerDisconnect e)
    then have "disconnected_uid e \<in> dom (hm_get (connected_users (chat_state task)))"
      using act by (simp add: chat_presence_def split: if_splits)
    then show ?thesis using PeerDisconnect handle_ops_open [OF opened] by (auto simp: Let_def)
  qed simp
  then obtain task' where run: "chat_event env ev task = Inr task'" ..
  have "chat_presence task' = b"
    using chat_event_state [OF run] act by (cases ev) (auto simp: chat_presence_def split: if_splits)
  with run show ?thesis by (rule that)
qed

lemma chat_run:
  assumes opened: "receiver_open (chat_send env)"
    and log: "replay presence_act (chat_presence task) evs = Some b"
  shows "if late_message (chat_presence task) evs
    then run_loop (chat_step env) task evs = Panicked UnwrapNone
    else \<exists>task'. run_loop (chat_step env) task evs = Running task' \<and> chat_presence task' = b"
  using log
proof (induction evs arbitrary: task)
  case Nil
  then show ?case by simp
next
  case (Cons ev evs)
  show ?case
  proof (cases "\<exists>m. ev = TcpMessage m \<and> message_from m \<notin> fst (chat_presence task)")
    case True
    then obtain m where m: "ev = TcpMessage m" "message_from m \<notin> fst (chat_presence task)" by blast
    from chat_event_late [OF m(2), of env] m show ?thesis by (simp add: chat_step_def)
  next
    case False
    from Cons.prems obtain a where a: "presence_act (chat_presence task) ev = Some a"
      "replay presence_act a evs = Some b" by (auto split: option.splits)
    from False obtain su where su: "chat_event env ev task = Inr su" "chat_presence su = a"
      using chat_event_accepts [OF opened a(1)] by blast
    have "late_message (chat_presence task) (ev # evs) = late_message a evs"
      using False a(1) by (auto split: server_event.splits)
    moreover have "chat_step env task ev = Running su" using su(1) by (simp add: chat_step_Running)
    ultimately show ?thesis using Cons.IH [of su] su(2) a(2) by simp
  qed
qed

end
