(* ===== verification/ClientActor.thy ===== *)
theory ClientActor
  imports Networking
begin

text \<open>
  The client task (\<open>src/src/client/actor.rs\<close>), its events (\<open>src/src/client/event.rs\<close>), the
  handle to it (\<open>src/src/client/actor_handle.rs\<close>) and \<open>connect\<close> (\<open>src/src/client.rs\<close>).
\<close>

section \<open>Messages, events and status\<close>

text \<open>\<open>std::time::Instant\<close>: the clock's reading when the code asks for it.\<close>

type_synonym instant = nat
type_synonym status_channel = nat

datatype ('tfs, 'ufs) client_event =
    ClientTcpMessage 'tfs
  | ClientUdpMessage 'ufs
  | CanSendUdpMessages
  | CanReceiveUdpMessages

datatype ('tts, 'uts) client_message =
    MsgTcpToServer 'tts
  | MsgUdpToServer 'uts
  | GetStatus status_channel

record client_status =
  status_latest_udp_heartbeat :: "instant option"

datatype client_incoming_kind =
    ClientEofActorMessage
  | ClientEofTcpReader "read_actor_shutdown_reason actor_shutdown"
  | ClientEofTcpWriter "write_actor_shutdown_reason actor_shutdown"
  | ClientEofUdpReader "read_actor_shutdown_reason actor_shutdown"
  | ClientEofUdpWriter "write_actor_shutdown_reason actor_shutdown"

datatype ('tts, 'tfs, 'uts, 'ufs) client_incoming =
    ClientActorMessage "('tts, 'uts) client_message"
  | ClientTcpReader "(tcp_error + 'tfs tcp_from_server) read_actor_event"
  | ClientUdpReader "(udp_error + 'ufs udp_from_server) read_actor_event"
  | ClientEndOfStream client_incoming_kind

section \<open>State\<close>

text \<open>The code's \<open>State\<close>, and the task's other local variables with the replies it gave.\<close>

record client_state =
  latest_udp_heartbeat :: "instant option"

record ('wtx, 'utx, 'etx) client_task =
  client_state :: client_state
  has_received_on_udp :: bool
  client_event_sender :: 'etx
  client_tcp_write_actor :: "'wtx write_actor_handle"
  client_udp_write_actor :: "'utx write_actor_handle"
  status_replies :: "(status_channel \<times> client_status) list"

text \<open>
  The third-party code: the mailboxes of the two write actors and the event channel's sink. The
  destination is put on UDP messages behind the mailbox, in the sink.
\<close>

record ('wtx, 'utx, 'etx, 'tts, 'tfs, 'uts, 'ufs, 'e) client_env =
  client_tcp_try_send :: "('wtx, 'tts tcp_to_server write_actor_message) try_send"
  client_udp_try_send :: "('utx, 'uts udp_to_server write_actor_message) try_send"
  client_event_send :: "('etx, ('tfs, 'ufs) client_event, 'e) sink_call"

section \<open>The UDP socket of the client\<close>

text \<open>The senders' addresses are thrown away; every datagram is addressed to the server.\<close>

definition client_udp_rx :: "((udp_error + 'm) \<times> socket_addr) list \<Rightarrow> (udp_error + 'm) list" where
  "client_udp_rx udp_rx = map (\<lambda>(x, socket_addr). x) udp_rx"

definition client_udp_tx ::
  "'m serializer \<Rightarrow> ('k, bytes \<times> socket_addr, io_error) sink_ops \<Rightarrow> socket_addr \<Rightarrow>
   ('k, 'm, udp_error) sink_ops" where
  "client_udp_tx serialize sink server_addr =
     with_ops (\<lambda>x. Inr (x, server_addr)) (\<lambda>e. e) (udp_serializing_sink serialize sink)"

lemma client_udp_tx_law:
  assumes "serde_law ser de" and "sink_ops_law (\<lambda>f. f) frames sink"
  shows "sink_ops_law (\<lambda>x. Inr (Inr x, server_addr)) (\<lambda>k. map (\<lambda>f. udp_read_item de (Inr f)) (frames k))
    (client_udp_tx ser sink server_addr)"
  using with_pure_ops_law [OF udp.with_ops_law [OF assms], of "\<lambda>x. (x, server_addr)"]
  by (simp add: client_udp_tx_def udp_serializing_sink_def)

section \<open>The loop\<close>

text \<open>A failed send to a write actor in answer to an application message is \<open>todo!()\<close>.\<close>

fun client_forward ::
  "panic + 'h \<times> write_actor_error option \<Rightarrow> ('h \<Rightarrow> 's) \<Rightarrow> ('s, unit) flow" where
  "client_forward (Inl p) f = Panicked p"
| "client_forward (Inr (h, None)) f = Running (f h)"
| "client_forward (Inr (h, Some WriteChannelFull)) f = Panicked Todo"
| "client_forward (Inr (h, Some WriteChannelClosed)) f = Panicked Todo"

fun client_actor_message ::
  "('wtx, 'utx, 'etx, 'tts, 'tfs, 'uts, 'ufs, 'e) client_env \<Rightarrow> ('tts, 'uts) client_message \<Rightarrow>
   ('wtx, 'utx, 'etx) client_task \<Rightarrow> (('wtx, 'utx, 'etx) client_task, unit) flow" where
  "client_actor_message env (MsgTcpToServer msg) st =
     client_forward (write_send (client_tcp_try_send env) (client_tcp_write_actor st)
         (TcpToServerApplicationLogic msg)) (\<lambda>h. st\<lparr>client_tcp_write_actor := h\<rparr>)"
| "client_actor_message env (MsgUdpToServer msg) st =
     client_forward (write_send (client_udp_try_send env) (client_udp_write_actor st)
         (UdpToServerApplicationLogic msg)) (\<lambda>h. st\<lparr>client_udp_write_actor := h\<rparr>)"
| "client_actor_message env (GetStatus tx) st =
     Running (st\<lparr>status_replies := status_replies st @
       [(tx, \<lparr>status_latest_udp_heartbeat = latest_udp_heartbeat (client_state st)\<rparr>)]\<rparr>)"

text \<open>Emitting an event, and whether that failed.\<close>

definition client_emit ::
  "('wtx, 'utx, 'etx, 'tts, 'tfs, 'uts, 'ufs, 'e) client_env \<Rightarrow> ('tfs, 'ufs) client_event \<Rightarrow>
   ('wtx, 'utx, 'etx) client_task \<Rightarrow> ('wtx, 'utx, 'etx) client_task \<times> bool" where
  "client_emit env ev st =
     (case client_event_send env (client_event_sender st) ev of
        (tx, r) \<Rightarrow> (st\<lparr>client_event_sender := tx\<rparr>, r \<noteq> None))"

text \<open>An application event whose receiver is gone ends the loop.\<close>

definition client_emit_or_break ::
  "('wtx, 'utx, 'etx, 'tts, 'tfs, 'uts, 'ufs, 'e) client_env \<Rightarrow> ('tfs, 'ufs) client_event \<Rightarrow>
   ('wtx, 'utx, 'etx) client_task \<Rightarrow> (('wtx, 'utx, 'etx) client_task, unit) flow" where
  "client_emit_or_break env ev st =
     (case client_emit env ev st of (st', failed) \<Rightarrow> if failed then Finished st' () else Running st')"

fun client_tcp_item ::
  "('wtx, 'utx, 'etx, 'tts, 'tfs, 'uts, 'ufs, 'e) client_env \<Rightarrow> tcp_error + 'tfs tcp_from_server \<Rightarrow>
   ('wtx, 'utx, 'etx) client_task \<Rightarrow> (('wtx, 'utx, 'etx) client_task, unit) flow" where
  "client_tcp_item env (Inr (TcpWelcome uuid)) st =
     to_flow (and_then (write_send (client_udp_try_send env) (client_udp_write_actor st) (UdpHello uuid))
       (\<lambda>(h, _). Inr (st\<lparr>client_udp_write_actor := h\<rparr>)))"
| "client_tcp_item env (Inr UdpHandshakeAcknowledged) st =
     Running (fst (client_emit env CanSendUdpMessages st))"
| "client_tcp_item env (Inr (TcpFromServerApplicationLogic msg)) st =
     client_emit_or_break env (ClientTcpMessage msg) st"
| "client_tcp_item env (Inl err) st = Panicked Todo"

text \<open>The first item on UDP, whatever it is, is reported before it is handled.\<close>

definition client_first_udp ::
  "('wtx, 'utx, 'etx, 'tts, 'tfs, 'uts, 'ufs, 'e) client_env \<Rightarrow>
   ('wtx, 'utx, 'etx) client_task \<Rightarrow> ('wtx, 'utx, 'etx) client_task" where
  "client_first_udp env st =
     (if has_received_on_udp st then st
      else fst (client_emit env CanReceiveUdpMessages (st\<lparr>has_received_on_udp := True\<rparr>)))"

fun client_udp_item ::
  "('wtx, 'utx, 'etx, 'tts, 'tfs, 'uts, 'ufs, 'e) client_env \<Rightarrow> instant \<Rightarrow>
   udp_error + 'ufs udp_from_server \<Rightarrow>
   ('wtx, 'utx, 'etx) client_task \<Rightarrow> (('wtx, 'utx, 'etx) client_task, unit) flow" where
  "client_udp_item env now (Inr UdpWelcome) st = Running st"
| "client_udp_item env now (Inr Heartbeat) st =
     Running (st\<lparr>client_state := (client_state st)\<lparr>latest_udp_heartbeat := Some now\<rparr>\<rparr>)"
| "client_udp_item env now (Inr (UdpFromServerApplicationLogic msg)) st =
     client_emit_or_break env (ClientUdpMessage msg) st"
| "client_udp_item env now (Inl err) st = Panicked Todo"

text \<open>
  One round on what \<open>streams.next().await\<close> yields (\<open>None\<close>: all streams have ended) at the time
  \<open>now\<close>.
\<close>

fun client_step ::
  "('wtx, 'utx, 'etx, 'tts, 'tfs, 'uts, 'ufs, 'e) client_env \<Rightarrow> ('wtx, 'utx, 'etx) client_task \<Rightarrow>
   ('tts, 'tfs, 'uts, 'ufs) client_incoming option \<times> instant \<Rightarrow>
   (('wtx, 'utx, 'etx) client_task, unit) flow" where
  "client_step env st (None, now) = Finished st ()"
| "client_step env st (Some (ClientActorMessage msg), now) = client_actor_message env msg st"
| "client_step env st (Some (ClientTcpReader (StreamItem item)), now) = client_tcp_item env item st"
| "client_step env st (Some (ClientUdpReader (StreamItem item)), now) =
     client_udp_item env now item (client_first_udp env st)"
| "client_step env st (Some (ClientEndOfStream ClientEofActorMessage), now) = Finished st ()"
| "client_step env st (Some (ClientEndOfStream (ClientEofTcpReader r)), now) = Running st"
| "client_step env st (Some (ClientEndOfStream (ClientEofTcpWriter r)), now) = Running st"
| "client_step env st (Some (ClientEndOfStream (ClientEofUdpReader r)), now) = Running st"
| "client_step env st (Some (ClientEndOfStream (ClientEofUdpWriter r)), now) = Running st"

definition client_task_new ::
  "'etx \<Rightarrow> (nat \<Rightarrow> 'wtx) \<Rightarrow> task_id \<Rightarrow> (nat \<Rightarrow> 'utx) \<Rightarrow> task_id \<Rightarrow> ('wtx, 'utx, 'etx) client_task" where
  "client_task_new events_tx tcp_channel tcp_task udp_channel udp_task =
     \<lparr>client_state = \<lparr>latest_udp_heartbeat = None\<rparr>, has_received_on_udp = False,
      client_event_sender = events_tx,
      client_tcp_write_actor = write_spawn_actor tcp_channel tcp_task,
      client_udp_write_actor = write_spawn_actor udp_channel udp_task,
      status_replies = []\<rparr>"

section \<open>The handle\<close>

record 'mtx client_handle =
  client_sender :: 'mtx
  client_join_handle :: task_id

definition client_handle_new :: "task_id \<Rightarrow> 'mtx \<Rightarrow> 'mtx client_handle" where
  "client_handle_new join_handle sender =
     \<lparr>client_sender = sender, client_join_handle = join_handle\<rparr>"

datatype 'm client_error = ClientChannelFull 'm | ActorUnreachable 'm

text \<open>The message is taken back out of the error; \<open>assert_let!\<close> panics on another variant.\<close>

definition client_send_message_tcp ::
  "('mtx, ('tts, 'uts) client_message) try_send \<Rightarrow> 'mtx client_handle \<Rightarrow> 'tts \<Rightarrow>
   panic + 'mtx client_handle \<times> 'tts client_error option" where
  "client_send_message_tcp try_send h msg =
     (case try_send (client_sender h) (MsgTcpToServer msg) of
        (tx, None) \<Rightarrow> Inr (h\<lparr>client_sender := tx\<rparr>, None)
      | (tx, Some err) \<Rightarrow>
          if is_full err then
            (case into_inner err of
               MsgTcpToServer m \<Rightarrow> Inr (h\<lparr>client_sender := tx\<rparr>, Some (ClientChannelFull m))
             | _ \<Rightarrow> Inl AssertFailed)
          else if is_disconnected err then
            (case into_inner err of
               MsgTcpToServer m \<Rightarrow> Inr (h\<lparr>client_sender := tx\<rparr>, Some (ActorUnreachable m))
             | _ \<Rightarrow> Inl AssertFailed)
          else Inl Unreachable)"

definition client_send_message_udp ::
  "('mtx, ('tts, 'uts) client_message) try_send \<Rightarrow> 'mtx client_handle \<Rightarrow> 'uts \<Rightarrow>
   panic + 'mtx client_handle \<times> 'uts client_error option" where
  "client_send_message_udp try_send h msg =
     (case try_send (client_sender h) (MsgUdpToServer msg) of
        (tx, None) \<Rightarrow> Inr (h\<lparr>client_sender := tx\<rparr>, None)
      | (tx, Some err) \<Rightarrow>
          if is_full err then
            (case into_inner err of
               MsgUdpToServer m \<Rightarrow> Inr (h\<lparr>client_sender := tx\<rparr>, Some (ClientChannelFull m))
             | _ \<Rightarrow> Inl AssertFailed)
          else if is_disconnected err then
            (case into_inner err of
               MsgUdpToServer m \<Rightarrow> Inr (h\<lparr>client_sender := tx\<rparr>, Some (ActorUnreachable m))
             | _ \<Rightarrow> Inl AssertFailed)
          else Inl Unreachable)"

text \<open>
  \<open>get_status\<close> draws a \<open>oneshot\<close> channel \<open>tx\<close>, posts the request, and awaits the reply
  (\<open>await tx\<close> is \<open>None\<close> when the sender was dropped without one).
\<close>

definition client_get_status ::
  "('mtx, ('tts, 'uts) client_message) try_send \<Rightarrow> (status_channel \<Rightarrow> client_status option) \<Rightarrow>
   status_channel \<Rightarrow> 'mtx client_handle \<Rightarrow>
   panic + 'mtx client_handle \<times> (unit client_error + client_status)" where
  "client_get_status try_send await tx h =
     (case try_send (client_sender h) (GetStatus tx) of
        (mtx, None) \<Rightarrow>
          (case await tx of
             None \<Rightarrow> Inl (Expect ''Expected response from actor'')
           | Some status \<Rightarrow> Inr (h\<lparr>client_sender := mtx\<rparr>, Inr status))
      | (mtx, Some err) \<Rightarrow>
          if is_full err then Inr (h\<lparr>client_sender := mtx\<rparr>, Inl (ClientChannelFull ()))
          else if is_disconnected err then Inr (h\<lparr>client_sender := mtx\<rparr>, Inl (ActorUnreachable ()))
          else Inl Unreachable)"

section \<open>Connecting\<close>

datatype connect_error = ConnectIo io_error | UnknownHost string

text \<open>The calls into \<open>tokio::net\<close>, each with its result.\<close>

record ('tcp, 'udp) net_calls =
  lookup_host :: "string \<Rightarrow> io_error + socket_addr list"
  tcp_connect :: "socket_addr \<Rightarrow> io_error + 'tcp"
  tcp_local_addr :: "'tcp \<Rightarrow> io_error + socket_addr"
  udp_bind :: "socket_addr \<Rightarrow> io_error + 'udp"
  udp_connect :: "'udp \<Rightarrow> socket_addr \<Rightarrow> io_error + unit"

fun io_result :: "io_error + 'a \<Rightarrow> connect_error + 'a" where
  "io_result (Inl e) = Inl (ConnectIo e)"
| "io_result (Inr x) = Inr x"

text \<open>\<open>connect\<close> up to the spawn of the client task: the sockets and the server's address.\<close>

definition client_connect ::
  "('tcp, 'udp) net_calls \<Rightarrow> string \<Rightarrow> connect_error + 'tcp \<times> 'udp \<times> socket_addr" where
  "client_connect net server_host =
     and_then (io_result (lookup_host net server_host)) (\<lambda>server_addr_iter.
     and_then (case server_addr_iter of [] \<Rightarrow> Inl (UnknownHost server_host) | a # _ \<Rightarrow> Inr a) (\<lambda>server_addr.
     and_then (io_result (tcp_connect net server_addr)) (\<lambda>tcp_stream.
     and_then (io_result (tcp_local_addr net tcp_stream)) (\<lambda>local_addr.
     and_then (io_result (udp_bind net local_addr)) (\<lambda>udp_socket.
     and_then (io_result (udp_connect net udp_socket server_addr)) (\<lambda>_.
     Inr (tcp_stream, udp_socket, server_addr)))))))"

lemma io_result_Inr: "io_result r = Inr x \<longleftrightarrow> r = Inr x"
  by (cases r) simp_all

lemma io_result_not_unknown: "io_result r \<noteq> Inl (UnknownHost h)"
  by (cases r) simp_all

section \<open>Behaviour\<close>

lemma client_emit_simps [simp]:
  "client_state (fst (client_emit env ev st)) = client_state st"
  "has_received_on_udp (fst (client_emit env ev st)) = has_received_on_udp st"
  "status_replies (fst (client_emit env ev st)) = status_replies st"
  "client_tcp_write_actor (fst (client_emit env ev st)) = client_tcp_write_actor st"
  "client_udp_write_actor (fst (client_emit env ev st)) = client_udp_write_actor st"
  by (simp_all add: client_emit_def split: prod.splits)

lemma client_emit_open:
  assumes "sink_law (client_event_send env) acc" and "sink_open (client_event_send env)"
  shows "\<exists>tx. client_emit env ev st = (st\<lparr>client_event_sender := tx\<rparr>, False) \<and>
    acc tx = acc (client_event_sender st) @ [ev]"
  by (rule sink_send_cases [OF assms, of "client_event_sender st" ev]) (auto simp: client_emit_def)

lemma client_forward_Running:
  "client_forward r f = Running s \<longleftrightarrow> (\<exists>h. r = Inr (h, None) \<and> s = f h)"
  by (cases "(r, f)" rule: client_forward.cases) auto

text \<open>
  The contract of the client's event stream: readiness to receive on UDP is reported once, and
  before any UDP message.
\<close>

fun client_act :: "bool \<Rightarrow> ('tfs, 'ufs) client_event \<Rightarrow> bool option" where
  "client_act received CanReceiveUdpMessages = (if received then None else Some True)"
| "client_act received (ClientUdpMessage m) = (if received then Some received else None)"
| "client_act received (ClientTcpMessage m) = Some received"
| "client_act received CanSendUdpMessages = Some received"

definition client_inv ::
  "('wtx, 'utx, 'etx, 'tts, 'tfs, 'uts, 'ufs, 'e) client_env \<Rightarrow>
   ('etx \<Rightarrow> ('tfs, 'ufs) client_event list) \<Rightarrow> ('wtx, 'utx, 'etx) client_task \<Rightarrow> bool" where
  "client_inv env acc st \<longleftrightarrow>
     sink_law (client_event_send env) acc \<and> sink_open (client_event_send env)"

definition client_logged ::
  "('etx \<Rightarrow> ('tfs, 'ufs) client_event list) \<Rightarrow> ('wtx, 'utx, 'etx) client_task \<Rightarrow>
   ('wtx, 'utx, 'etx) client_task \<Rightarrow> bool" where
  "client_logged acc st st' \<longleftrightarrow>
     (\<exists>es. acc (client_event_sender st') = acc (client_event_sender st) @ es \<and>
        replay client_act (has_received_on_udp st) es = Some (has_received_on_udp st'))"

lemma client_logged_quiet:
  "client_event_sender st' = client_event_sender st \<Longrightarrow>
   has_received_on_udp st' = has_received_on_udp st \<Longrightarrow> client_logged acc st st'"
  unfolding client_logged_def by (rule exI [of _ "[]"]) simp

lemma client_logged_one:
  "acc (client_event_sender st') = acc (client_event_sender st) @ [ev] \<Longrightarrow>
   client_act (has_received_on_udp st) ev = Some (has_received_on_udp st') \<Longrightarrow> client_logged acc st st'"
  unfolding client_logged_def by (rule exI [of _ "[ev]"]) simp

lemma client_logged_trans:
  "client_logged acc st su \<Longrightarrow> client_logged acc su sv \<Longrightarrow> client_logged acc st sv"
  unfolding client_logged_def by (fastforce simp: replay_append)

lemma client_emit_logged:
  assumes "sink_law (client_event_send env) acc" and "sink_open (client_event_send env)"
    and "client_act (has_received_on_udp st) ev = Some (has_received_on_udp st)"
  shows "client_logged acc st (fst (client_emit env ev st))" and "\<not> snd (client_emit env ev st)"
  using client_emit_open [OF assms(1,2), of ev st] assms(3) by (auto intro!: client_logged_one)

lemma client_break_logged:
  assumes "sink_law (client_event_send env) acc" and "sink_open (client_event_send env)"
    and "client_act (has_received_on_udp st) ev = Some (has_received_on_udp st)"
    and "client_emit_or_break env ev st = Running st'"
  shows "client_logged acc st st'"
  using client_emit_logged [OF assms(1-3)] assms(4)
  by (auto simp: client_emit_or_break_def split: prod.splits if_splits)

lemma client_first_udp_logged:
  assumes "sink_law (client_event_send env) acc" and "sink_open (client_event_send env)"
  shows "client_logged acc st (client_first_udp env st)"
    and "has_received_on_udp (client_first_udp env st)"
proof -
  show "has_received_on_udp (client_first_udp env st)" by (simp add: client_first_udp_def)
  obtain tx where tx: "client_emit env CanReceiveUdpMessages (st\<lparr>has_received_on_udp := True\<rparr>) =
      (st\<lparr>has_received_on_udp := True, client_event_sender := tx\<rparr>, False)"
    "acc tx = acc (client_event_sender st) @ [CanReceiveUdpMessages]"
    using client_emit_open [OF assms, of CanReceiveUdpMessages "st\<lparr>has_received_on_udp := True\<rparr>"] by auto
  show "client_logged acc st (client_first_udp env st)"
  proof (cases "has_received_on_udp st")
    case True
    then show ?thesis by (intro client_logged_quiet) (simp_all add: client_first_udp_def)
  next
    case False
    with tx show ?thesis
      by (intro client_logged_one [where ev = CanReceiveUdpMessages]) (simp_all add: client_first_udp_def)
  qed
qed

lemma client_step_logged:
  assumes inv: "client_inv env acc st" and run: "client_step env st i = Running st'"
  shows "client_logged acc st st'"
proof -
  from inv have law: "sink_law (client_event_send env) acc" "sink_open (client_event_send env)"
    by (simp_all add: client_inv_def)
  show ?thesis
    using run
  proof (cases "(env, st, i)" rule: client_step.cases)
    case (2 env' s msg now)
    with run have "client_actor_message env msg st = Running st'" by simp
    then show ?thesis
      by (cases msg) (auto simp: client_forward_Running intro!: client_logged_quiet)
  next
    case (3 env' s item now)
    with run have "client_tcp_item env item st = Running st'" by simp
    then show ?thesis
    proof (cases "(env, item, st)" rule: client_tcp_item.cases)
      case (3 env2 msg s2)
      with \<open>client_tcp_item env item st = Running st'\<close>
      have "client_emit_or_break env (ClientTcpMessage msg) st = Running st'" by simp
      then show ?thesis by (intro client_break_logged [OF law]) auto
    qed (auto intro: client_logged_quiet client_emit_logged(1) [OF law])
  next
    case (4 env' s item now)
    let ?su = "client_first_udp env st"
    from 4 run have step: "client_udp_item env now item ?su = Running st'" by simp
    note su = client_first_udp_logged [OF law, of st]
    have "client_logged acc ?su st'"
    proof (cases "(env, now, item, ?su)" rule: client_udp_item.cases)
      case (3 env2 now2 msg s2)
      with step have "client_emit_or_break env (ClientUdpMessage msg) ?su = Running st'" by simp
      then show ?thesis using su(2) by (intro client_break_logged [OF law]) auto
    qed (use step in \<open>auto intro!: client_logged_quiet\<close>)
    with su(1) show ?thesis by (rule client_logged_trans)
  qed (auto intro: client_logged_quiet)
qed

interpretation client_log: logged_loop "client_step env" "\<lambda>st i. True" "client_inv env acc"
  "\<lambda>st. acc (client_event_sender st)" has_received_on_udp client_act for env acc
proof unfold_locales
  fix st i st'
  assume inv: "client_inv env acc st" and run: "client_step env st i = Running st'"
  show "client_inv env acc st'" using inv by (simp add: client_inv_def)
  show "\<exists>es. acc (client_event_sender st') = acc (client_event_sender st) @ es \<and>
      replay client_act (has_received_on_udp st) es = Some (has_received_on_udp st')"
    using client_step_logged [OF inv run] by (simp add: client_logged_def)
qed

text \<open>The rounds in which the loop ends, and those in which it panics.\<close>

lemma client_forward_not_finished [simp]: "client_forward r f \<noteq> Finished s u"
  by (cases "(r, f)" rule: client_forward.cases) auto

lemma client_emit_or_break_open:
  assumes "sink_open (client_event_send env)"
  shows "\<exists>st'. client_emit_or_break env ev st = Running st'"
proof (cases "client_event_send env (client_event_sender st) ev")
  case (Pair tx r)
  with assms have "r = None" by (rule sink_openD)
  with Pair show ?thesis by (simp add: client_emit_or_break_def client_emit_def)
qed

lemma client_actor_message_not_finished: "client_actor_message env msg st \<noteq> Finished s u"
  by (cases msg) simp_all

lemma client_udp_item_open:
  assumes "sink_open (client_event_send env)"
  shows "(\<exists>st'. client_udp_item env now item st = Running st') \<or>
    (\<exists>err. item = Inl err) \<and> client_udp_item env now item st = Panicked Todo"
proof (cases "(env, now, item, st)" rule: client_udp_item.cases)
  case (3 env' now' msg s)
  with client_emit_or_break_open [OF assms] show ?thesis by simp
qed auto

text \<open>
  The items on which the loop ends, and those on which it panics, read off the item and what the
  channels answer to the one message it makes the task send.
\<close>

fun client_leaves ::
  "('wtx, 'utx, 'etx, 'tts, 'tfs, 'uts, 'ufs, 'e) client_env \<Rightarrow> ('wtx, 'utx, 'etx) client_task \<Rightarrow>
   ('tts, 'tfs, 'uts, 'ufs) client_incoming option \<Rightarrow> bool" where
  "client_leaves env st None = True"
| "client_leaves env st (Some (ClientEndOfStream ClientEofActorMessage)) = True"
| "client_leaves env st (Some (ClientTcpReader (StreamItem (Inr (TcpFromServerApplicationLogic msg))))) =
     (snd (client_event_send env (client_event_sender st) (ClientTcpMessage msg)) \<noteq> None)"
| "client_leaves env st (Some (ClientUdpReader (StreamItem (Inr (UdpFromServerApplicationLogic msg))))) =
     (snd (client_event_send env (client_event_sender (client_first_udp env st)) (ClientUdpMessage msg)) \<noteq> None)"
| "client_leaves env st (Some _) = False"

fun client_crashes ::
  "('wtx, 'utx, 'etx, 'tts, 'tfs, 'uts, 'ufs, 'e) client_env \<Rightarrow> ('wtx, 'utx, 'etx) client_task \<Rightarrow>
   ('tts, 'tfs, 'uts, 'ufs) client_incoming option \<Rightarrow> bool" where
  "client_crashes env st (Some (ClientTcpReader (StreamItem (Inl err)))) = True"
| "client_crashes env st (Some (ClientUdpReader (StreamItem (Inl err)))) = True"
| "client_crashes env st (Some (ClientActorMessage (MsgTcpToServer msg))) =
     (snd (client_tcp_try_send env (wr_actor_msg_tx (client_tcp_write_actor st))
        (Send (TcpToServerApplicationLogic msg))) \<noteq> None)"
| "client_crashes env st (Some (ClientActorMessage (MsgUdpToServer msg))) =
     (snd (client_udp_try_send env (wr_actor_msg_tx (client_udp_write_actor st))
        (Send (UdpToServerApplicationLogic msg))) \<noteq> None)"
| "client_crashes env st _ = False"

lemma client_leaves_not_crashes: "client_leaves env st inc \<Longrightarrow> \<not> client_crashes env st inc"
  by (cases "(env, st, inc)" rule: client_crashes.cases) auto

lemma client_forward_ends:
  assumes law: "try_send_law ts acc"
  shows "if snd (ts (wr_actor_msg_tx h) (Send x)) \<noteq> None
    then client_forward (write_send ts h x) f = Panicked Todo
    else \<exists>s. client_forward (write_send ts h x) f = Running s"
proof -
  from wr.post_refused [OF law, of h "Send x"] obtain h' r where
    sent: "write_send ts h x = Inr (h', r)"
    and r: "r = None \<longleftrightarrow> snd (ts (wr_actor_msg_tx h) (Send x)) = None"
    by (auto simp: write_send_def)
  show ?thesis
  proof (cases r)
    case None
    with sent r show ?thesis by simp
  next
    case (Some e)
    with sent r show ?thesis by (cases e) auto
  qed
qed

lemma client_emit_or_break_ends:
  "client_emit_or_break env ev st =
   (if snd (client_event_send env (client_event_sender st) ev) \<noteq> None
    then Finished (fst (client_emit env ev st)) () else Running (fst (client_emit env ev st)))"
  by (simp add: client_emit_or_break_def client_emit_def split: prod.splits)

lemma client_step_ends:
  assumes tlaw: "try_send_law (client_tcp_try_send env) ta" and ulaw: "try_send_law (client_udp_try_send env) ua"
  shows "if client_leaves env st inc then \<exists>s. client_step env st (inc, now) = Finished s ()
    else if client_crashes env st inc then client_step env st (inc, now) = Panicked Todo
    else \<exists>s. client_step env st (inc, now) = Running s"
proof (cases "(env, st, inc, now)" rule: client_step.cases)
  case (2 env' s msg t)
  then have inc: "inc = Some (ClientActorMessage msg)" by simp
  show ?thesis
  proof (cases msg)
    case (MsgTcpToServer m)
    from client_forward_ends [OF tlaw, of "client_tcp_write_actor st" "TcpToServerApplicationLogic m"
        "\<lambda>h. st\<lparr>client_tcp_write_actor := h\<rparr>"] show ?thesis by (simp add: inc MsgTcpToServer)
  next
    case (MsgUdpToServer m)
    from client_forward_ends [OF ulaw, of "client_udp_write_actor st" "UdpToServerApplicationLogic m"
        "\<lambda>h. st\<lparr>client_udp_write_actor := h\<rparr>"] show ?thesis by (simp add: inc MsgUdpToServer)
  qed (simp add: inc)
next
  case (3 env' s item t)
  show ?thesis
  proof (cases "(env, item, st)" rule: client_tcp_item.cases)
    case (1 env'' uuid s')
    obtain h r where "write_send (client_udp_try_send env) (client_udp_write_actor st) (UdpHello uuid) = Inr (h, r)"
      using wr.post_total [OF ulaw] unfolding write_send_def by blast
    with 1 3 show ?thesis by simp
  qed (use 3 in \<open>simp_all add: client_emit_or_break_ends\<close>)
next
  case (4 env' s item t)
  then show ?thesis
    by (cases "(env, now, item, st)" rule: client_udp_item.cases) (simp_all add: client_emit_or_break_ends)
qed simp_all

text \<open>The heartbeat the status reports is the last one received.\<close>

fun heartbeat_time ::
  "instant option \<Rightarrow> ('tts, 'tfs, 'uts, 'ufs) client_incoming option \<times> instant \<Rightarrow> instant option" where
  "heartbeat_time t (Some (ClientUdpReader (StreamItem (Inr Heartbeat))), now) = Some now"
| "heartbeat_time t _ = t"

lemma client_emit_or_break_state:
  "client_emit_or_break env ev st = Running st' \<Longrightarrow> client_state st' = client_state st"
  by (auto simp: client_emit_or_break_def client_emit_def split: prod.splits if_splits)

lemma client_first_udp_state [simp]: "client_state (client_first_udp env st) = client_state st"
  by (simp add: client_first_udp_def)

lemma client_step_heartbeat:
  assumes run: "client_step env st i = Running st'"
  shows "latest_udp_heartbeat (client_state st') =
    heartbeat_time (latest_udp_heartbeat (client_state st)) i"
  using run
proof (cases "(env, st, i)" rule: client_step.cases)
  case (2 env' s msg now)
  with run have "client_actor_message env msg st = Running st'" by simp
  then have "client_state st' = client_state st"
    by (cases msg) (auto simp: client_forward_Running)
  then show ?thesis using 2 by simp
next
  case (3 env' s item now)
  with run have "client_tcp_item env item st = Running st'" by simp
  then have "client_state st' = client_state st"
    by (cases "(env, item, st)" rule: client_tcp_item.cases) (auto dest: client_emit_or_break_state)
  then show ?thesis using 3 by simp
next
  case (4 env' s item now)
  let ?su = "client_first_udp env st"
  from 4 run have step: "client_udp_item env now item ?su = Running st'" by simp
  show ?thesis
    by (cases "(env, now, item, ?su)" rule: client_udp_item.cases)
      (use step 4 in \<open>auto dest: client_emit_or_break_state\<close>)
qed auto

lemma client_run_heartbeat:
  "run_loop (client_step env) st is = Running st' \<Longrightarrow>
   latest_udp_heartbeat (client_state st') =
     fold (\<lambda>i t. heartbeat_time t i) is (latest_udp_heartbeat (client_state st))"
  by (induction "is" arbitrary: st) (auto split: flow.splits dest: client_step_heartbeat)

end
