(* ===== verification/System.thy ===== *)
theory System
  imports Chat ClientActor
begin

text \<open>
  The parts together: the handshake between the broker of the server and the client task, the
  broker's assumptions on the shutdown of IO actors discharged by the actors' loops, and the
  path of a UDP socket error through the read actor to the broker.
\<close>

section \<open>The handshake\<close>

text \<open>What the other end's reader makes of a message, as an item of the client's input.\<close>

definition arrives_tcp ::
  "instant \<Rightarrow> 'tfs tcp_from_server \<Rightarrow> ('tts, 'tfs, 'uts, 'ufs) client_incoming option \<times> instant" where
  "arrives_tcp now msg = (Some (ClientTcpReader (StreamItem (Inr msg))), now)"

definition arrives_udp ::
  "instant \<Rightarrow> 'ufs udp_from_server \<times> socket_addr \<Rightarrow> ('tts, 'tfs, 'uts, 'ufs) client_incoming option \<times> instant"
  where
  "arrives_udp now d = (Some (ClientUdpReader (StreamItem (Inr (fst d)))), now)"

text \<open>The server's side: a connection, then the Hello with the UUID that was drawn for it.\<close>

lemma accept_connection_state:
  fixes env :: "('rtx, 'wtx, 'utx, 'etx, 'tts, 'tfs, 'uts, 'ufs) server_env"
  assumes inv: "safe_inv env ra wa ua ea st"
    and ok: "benign ra wa st (TcpListener (Inr stream) :: ('tts, 'tfs, 'uts, 'ufs) incoming, new)"
    and addr: "peer_addr stream = Inr addr" and room: "hm_len (peers st) < max_connections (config st)"
    and wopen: "receiver_open (wr_try_send env)"
    and hand: "handle_new_tcp_connection env new stream st = Inr st1"
  shows "\<exists>p. hm_get (peers st1) = (hm_get (peers st))(next_peer_uid st \<mapsto> p) \<and>
    tcp_socket_addr p = addr \<and> udp_socket_addr p = None \<and>
    hm_get (peer_handshake_uuid_to_peer_uid st1) (new_v4 new) = Some (next_peer_uid st) \<and>
    wa (wr_actor_msg_tx (tcp_write_actor_handle p)) = [Send (TcpWelcome (new_v4 new))] \<and>
    ea (event_sender st1) = ea (event_sender st) @ [NewPeer \<lparr>new_peer_uid = next_peer_uid st\<rparr>] \<and>
    udp_write_actor st1 = udp_write_actor st"
proof -
  from inv have law: "try_send_law (wr_try_send env) wa" and elaw: "try_send_law (unbounded_send env) ea"
    by (simp_all add: safe_inv_def server_env_law_def)
  from new_connection_Inr [OF hand addr room] obtain wh r next_uid tx where
    sent: "write_send (wr_try_send env) (write_spawn_actor (wr_channel new) (wr_task new))
        (TcpWelcome (new_v4 new)) = Inr (wh, r)"
    and ev: "unbounded_send env (event_sender st) (NewPeer \<lparr>new_peer_uid = next_peer_uid st\<rparr>) = (tx, None)"
    and st1: "st1 = joined_state addr new wh next_uid tx st" by blast
  from ok have empty: "wa (wr_channel new 32) = []" by (simp add: benign_def)
  from wr.post_open [OF law wopen, of "write_spawn_actor (wr_channel new) (wr_task new)"
      "Send (TcpWelcome (new_v4 new))"] sent empty
  have "wa (wr_actor_msg_tx wh) = [Send (TcpWelcome (new_v4 new))]"
    by (auto simp: write_send_def write_spawn_actor_def write_handle_new_def)
  with try_send_law_ok [OF elaw ev] show ?thesis
    by (intro exI [of _ "joined_peer addr new wh"]) (simp add: st1 joined_peer_def)
qed

lemma accept_connection:
  fixes env :: "('rtx, 'wtx, 'utx, 'etx, 'tts, 'tfs, 'uts, 'ufs) server_env"
  assumes inv: "safe_inv env ra wa ua ea st"
    and ok: "benign ra wa st (TcpListener (Inr stream) :: ('tts, 'tfs, 'uts, 'ufs) incoming, new)"
    and addr: "peer_addr stream = Inr addr" and room: "hm_len (peers st) < max_connections (config st)"
    and wopen: "receiver_open (wr_try_send env)"
  obtains st1 p where "server_step env st (TcpListener (Inr stream), new) = Running st1"
    and "safe_inv env ra wa ua ea st1"
    and "hm_get (peers st1) (next_peer_uid st) = Some p" and "udp_socket_addr p = None"
    and "hm_get (peer_handshake_uuid_to_peer_uid st1) (new_v4 new) = Some (next_peer_uid st)"
    and "wa (wr_actor_msg_tx (tcp_write_actor_handle p)) = [Send (TcpWelcome (new_v4 new))]"
    and "udp_write_actor st1 = udp_write_actor st"
proof -
  from server_step_safe [OF inv ok] obtain st1 where
    run: "server_step env st (TcpListener (Inr stream), new) = Running st1"
    and inv1: "safe_inv env ra wa ua ea st1" by blast
  from run have "handle_new_tcp_connection env new stream st = Inr st1"
    by (auto simp: server_step_Running loop_top_Inr)
  from accept_connection_state [OF inv ok addr room wopen this] show ?thesis
    by (auto intro: that [OF run inv1])
qed

lemma accept_hello:
  assumes inv: "safe_inv env ra wa ua ea st" and wopen: "receiver_open (wr_try_send env)"
    and uopen: "receiver_open (udp_try_send env)"
    and known: "hm_get (peer_handshake_uuid_to_peer_uid st) uuid = Some u"
    and p: "hm_get (peers st) u = Some p" and first: "udp_socket_addr p = None"
  obtains st' q where
    "server_step env st (UdpReader (StreamItem (Inr (UdpHello uuid), addr)), new) = Running st'"
    and "safe_inv env ra wa ua ea st'"
    and "hm_get (peers st') u = Some q" and "udp_socket_addr q = Some addr"
    and "hm_get (peer_udp_socket_addr_to_peer_uid st') addr = Some u"
    and "wa (wr_actor_msg_tx (tcp_write_actor_handle q)) =
      wa (wr_actor_msg_tx (tcp_write_actor_handle p)) @ [Send UdpHandshakeAcknowledged]"
    and "ua (wr_actor_msg_tx (udp_write_actor st')) =
      ua (wr_actor_msg_tx (udp_write_actor st)) @ [Send (UdpWelcome, addr)]"
proof -
  let ?i = "(UdpReader (StreamItem (Inr (UdpHello uuid), addr)), new)"
  from inv have laws: "try_send_law (wr_try_send env) wa" "try_send_law (udp_try_send env) ua"
    by (simp_all add: safe_inv_def server_env_law_def)
  have "benign ra wa st ?i" using known p first by (simp add: benign_def hello_ok_def)
  from server_step_safe [OF inv this] obtain st' where
    run: "server_step env st ?i = Running st'" and inv': "safe_inv env ra wa ua ea st'" by blast
  from run have hand: "handle_udp_reader_stream_item env (UdpHello uuid) addr st = Inr st'"
    by (auto simp: server_step_Running loop_top_Inr)
  from hello_posts [OF laws(1) wopen laws(2) uopen known p, of addr] obtain wh uh where
    "st' = greeted_state u p addr wh uh st"
    "wa (wr_actor_msg_tx wh) =
      wa (wr_actor_msg_tx (tcp_write_actor_handle p)) @ [Send UdpHandshakeAcknowledged]"
    "ua (wr_actor_msg_tx uh) = ua (wr_actor_msg_tx (udp_write_actor st)) @ [Send (UdpWelcome, addr)]"
    using hand by auto
  then show ?thesis
    by (intro that [OF run inv', of "p\<lparr>udp_socket_addr := Some addr, tcp_write_actor_handle := wh\<rparr>"]) simp_all
qed

text \<open>The client's side of the handshake.\<close>

lemma client_handshake:
  assumes ulaw: "try_send_law (client_udp_try_send env) cua" and uopen: "receiver_open (client_udp_try_send env)"
    and elaw: "sink_law (client_event_send env) cea" and eopen: "sink_open (client_event_send env)"
    and first: "\<not> has_received_on_udp cl"
  obtains cl' where "run_loop (client_step env) cl
      [arrives_tcp t1 (TcpWelcome uuid), arrives_tcp t2 UdpHandshakeAcknowledged,
       arrives_udp t3 (UdpWelcome, addr)] = Running cl'"
    and "cua (wr_actor_msg_tx (client_udp_write_actor cl')) =
      cua (wr_actor_msg_tx (client_udp_write_actor cl)) @ [Send (UdpHello uuid)]"
    and "cea (client_event_sender cl') =
      cea (client_event_sender cl) @ [CanSendUdpMessages, CanReceiveUdpMessages]"
    and "has_received_on_udp cl'"
proof -
  from wr.post_open [OF ulaw uopen, of "client_udp_write_actor cl" "Send (UdpHello uuid)"] obtain uh where
    hello: "write_send (client_udp_try_send env) (client_udp_write_actor cl) (UdpHello uuid) = Inr (uh, None)"
    and uh: "cua (wr_actor_msg_tx uh) =
      cua (wr_actor_msg_tx (client_udp_write_actor cl)) @ [Send (UdpHello uuid)]"
    by (auto simp: write_send_def)
  let ?c1 = "cl\<lparr>client_udp_write_actor := uh\<rparr>"
  obtain tx2 where e2: "client_emit env CanSendUdpMessages ?c1 = (?c1\<lparr>client_event_sender := tx2\<rparr>, False)"
    and tx2: "cea tx2 = cea (client_event_sender ?c1) @ [CanSendUdpMessages]"
    using client_emit_open [OF elaw eopen, of CanSendUdpMessages ?c1] by blast
  let ?c2 = "?c1\<lparr>client_event_sender := tx2\<rparr>"
  let ?c2' = "?c2\<lparr>has_received_on_udp := True\<rparr>"
  obtain tx3 where
    e3: "client_emit env CanReceiveUdpMessages ?c2' = (?c2'\<lparr>client_event_sender := tx3\<rparr>, False)"
    and tx3: "cea tx3 = cea (client_event_sender ?c2') @ [CanReceiveUdpMessages]"
    using client_emit_open [OF elaw eopen, of CanReceiveUdpMessages ?c2'] by blast
  let ?c3 = "?c2'\<lparr>client_event_sender := tx3\<rparr>"
  have "client_step env cl (arrives_tcp t1 (TcpWelcome uuid)) = Running ?c1"
    using hello by (simp add: arrives_tcp_def)
  moreover have "client_step env ?c1 (arrives_tcp t2 UdpHandshakeAcknowledged) = Running ?c2"
    using e2 by (simp add: arrives_tcp_def)
  moreover have "client_step env ?c2 (arrives_udp t3 (UdpWelcome, addr)) = Running ?c3"
    using e3 first by (simp add: arrives_udp_def client_first_udp_def)
  ultimately show ?thesis using uh tx2 tx3 by (intro that [of ?c3]) simp_all
qed

section \<open>The IO actors of a connected peer\<close>

text \<open>
  The broker holds the handle of a connected peer's read actor and the receiver of its items: the
  mailbox does not end and a delivery does not fail. Then the reason the actor's loop ends with
  is one the broker expects.
\<close>

lemma read_message_only: "m = ReadShutdown"
  by (cases m) simp

lemma held_read_actor_reason:
  assumes law: "sink_law send accepted" and opened: "sink_open send"
    and rx: "rx \<in> shuffles (map RecvActorMessage (ra (rd_actor_msg_tx (tcp_read_actor_handle p)))) (read_stream_rx xs)"
    and run: "run_loop (read_actor_step send) tx (map Some rx) = Finished tx' r"
  shows "read_reason_ok ra p r"
  using run rx
proof -
  have "r \<noteq> ReceiverClosedChannel \<and>
      (r = ReadSignalled \<longrightarrow> RecvActorMessage ReadShutdown \<in> set rx) \<and>
      (r = ReadActorHandlesDropped \<longrightarrow> RecvEndOfStream ReadKindActorMessage \<in> set rx)"
    using run
  proof (induction rx arbitrary: tx)
    case (Cons y rx)
    show ?case
    proof (cases "is_stream_item y")
      case True
      then obtain x where y: "y = RecvStreamItem x" by (cases y) auto
      obtain tx1 where "send tx (StreamItem x) = (tx1, None)" by (rule sink_send_cases [OF law opened])
      with Cons.prems y have "run_loop (read_actor_step send) tx1 (map Some rx) = Finished tx' r" by simp
      from Cons.IH [OF this] show ?thesis by auto
    next
      case False
      from read_step_stop [OF this, of send tx] Cons.prems have "r = stop_reason y" by simp
      with False show ?thesis
        by (cases y rule: stop_reason.cases) (auto intro: read_message_only [symmetric])
    qed
  qed simp
  moreover have "RecvActorMessage m \<in> set rx \<Longrightarrow> m \<in> set (ra (rd_actor_msg_tx (tcp_read_actor_handle p)))" for m
    using set_shuffles [OF rx] by (auto simp: read_stream_rx_def)
  moreover have "RecvEndOfStream ReadKindActorMessage \<notin> set rx"
    using set_shuffles [OF rx] by (auto simp: read_stream_rx_def)
  ultimately show ?thesis by (cases r) auto
qed

lemma held_write_actor_reason:
  assumes run: "run_loop (write_actor_step ops) k
      (map Some (wa (wr_actor_msg_tx (tcp_write_actor_handle p)))) = Finished k' r"
  shows "write_reason_ok wa p r"
proof -
  have "r \<noteq> WriteActorHandlesDropped \<and> (r = WriteSignalled \<longrightarrow> WriteShutdown \<in> set ms)"
    if "run_loop (write_actor_step ops) k (map Some ms) = Finished k' r" for ms
    using that
  proof (induction ms arbitrary: k)
    case (Cons m ms)
    obtain k0 res where "perform ops k m = (k0, res)" by fastforce
    with Cons.prems Cons.IH [of k0] show ?case
      by (cases "m = WriteShutdown"; cases res) (auto simp: write_step_performs)
  qed simp
  from this [OF run] show ?thesis by (cases r) auto
qed

section \<open>A UDP socket error\<close>

text \<open>
  An error of the server's UDP socket makes the stream of the UDP read actor panic, and the
  broker panics on the shutdown of that actor.
\<close>

lemma udp_socket_error_kills_reader:
  assumes "run_loop (udp_read_actor_step de send) tx rx = Running tx'"
  shows "run_loop (udp_read_actor_step de send) tx (rx @ Some (RecvStreamItem (Inl e)) # later) =
    Panicked (Expect ''BytesCodec never fails deserialization'')"
  using assms by (simp add: run_loop_append udp_read_actor_step_def)

lemma udp_reader_panic_kills_broker:
  "server_step env st (EndOfStream (EofUdpReader (Erratic Panic)), new) =
   Panicked (PanicWith ''UDP read actor panicked.'')"
  by (simp add: server_step_def server_round_def)

section \<open>Garbage on a TCP stream\<close>

text \<open>
  The read actor delivers what it had already read after an unintelligible item; the broker has
  dropped the peer by then, and reports the message after the disconnect.
\<close>

lemma garbage_drops_peer:
  assumes inv: "safe_inv env ra wa ua ea st"
  obtains st' where "server_step env st (TcpReader (StreamItem (Inl err)) u, new) = Running st'"
    and "safe_inv env ra wa ua ea st'"
    and "disconnected_from ea u PeerSubmittedUnintelligibleData st st'"
proof -
  have "server_dispatch env new (TcpReader (StreamItem (Inl err)) u) st =
      Inr (st, [(u, PeerSubmittedUnintelligibleData)])" by simp
  from disconnect_step [OF inv this] show ?thesis using that by blast
qed

lemma tcp_message_reported:
  assumes inv: "safe_inv env ra wa ua ea st"
  obtains st' where
    "server_step env st (TcpReader (StreamItem (Inr (TcpToServerApplicationLogic m))) u, new) = Running st'"
    and "ea (event_sender st') = ea (event_sender st) @ [TcpMessage \<lparr>message_from = u, message_body = m\<rparr>]"
    and "safe_inv env ra wa ua ea st'" and "peers st' = peers st"
proof -
  let ?i = "(TcpReader (StreamItem (Inr (TcpToServerApplicationLogic m))) u, new)"
  have "benign ra wa st ?i" by (simp add: benign_def)
  from server_step_safe [OF inv this] obtain st' where run: "server_step env st ?i = Running st'"
    and inv': "safe_inv env ra wa ua ea st'" by blast
  then obtain su where "emit_event env (TcpMessage \<lparr>message_from = u, message_body = m\<rparr>) st = Inr su"
    and "loop_top env (su, []) = Inr st'" by (auto simp: server_step_Running)
  then obtain tx where
    "unbounded_send env (event_sender st) (TcpMessage \<lparr>message_from = u, message_body = m\<rparr>) = (tx, None)"
    and "st' = st\<lparr>event_sender := tx\<rparr>" by (auto simp: emit_event_Inr loop_top_Inr)
  moreover from inv have "try_send_law (unbounded_send env) ea" by (simp add: safe_inv_def server_env_law_def)
  ultimately show ?thesis using try_send_law_ok inv' by (intro that [OF run]) fastforce+
qed

end
