(* ===== verification/Reference.thy ===== *)
theory Reference
  imports System
begin

text \<open>
  Concrete environments: open channels whose state is the list of the messages they took, bounded
  channels, a broker with two peers reached by a run, a codec, and a client task. They satisfy
  the laws that the theorems assume of the third-party code, and instantiate the theorems.
\<close>

section \<open>The server\<close>

type_synonym ref_rtx = "read_actor_message list"
type_synonym 'tfs ref_wtx = "'tfs tcp_from_server write_actor_message list"
type_synonym 'ufs ref_utx = "('ufs udp_from_server \<times> socket_addr) write_actor_message list"
type_synonym ('tts, 'uts) ref_etx = "('tts, 'uts) server_event list"
type_synonym ('tts, 'tfs, 'uts, 'ufs) ref_server_env =
  "(ref_rtx, 'tfs ref_wtx, 'ufs ref_utx, ('tts, 'uts) ref_etx, 'tts, 'tfs, 'uts, 'ufs) server_env"
type_synonym ('tts, 'tfs, 'uts, 'ufs) ref_server_state =
  "(ref_rtx, 'tfs ref_wtx, 'ufs ref_utx, ('tts, 'uts) ref_etx) server_state"
type_synonym ('tts, 'tfs, 'uts, 'ufs) ref_server_input =
  "('tts, 'tfs, 'uts, 'ufs) incoming \<times> (ref_rtx, 'tfs ref_wtx) spawned"

definition ref_env :: "bool \<Rightarrow> ('tts, 'tfs, 'uts, 'ufs) ref_server_env" where
  "ref_env debug =
     \<lparr>debug_assertions = debug, rd_try_send = ref_unbounded_send, wr_try_send = ref_unbounded_send,
      udp_try_send = ref_unbounded_send, unbounded_send = ref_unbounded_send,
      clone_tfs = (\<lambda>x. x), clone_ufs = (\<lambda>x. x), iter_order = rev\<rparr>"

lemma ref_env_simps [simp]:
  "debug_assertions (ref_env b) = b"
  "rd_try_send (ref_env b) = ref_unbounded_send" "wr_try_send (ref_env b) = ref_unbounded_send"
  "udp_try_send (ref_env b) = ref_unbounded_send" "unbounded_send (ref_env b) = ref_unbounded_send"
  "clone_tfs (ref_env b) = (\<lambda>x. x)" "clone_ufs (ref_env b) = (\<lambda>x. x)" "iter_order (ref_env b) = rev"
  by (simp_all add: ref_env_def)

lemma ref_env_events_law: "try_send_law (unbounded_send (ref_env b)) (\<lambda>log. log)"
  by (simp add: ref_unbounded_send_law)

lemma ref_env_wr_law: "try_send_law (wr_try_send (ref_env b)) (\<lambda>log. log)"
  by (simp add: ref_unbounded_send_law)

lemma ref_env_udp_law: "try_send_law (udp_try_send (ref_env b)) (\<lambda>log. log)"
  by (simp add: ref_unbounded_send_law)

lemma ref_env_law:
  "server_env_law (ref_env b) (\<lambda>l. l) (\<lambda>l. l) (\<lambda>l. l) (\<lambda>l. l)"
  "receiver_open (rd_try_send (ref_env b))" "receiver_open (wr_try_send (ref_env b))"
  "receiver_open (udp_try_send (ref_env b))" "receiver_open (unbounded_send (ref_env b))"
  "iter_law (iter_order (ref_env b))"
  by (simp_all add: server_env_law_def ref_unbounded_send_law iter_law_def)

definition ref_addr :: "16 word \<Rightarrow> socket_addr" where
  "ref_addr port = SocketAddrV4 2130706433 port"

lemma ref_addr_inject [simp]: "ref_addr p = ref_addr q \<longleftrightarrow> p = q"
  by (simp add: ref_addr_def)

definition ref_stream :: "16 word \<Rightarrow> tcp_stream" where
  "ref_stream port = \<lparr>peer_addr = Inr (ref_addr port)\<rparr>"

lemma ref_stream_addr [simp]: "peer_addr (ref_stream port) = Inr (ref_addr port)"
  by (simp add: ref_stream_def)

definition ref_spawned :: "nat \<Rightarrow> uuid \<Rightarrow> (ref_rtx, 'tfs ref_wtx) spawned" where
  "ref_spawned t uuid =
     \<lparr>rd_channel = (\<lambda>_. []), rd_task = t, wr_channel = (\<lambda>_. []), wr_task = Suc t, new_v4 = uuid\<rparr>"

lemma ref_spawned_simps [simp]:
  "rd_channel (ref_spawned t uuid) = (\<lambda>_. [])" "rd_task (ref_spawned t uuid) = t"
  "wr_channel (ref_spawned t uuid) = (\<lambda>_. [])" "wr_task (ref_spawned t uuid) = Suc t"
  "new_v4 (ref_spawned t uuid) = uuid"
  by (simp_all add: ref_spawned_def)

definition ref_new :: "('tts, 'tfs, 'uts, 'ufs) ref_server_state" where
  "ref_new = server_state_new config_default [] 0 (\<lambda>_. []) 1"

definition ref_peer :: "16 word \<Rightarrow> nat \<Rightarrow> uuid \<Rightarrow> (ref_rtx, 'tfs ref_wtx) peer" where
  "ref_peer port t uuid =
     \<lparr>tcp_socket_addr = ref_addr port, udp_socket_addr = None,
      tcp_read_actor_handle = \<lparr>rd_actor_msg_tx = [], rd_shutdown_reason = t\<rparr>,
      tcp_write_actor_handle =
        \<lparr>wr_actor_msg_tx = [Send (TcpWelcome uuid)], wr_shutdown_reason = Suc t\<rparr>,
      handshake_uuid = uuid\<rparr>"

text \<open>Two clients connect, and the first greets on UDP from port 11.\<close>

definition ref_inputs :: "('tts, 'tfs, 'uts, 'ufs) ref_server_input list" where
  "ref_inputs =
     [(TcpListener (Inr (ref_stream 1)), ref_spawned 2 100),
      (TcpListener (Inr (ref_stream 2)), ref_spawned 4 200),
      (UdpReader (StreamItem (Inr (UdpHello 100), ref_addr 11)), ref_spawned 6 0)]"

definition ref_greeted :: "(ref_rtx, 'tfs ref_wtx) peer" where
  "ref_greeted = (ref_peer 1 2 100)\<lparr>udp_socket_addr := Some (ref_addr 11),
     tcp_write_actor_handle :=
       \<lparr>wr_actor_msg_tx = [Send (TcpWelcome 100), Send UdpHandshakeAcknowledged], wr_shutdown_reason = 3\<rparr>\<rparr>"

definition ref_two :: "('tts, 'tfs, 'uts, 'ufs) ref_server_state" where
  "ref_two =
     \<lparr>peers = [(PeerUid 0, ref_greeted), (PeerUid 1, ref_peer 2 4 200)],
      config = config_default, next_peer_uid = PeerUid 2,
      streams = [FromActorMessages, FromUdpReader 0, FromUdpWriter 1, FromTcpListener,
        FromUdpHeartbeat (udp_heartbeat_interval config_default),
        FromTcpReader (PeerUid 0) 2, FromTcpWriter (PeerUid 0) 3,
        FromTcpReader (PeerUid 1) 4, FromTcpWriter (PeerUid 1) 5],
      peer_tcp_socket_addr_to_peer_uid = [(ref_addr 1, PeerUid 0), (ref_addr 2, PeerUid 1)],
      peer_udp_socket_addr_to_peer_uid = [(ref_addr 11, PeerUid 0)],
      peer_handshake_uuid_to_peer_uid = [(100, PeerUid 0), (200, PeerUid 1)],
      event_sender = [NewPeer \<lparr>new_peer_uid = PeerUid 0\<rparr>, NewPeer \<lparr>new_peer_uid = PeerUid 1\<rparr>],
      udp_write_actor = \<lparr>wr_actor_msg_tx = [Send (UdpWelcome, ref_addr 11)], wr_shutdown_reason = 1\<rparr>,
      replies = [], dropped_peers = []\<rparr>"

lemmas ref_eval = ref_new_def ref_two_def ref_greeted_def ref_peer_def ref_inputs_def
  server_state_new_def server_step_def server_round_def loop_top_def handle_new_tcp_connection_def
  emit_event_def peer_uid_increment_def peer_uid_default_def drop_peer_def assert_invariants_def
  write_spawn_actor_def write_handle_new_def read_spawn_actor_def read_handle_new_def
  write_wait_def read_wait_def write_send_def write_feed_def write_flush_def
  write_send_actor_message_def read_send_actor_message_def write_signal_shutdown_def
  read_signal_shutdown_def ref_unbounded_send_def keep_def assert_not_connected_def
  announce_udp_def announce_udp_to_def announce_tcp_def announce_tcp_to_def
  config_default_def DEFAULT_MAX_CONNECTIONS_def
  hm_empty_def hm_insert_def hm_remove_def hm_len_def hm_keys_def hm_get_def Let_def

lemmas ref_conditions = events_ok_def benign_def connection_ok_def hello_ok_def registered_def

lemma ref_run: "run_loop (server_step (ref_env b)) ref_new ref_inputs = Running ref_two"
  by (simp add: ref_eval)

lemma ref_events_ok: "admissible (server_step (ref_env b)) events_ok ref_new ref_inputs"
  by (simp add: ref_eval ref_conditions)

lemma ref_events_ok2: "admissible (server_step (ref_env b)) incoming_ok ref_new ref_inputs"
  by (simp add: ref_eval ref_conditions)

lemma ref_benign: "admissible (server_step (ref_env b)) (benign (\<lambda>l. l) (\<lambda>l. l)) ref_new ref_inputs"
  by (simp add: ref_eval ref_conditions)

text \<open>A third Hello, with the first client's UUID from another address: only a release build bears it.\<close>

definition ref_second_hello :: "('tts, 'tfs, 'uts, 'ufs) ref_server_input list" where
  "ref_second_hello =
     ref_inputs @ [(UdpReader (StreamItem (Inr (UdpHello 100), ref_addr 12)), ref_spawned 6 0)]"

lemma ref_orderly:
  "admissible (server_step (ref_env b)) (orderly (ref_env b) (\<lambda>l. l) (\<lambda>l. l)) ref_new ref_inputs"
  "admissible (server_step (ref_env False)) (orderly (ref_env False) (\<lambda>l. l) (\<lambda>l. l)) ref_new ref_second_hello"
  by (simp_all add: ref_eval ref_conditions ref_second_hello_def orderly_def)

lemma ref_safe_new: "safe_inv (ref_env b) (\<lambda>l. l) (\<lambda>l. l) (\<lambda>l. l) (\<lambda>l. l) ref_new"
  unfolding ref_new_def by (rule safe_inv_new [OF ref_env_law(1) ref_env_law(5)])

lemma ref_safe_two: "safe_inv (ref_env b) (\<lambda>l. l) (\<lambda>l. l) (\<lambda>l. l) (\<lambda>l. l) ref_two"
  by (rule safe_server.run_keeps [OF ref_benign ref_safe_new ref_run])

lemma ref_wf_two: "server_wf ref_two"
  by (rule ref_safe_two [unfolded safe_inv_def, THEN conjunct2, THEN conjunct2, THEN conjunct1])

text \<open>The second client greets too, from port 12.\<close>

definition ref_both :: "('tts, 'tfs, 'uts, 'ufs) ref_server_state" where
  "ref_both = ref_two
     \<lparr>peers := [(PeerUid 0, ref_greeted), (PeerUid 1, (ref_peer 2 4 200)
        \<lparr>udp_socket_addr := Some (ref_addr 12), tcp_write_actor_handle :=
          \<lparr>wr_actor_msg_tx = [Send (TcpWelcome 200), Send UdpHandshakeAcknowledged],
           wr_shutdown_reason = 5\<rparr>\<rparr>)],
      peer_udp_socket_addr_to_peer_uid := [(ref_addr 11, PeerUid 0), (ref_addr 12, PeerUid 1)],
      udp_write_actor := \<lparr>wr_actor_msg_tx =
        [Send (UdpWelcome, ref_addr 11), Send (UdpWelcome, ref_addr 12)], wr_shutdown_reason = 1\<rparr>\<rparr>"

definition ref_hello :: "uuid \<Rightarrow> 16 word \<Rightarrow> ('tts, 'tfs, 'uts, 'ufs) ref_server_input" where
  "ref_hello uuid port =
     (UdpReader (StreamItem (Inr (UdpHello uuid), ref_addr port)), ref_spawned 6 0)"

lemma ref_both_run: "run_loop (server_step (ref_env b)) ref_two [ref_hello 200 12] = Running ref_both"
  by (simp add: ref_both_def ref_hello_def ref_eval)

lemma ref_both_benign:
  "admissible (server_step (ref_env b)) (benign (\<lambda>l. l) (\<lambda>l. l)) ref_two [ref_hello 200 12]"
  by (simp add: ref_hello_def ref_eval ref_conditions split: flow.splits)

lemma ref_safe_both: "safe_inv (ref_env b) (\<lambda>l. l) (\<lambda>l. l) (\<lambda>l. l) (\<lambda>l. l) ref_both"
  by (rule safe_server.run_keeps [OF ref_both_benign ref_safe_two ref_both_run])

lemma ref_wf_both: "server_wf ref_both"
  by (rule ref_safe_both [unfolded safe_inv_def, THEN conjunct2, THEN conjunct2, THEN conjunct1])

text \<open>The instances with numbers as application messages.\<close>

abbreviation num_env :: "bool \<Rightarrow> (nat, nat, nat, nat) ref_server_env" where
  "num_env \<equiv> ref_env"

abbreviation num_new :: "(nat, nat, nat, nat) ref_server_state" where
  "num_new \<equiv> ref_new"

abbreviation num_inputs :: "(nat, nat, nat, nat) ref_server_input list" where
  "num_inputs \<equiv> ref_inputs"

abbreviation num_spawned :: "nat \<Rightarrow> uuid \<Rightarrow> (ref_rtx, nat ref_wtx) spawned" where
  "num_spawned \<equiv> ref_spawned"

abbreviation num_two :: "(nat, nat, nat, nat) ref_server_state" where
  "num_two \<equiv> ref_two"

abbreviation num_both :: "(nat, nat, nat, nat) ref_server_state" where
  "num_both \<equiv> ref_both"

text \<open>The same state after an announcement of 7 over TCP.\<close>

definition ref_said :: "('tts, nat, 'uts, 'ufs) ref_server_state" where
  "ref_said = ref_two\<lparr>peers :=
     [(PeerUid 0, ref_greeted\<lparr>tcp_write_actor_handle :=
        \<lparr>wr_actor_msg_tx = [Send (TcpWelcome 100), Send UdpHandshakeAcknowledged,
           Send (TcpFromServerApplicationLogic 7)], wr_shutdown_reason = 3\<rparr>\<rparr>),
      (PeerUid 1, (ref_peer 2 4 200)\<lparr>tcp_write_actor_handle :=
        \<lparr>wr_actor_msg_tx = [Send (TcpWelcome 200), Send (TcpFromServerApplicationLogic 7)],
           wr_shutdown_reason = 5\<rparr>\<rparr>)]\<rparr>"

abbreviation num_said :: "(nat, nat, nat, nat) ref_server_state" where
  "num_said \<equiv> ref_said"

lemma ref_said_run: "handle_actor_message (ref_env b) (AnnounceTcp 7) ref_two = Inr ref_said"
  by (simp add: ref_said_def ref_eval)

lemma ref_two_get:
  "hm_get (peers ref_two) (PeerUid 0) = Some ref_greeted"
  "hm_get (peers ref_two) (PeerUid 1) = Some (ref_peer 2 4 200)"
  by (simp_all add: ref_two_def hm_get_def)

section \<open>The client\<close>

type_synonym ('tts, 'tfs, 'uts, 'ufs) ref_client_env_type =
  "('tts tcp_to_server write_actor_message list, 'uts udp_to_server write_actor_message list,
    ('tfs, 'ufs) client_event list, 'tts, 'tfs, 'uts, 'ufs, unit) client_env"
type_synonym ('tts, 'tfs, 'uts, 'ufs) ref_client_task =
  "('tts tcp_to_server write_actor_message list, 'uts udp_to_server write_actor_message list,
    ('tfs, 'ufs) client_event list) client_task"

definition ref_client_env :: "('tts, 'tfs, 'uts, 'ufs) ref_client_env_type" where
  "ref_client_env =
     \<lparr>client_tcp_try_send = ref_unbounded_send, client_udp_try_send = ref_unbounded_send,
      client_event_send = ref_send_open\<rparr>"

lemma ref_client_env_simps [simp]:
  "client_tcp_try_send ref_client_env = ref_unbounded_send"
  "client_udp_try_send ref_client_env = ref_unbounded_send"
  "client_event_send ref_client_env = ref_send_open"
  by (simp_all add: ref_client_env_def)

definition ref_client :: "('tts, 'tfs, 'uts, 'ufs) ref_client_task" where
  "ref_client = client_task_new [] (\<lambda>_. []) 0 (\<lambda>_. []) 1"

abbreviation num_client :: "(nat, nat, nat, nat) ref_client_task" where
  "num_client \<equiv> ref_client"

lemmas ref_client_eval = ref_client_def client_task_new_def client_emit_def client_emit_or_break_def
  client_first_udp_def ref_send_open_def ref_unbounded_send_def write_send_def
  write_send_actor_message_def write_spawn_actor_def write_handle_new_def

section \<open>A codec and a framed socket\<close>

text \<open>Single bytes, of which 255 cannot be serialized.\<close>

definition ref_serialize :: "byte serializer" where
  "ref_serialize x = (if x = 255 then Inl ''unserializable'' else Inr [x])"

fun ref_deserialize :: "byte deserializer" where
  "ref_deserialize [x] = (if x = 255 then Inl ''unintelligible'' else Inr x)"
| "ref_deserialize _ = Inl ''unintelligible''"

lemma ref_serde_law: "serde_law ref_serialize ref_deserialize"
  by (simp add: serde_law_def ref_serialize_def)

definition ref_framed :: "('f list, 'f, io_error) sink_ops" where
  "ref_framed =
     \<lparr>sink_send = (\<lambda>k f. (k @ [f], None)), sink_feed = (\<lambda>k f. (k @ [f], None)),
      sink_flush = (\<lambda>k. (k, None)), sink_close = (\<lambda>k. (k, None))\<rparr>"

lemma ref_framed_law: "sink_ops_law (\<lambda>f. f) (\<lambda>k. k) ref_framed"
  by (simp add: sink_ops_law_def item_call_law_def ref_framed_def)

text \<open>A sink that always fails, and a channel whose receiver is gone.\<close>

definition ref_broken :: "('f list, 'f, io_error) sink_ops" where
  "ref_broken =
     \<lparr>sink_send = (\<lambda>k f. (k, Some ''broken'')), sink_feed = (\<lambda>k f. (k, Some ''broken'')),
      sink_flush = (\<lambda>k. (k, Some ''broken'')), sink_close = (\<lambda>k. (k, Some ''broken''))\<rparr>"

lemma ref_broken_law: "sink_ops_law (\<lambda>f. f) (\<lambda>k. k) ref_broken"
  by (simp add: sink_ops_law_def item_call_law_def ref_broken_def)

definition ref_closed_send :: "('m list, 'm) try_send" where
  "ref_closed_send log m = (log, Some \<lparr>is_full = False, is_disconnected = True, into_inner = m\<rparr>)"

section \<open>The chat server\<close>

definition ref_chat_env :: "(from_server_to_peer, unit) server_message list chat_env" where
  "ref_chat_env = \<lparr>chat_send = ref_unbounded_send, values_order = (\<lambda>us. us)\<rparr>"

definition ref_chat :: "(from_server_to_peer, unit) server_message list chat_task" where
  "ref_chat = chat_task_new (server_handle_new 0 [])"

lemma ref_chat_env_simps [simp]:
  "chat_send ref_chat_env = ref_unbounded_send" "values_order ref_chat_env = (\<lambda>us. us)"
  by (simp_all add: ref_chat_env_def)

lemmas ref_chat_eval = ref_chat_def chat_task_new_def chat_state_default_def chat_step_def
  message_peer_tcp_def handle_announce_tcp_def server_post_def server_handle_new_def
  ref_unbounded_send_def Let_def hm_empty_def hm_insert_def hm_get_def pop_front_over_take_last take_last_def

text \<open>The network server under the chat server.\<close>

abbreviation chat_net_env :: "(from_peer_to_server, from_server_to_peer, unit, unit) ref_server_env" where
  "chat_net_env \<equiv> ref_env True"

abbreviation chat_two :: "(from_peer_to_server, from_server_to_peer, unit, unit) ref_server_state" where
  "chat_two \<equiv> ref_two"

abbreviation chat_client :: "(from_peer_to_server, from_server_to_peer, unit, unit) ref_client_task" where
  "chat_client \<equiv> ref_client"

lemma ref_chat_open: "receiver_open (chat_send ref_chat_env)"
  by (simp add: ref_unbounded_send_law)

text \<open>The chat server that has handled the events of the two peers.\<close>

lemma ref_chat_current:
  obtains task :: "(from_server_to_peer, unit) server_message list chat_task"
  where "chat_presence task = presence chat_two"
proof -
  have log: "replay presence_act ({}, 0) (event_sender chat_two) = Some (presence chat_two)"
    by (auto simp: ref_two_def presence_def dom_connected hm_get_def uid_nat_def split: if_splits)
  have "\<not> late_message ({}, 0) (event_sender chat_two)"
    by (simp add: ref_two_def uid_nat_def)
  with chat_run [OF ref_chat_open, of ref_chat "event_sender chat_two"] log that show ?thesis
    by (auto simp: ref_chat_def)
qed

end
