(* ===== verification/ServerMessages.thy ===== *)
theory ServerMessages
  imports ServerEvents
begin

text \<open>
  The messages of the peers, as the application sees them: those on TCP are reported exactly as
  they were delivered, those on UDP with losses, and both in the order of their delivery, whatever
  else happens in between.
\<close>

section \<open>Messages in inputs and events\<close>

fun tcp_input :: "('tts, 'tfs, 'uts, 'ufs) incoming \<times> 'new \<Rightarrow> 'tts peer_message list" where
  "tcp_input (TcpReader (StreamItem (Inr (TcpToServerApplicationLogic m))) u, new) =
     [\<lparr>message_from = u, message_body = m\<rparr>]"
| "tcp_input _ = []"

fun tcp_reported :: "('tts, 'uts) server_event \<Rightarrow> 'tts peer_message list" where
  "tcp_reported (TcpMessage m) = [m]"
| "tcp_reported _ = []"

fun udp_input :: "('tts, 'tfs, 'uts, 'ufs) incoming \<times> 'new \<Rightarrow> 'uts list" where
  "udp_input (UdpReader (StreamItem (Inr (UdpToServerApplicationLogic m), addr)), new) = [m]"
| "udp_input _ = []"

fun udp_reported :: "('tts, 'uts) server_event \<Rightarrow> 'uts list" where
  "udp_reported (UdpMessage m) = [message_body m]"
| "udp_reported _ = []"

text \<open>
  What a round reports for the messages it was given, from one state of the event channel to the
  next.
\<close>

definition reports ::
  "('etx \<Rightarrow> ('tts, 'uts) server_event list) \<Rightarrow> 'tts peer_message list \<Rightarrow> 'uts list \<Rightarrow>
   ('rtx, 'wtx, 'utx, 'etx) server_state \<Rightarrow> ('rtx, 'wtx, 'utx, 'etx) server_state \<Rightarrow> bool" where
  "reports acc tcp udp st st' \<longleftrightarrow>
     (\<exists>es. acc (event_sender st') = acc (event_sender st) @ es \<and>
        concat (map tcp_reported es) = tcp \<and> subseq (concat (map udp_reported es)) udp)"

lemma reports_nothing: "event_sender st' = event_sender st \<Longrightarrow> reports acc [] udp st st'"
  unfolding reports_def by (rule exI [of _ "[]"]) simp

lemma reports_one:
  assumes "try_send_law (unbounded_send env) acc"
    and "unbounded_send env (event_sender st) ev = (event_sender st', None)"
    and "tcp_reported ev = tcp" and "subseq (udp_reported ev) udp"
  shows "reports acc tcp udp st st'"
  unfolding reports_def
  using try_send_law_ok [OF assms(1,2)] assms(3,4) by (intro exI [of _ "[ev]"]) simp

lemma reports_trans:
  assumes "reports acc tcp udp st su" and "reports acc tcp' udp' su sv"
  shows "reports acc (tcp @ tcp') (udp @ udp') st sv"
proof -
  obtain es where "acc (event_sender su) = acc (event_sender st) @ es"
    "concat (map tcp_reported es) = tcp" "subseq (concat (map udp_reported es)) udp"
    using assms(1) unfolding reports_def by blast
  moreover obtain fs where "acc (event_sender sv) = acc (event_sender su) @ fs"
    "concat (map tcp_reported fs) = tcp'" "subseq (concat (map udp_reported fs)) udp'"
    using assms(2) unfolding reports_def by blast
  ultimately show ?thesis
    unfolding reports_def by (intro exI [of _ "es @ fs"]) (simp add: list_emb_append_mono)
qed

section \<open>One round\<close>

lemma emit_reports:
  assumes "try_send_law (unbounded_send env) acc" and "emit_event env ev st = Inr st'"
    and "tcp_reported ev = tcp" and "subseq (udp_reported ev) udp"
  shows "reports acc tcp udp st st'"
proof -
  from assms(2) obtain tx where "unbounded_send env (event_sender st) ev = (tx, None)"
    and "st' = st\<lparr>event_sender := tx\<rparr>" by (auto simp: emit_event_Inr)
  then show ?thesis by (intro reports_one [OF assms(1) _ assms(3,4)]) simp
qed

lemma new_connection_reports:
  assumes law: "try_send_law (unbounded_send env) acc"
    and run: "handle_new_tcp_connection env new stream st = Inr st'"
  shows "reports acc [] [] st st'"
proof (cases "peer_addr stream")
  case (Inl e)
  with run show ?thesis by (simp add: handle_new_tcp_connection_def)
next
  case (Inr addr)
  show ?thesis
  proof (cases "hm_len (peers st) < max_connections (config st)")
    case False
    with run Inr show ?thesis by (simp add: new_connection_rejected reports_nothing)
  next
    case True
    from new_connection_Inr [OF run Inr True] obtain wh next_uid tx where
      sent: "unbounded_send env (event_sender st) (NewPeer \<lparr>new_peer_uid = next_peer_uid st\<rparr>) = (tx, None)"
      and st': "st' = joined_state addr new wh next_uid tx st" by blast
    from sent have "unbounded_send env (event_sender st) (NewPeer \<lparr>new_peer_uid = next_peer_uid st\<rparr>) =
        (event_sender st', None)" by (simp add: st')
    then show ?thesis by (rule reports_one [OF law]) simp_all
  qed
qed

lemma drop_peer_reports:
  assumes law: "try_send_law (unbounded_send env) acc" and run: "drop_peer env u reason st = Inr st'"
  shows "reports acc [] [] st st'"
proof (cases "hm_get (peers st) u")
  case None
  with run show ?thesis by (simp add: reports_nothing)
next
  case (Some p)
  from drop_peer_Inr [OF run this] obtain rh wh tx where
    sent: "unbounded_send env (event_sender st)
      (PeerDisconnect \<lparr>disconnected_uid = u, disconnect_reason = reason\<rparr>) = (tx, None)"
    and st': "st' = left_state u p rh wh tx st" by blast
  from sent have "unbounded_send env (event_sender st)
      (PeerDisconnect \<lparr>disconnected_uid = u, disconnect_reason = reason\<rparr>) = (event_sender st', None)"
    by (simp add: st')
  then show ?thesis by (rule reports_one [OF law]) simp_all
qed

lemma drops_reports:
  assumes law: "try_send_law (unbounded_send env) acc"
    and run: "fold_ok (\<lambda>(u, reason). drop_peer env u reason) drops st = Inr st'"
  shows "reports acc [] [] st st'"
  by (rule fold_ok_invariant [OF _ run reports_nothing [OF refl]])
    (auto intro: reports_trans [of acc "[]" "[]" st _ "[]" "[]", simplified] drop_peer_reports [OF law])

lemma udp_item_reports:
  assumes law: "try_send_law (unbounded_send env) acc"
    and run: "handle_udp_reader_stream_item env msg addr st = Inr st'"
  shows "reports acc [] (udp_input (UdpReader (StreamItem (Inr msg, addr)), new)) st st'"
proof (cases msg)
  case (UdpHello uuid)
  with run show ?thesis by (auto intro!: reports_nothing split: option.splits)
next
  case (UdpToServerApplicationLogic m)
  with run show ?thesis by (auto intro: reports_nothing emit_reports [OF law] split: option.splits)
qed

lemma dispatch_reports:
  assumes law: "try_send_law (unbounded_send env) acc" and run: "server_dispatch env new inc st = Inr (st', drops)"
  shows "reports acc (tcp_input (inc, new)) (udp_input (inc, new)) st st'"
  using run
proof (cases "(env, new, inc, st)" rule: server_dispatch.cases)
  case (3 env' new' stream st2)
  with run law show ?thesis by (auto intro: new_connection_reports)
next
  case (4 env' new' message u st2)
  with run law show ?thesis by (cases message) (auto intro: emit_reports)
next
  case (6 env' new' message addr st2)
  with run have "handle_udp_reader_stream_item env message addr st = Inr st'" by simp
  from udp_item_reports [OF law this, of new] 6 show ?thesis by simp
qed (auto split: option.splits simp: reports_nothing dest: end_of_stream_state
    intro: reports_nothing handle_actor_message_sender announce_udp_sender)

lemma server_step_reports:
  assumes law: "try_send_law (unbounded_send env) acc" and run: "server_step env st i = Running st'"
  shows "reports acc (tcp_input i) (udp_input i) st st'"
proof -
  obtain inc new where i: "i = (inc, new)" by (cases i)
  from run obtain su drops where
    su: "server_dispatch env new inc st = Inr (su, drops)" and top: "loop_top env (su, drops) = Inr st'"
    unfolding i server_step_Running by blast
  from top have "reports acc [] [] su st'" by (auto simp: loop_top_Inr intro: drops_reports [OF law])
  from reports_trans [OF dispatch_reports [OF law su] this] show ?thesis by (simp add: i)
qed

section \<open>Whole runs\<close>

lemma run_reports:
  assumes law: "try_send_law (unbounded_send env) acc"
  shows "run_loop (server_step env) st is = Running st' \<Longrightarrow>
    reports acc (concat (map tcp_input is)) (concat (map udp_input is)) st st'"
proof (induction "is" arbitrary: st)
  case Nil
  then show ?case by (simp add: reports_nothing)
next
  case (Cons i "is")
  then obtain su where step: "server_step env st i = Running su"
    and rest: "run_loop (server_step env) su is = Running st'" by (auto split: flow.splits)
  from reports_trans [OF server_step_reports [OF law step] Cons.IH [OF rest]] show ?case by simp
qed

end
