(* ===== verification/ServerProperties.thy ===== *)
theory ServerProperties
  imports Reference ServerMessages
begin

text \<open>
  What the server guarantees: over whole runs of its task (well-formedness, absence of panics,
  capacity, the contract of the event stream), and operation by operation. Each theorem with a
  hypothesis is applied to the reference broker.
\<close>

section \<open>Whole runs\<close>

text \<open>C2: however the task is run, as long as connections come from fresh addresses with fresh
  UUIDs and no peer greets again from a second address, its maps agree whenever it awaits the next
  item (each peer is found by its TCP address and its UUID, each index entry leads to a connected
  peer that carries the key, UIDs are below the counter, the capacity is respected), and the
  check that debug builds make passes.\<close>

theorem server_run_wf:
  assumes "admissible (server_step env) incoming_ok (server_state_new cfg tx rt uc ut) is"
    and "server_actor env interval cfg tx rt uc ut (map Some is) = Running st"
  shows "server_wf st \<and> assert_invariants st = Inr ()"
  using server_loop.run_keeps [OF assms(1) server_state_new_wf] assms(2)
  by (simp add: server_actor_Running wf_assert_invariants)

lemma ref_actor:
  "server_actor (ref_env b) (\<lambda>_. Inr ()) config_default [] 0 (\<lambda>_. []) 1 (map Some ref_inputs) = Running ref_two"
  using ref_run [of b] by (simp add: server_actor_Running ref_new_def)

theorem server_run_wf_witness: "server_wf num_two \<and> assert_invariants num_two = Inr ()"
  by (rule server_run_wf [OF ref_events_ok2 [unfolded ref_new_def] ref_actor])

text \<open>C1: the task never panics and always comes back to await its next item, provided the
  environment delivers it only the following. The channels obey their laws, the application keeps its
  event receiver, the timer's period is valid and the merged streams do not end (the timer's never
  does). \<open>delivery_ok\<close>, item by item: the socket of an accepted connection knows its remote address
  (\<open>peer_addr\<close> succeeds) and the channels created for it are empty; the application keeps a handle and
  the listener stays open; the IO actors of a connected peer end with the reason of their loop
  (\<open>Signalled\<close> only if a shutdown was posted to them, never because of a handle or a receiver that
  the broker still holds); and the UDP socket's two actors end at most by a signal, so there is no
  error of the UDP socket. A release build needs nothing else: it bears every address, UUID, message
  and second Hello. For a debug build, whose overflow checks and assertions are on, \<open>incoming_ok\<close> must
  hold besides: a new connection does not reuse the remote address or the UUID of a connected peer
  nor exhaust the 2^64 UIDs, and no peer says Hello from a second UDP address.\<close>

theorem server_never_panics:
  assumes "server_env_law env ra wa ua ea" and "receiver_open (unbounded_send env)"
    and "interval (udp_heartbeat_interval cfg) = Inr ()"
    and "admissible (server_step env)
      (\<lambda>st i. delivery_ok ra wa st i \<and> (debug_assertions env \<longrightarrow> incoming_ok st i))
      (server_state_new cfg tx rt uc ut) is"
  shows "\<exists>st. server_actor env interval cfg tx rt uc ut (map Some is) = Running st"
proof -
  from assms(4) have "admissible (server_step env) (orderly env ra wa) (server_state_new cfg tx rt uc ut) is"
    by (simp add: orderly_fun)
  from live_run_total [OF this] safe_inv_new [OF assms(1,2)] assms(3) show ?thesis
    by (metis server_actor_Running safe_inv_live)
qed

theorem server_never_panics_witness:
  "(\<exists>st. server_actor (num_env True) (\<lambda>_. Inr ()) config_default [] 0 (\<lambda>_. []) 1 (map Some ref_inputs) = Running st) \<and>
   (\<exists>st. server_actor (num_env False) (\<lambda>_. Inr ()) config_default [] 0 (\<lambda>_. []) 1 (map Some ref_second_hello) = Running st)"
  by (rule conjI; rule server_never_panics [OF ref_env_law(1) ref_env_law(5) refl])
    (rule ref_orderly [unfolded ref_new_def orderly_fun])+

text \<open>C21: exactly when the task panics. While the application keeps its event receiver, and a debug build is
  given only items that \<open>incoming_ok\<close> allows (no remote address or UUID of a connected peer again, fewer than
  2^64 connections, no Hello from a second address; a release build is given any items at all), a run ends in a
  panic if one of its items is fatal in the state it meets, and otherwise awaits the next item. Fatal are:
  an accepted connection whose \<open>peer_addr\<close> fails, even if the server is full; the end of the handles'
  channel, of the listener or of all streams; the end of an IO actor of a connected peer by a controlled
  shutdown that is not the end of its stream or its sink's error; and the end of a UDP actor for any
  reason but a signal. Every other item is survived, from whatever peer: full and closed mailboxes,
  unknown peers, unintelligible data, IO actors that were cancelled or panicked.\<close>

theorem server_panics_exactly_on_fatal_items:
  assumes "server_env_law env ra wa ua ea" and "receiver_open (unbounded_send env)"
    and timer: "interval (udp_heartbeat_interval cfg) = Inr ()"
    and "admissible (server_next env) (vetted env) (server_state_new cfg tx rt uc ut) rx"
  shows "if admissible (server_next env) (\<lambda>st x. \<not> fatal st x) (server_state_new cfg tx rt uc ut) rx
    then \<exists>st. server_actor env interval cfg tx rt uc ut rx = Running st
    else \<exists>p. server_actor env interval cfg tx rt uc ut rx = Panicked p"
proof -
  have "base_inv env ra wa ua ea (server_state_new cfg tx rt uc ut)"
    using safe_inv_new [OF assms(1,2)] by (simp add: safe_inv_live live_inv_def)
  from run_panics_iff_fatal [OF this assms(4)] show ?thesis
    by (simp only: server_actor_run [where interval = interval, OF timer])
qed

theorem server_panics_exactly_on_fatal_items_witness:
  "\<exists>p. server_actor (num_env True) (\<lambda>_. Inr ()) config_default [] 0 (\<lambda>_. []) 1 (map Some ref_inputs @
      [Some (EndOfStream (EofTcpReader (PeerUid 0) (Erratic Panic)), num_spawned 6 0),
       Some (EndOfStream (EofTcpReader (PeerUid 0) (Controlled ReadSignalled)), num_spawned 6 0)]) = Panicked p"
  (is "\<exists>p. server_actor ?env ?timer ?cfg [] 0 ?utx 1 ?rx = Panicked p")
proof -
  have "admissible (server_next ?env) (vetted ?env) num_new ?rx"
    and fatal: "\<not> admissible (server_next ?env) (\<lambda>st x. \<not> fatal st x) num_new ?rx"
    by (simp_all add: ref_eval ref_conditions vetted_def)
  from server_panics_exactly_on_fatal_items [OF ref_env_law(1) ref_env_law(5) refl this(1) [unfolded ref_new_def]]
    fatal [unfolded ref_new_def]
  show ?thesis by simp
qed

text \<open>C9: whatever the environment does, the number of connected peers never exceeds the configured
  maximum.\<close>

theorem server_within_capacity:
  assumes "server_actor env interval cfg tx rt uc ut rx = Running st"
  shows "hm_len (peers st) \<le> max_connections cfg"
  using assms
proof (rule server_actor_RunningE)
  fix "is"
  assume run: "run_loop (server_step env) (server_state_new cfg tx rt uc ut) is = Running st"
  have "capacity_inv cfg (server_state_new cfg tx rt uc ut)"
    by (simp add: capacity_inv_def server_state_new_def Let_def) (simp add: hm_defs)
  with run capacity.run_keeps [OF admissible_trivial] show ?thesis
    by (fastforce simp: capacity_inv_def)
qed

theorem server_within_capacity_witness: "hm_len (peers num_two) \<le> max_connections config_default"
  by (rule server_within_capacity [OF ref_actor])

text \<open>C3: the events the server emits are a word of the presence machine, and the machine's state
  after them is the server's: exactly the connected peers have been reported as new and not as
  disconnected, only connected peers disconnect, UDP messages come from connected peers and TCP
  messages from admitted ones. This holds for the runs \<open>events_ok\<close> admits: a new connection has an
  address and a UUID that no connected peer has, fewer than 2^64 connections are made, TCP items come
  from the streams of admitted peers, and no peer says Hello from a second UDP address. Without the last
  condition it fails: after such a Hello a UDP message can be reported for a peer that is gone.\<close>

theorem server_events_refine_presence:
  assumes "try_send_law (unbounded_send env) ea"
    and "admissible (server_step env) events_ok (server_state_new cfg tx rt uc ut) is"
    and "server_actor env interval cfg tx rt uc ut (map Some is) = Running st"
  shows "\<exists>es. ea (event_sender st) = ea tx @ es \<and>
    replay presence_act ({}, 0) es = Some (dom (hm_get (peers st)), uid_nat (next_peer_uid st))"
proof -
  from assms(3) have "run_loop (server_step env) (server_state_new cfg tx rt uc ut) is = Running st"
    by (simp add: server_actor_Running)
  from presence.run_logs [OF assms(2) presence_inv_new [OF assms(1)] this] show ?thesis
    unfolding presence_new by (simp add: presence_def dom_connected) (simp add: server_state_new_def Let_def)
qed

theorem server_events_refine_presence_witness:
  "\<exists>es. event_sender num_two = [] @ es \<and>
    replay presence_act ({}, 0) es = Some (dom (hm_get (peers num_two)), uid_nat (next_peer_uid num_two))"
  using server_events_refine_presence [OF ref_env_events_law
    ref_events_ok [unfolded ref_new_def] ref_actor] .

text \<open>C18: the UIDs of the peers announced during a run are 0, 1, 2, ... without a gap or a
  repetition, up to the counter.\<close>

theorem server_uids_consecutive:
  assumes "try_send_law (unbounded_send env) ea" and "ea tx = []"
    and "admissible (server_step env) events_ok (server_state_new cfg tx rt uc ut) is"
    and "server_actor env interval cfg tx rt uc ut (map Some is) = Running st"
  shows "map uid_nat (admitted_uids (ea (event_sender st))) = [0 ..< uid_nat (next_peer_uid st)]"
proof -
  from assms(4) have "run_loop (server_step env) (server_state_new cfg tx rt uc ut) is = Running st"
    by (simp add: server_actor_Running)
  from presence.run_logs [OF assms(3) presence_inv_new [OF assms(1)] this] assms(2)
  have "replay presence_act ({}, 0) (ea (event_sender st)) = Some (presence st)"
    by simp (simp add: server_state_new_def Let_def)
  then show ?thesis unfolding presence_def by (rule presence_admitted)
qed

theorem server_uids_consecutive_witness:
  "map uid_nat (admitted_uids (event_sender num_two)) = [0 ..< uid_nat (next_peer_uid num_two)]"
  by (rule server_uids_consecutive [OF ref_env_events_law
    refl ref_events_ok [unfolded ref_new_def] ref_actor])

section \<open>Connections and the UDP handshake\<close>

text \<open>C13: a connection is admitted exactly when there is room. Then the peer is stored under the next
  UID without a UDP address, its handshake UUID leads to it, the Welcome message with that UUID is
  the only message in its write actor's mailbox, and NewPeer is emitted. Otherwise the state is
  unchanged and nothing is sent.\<close>

theorem new_connection_admitted_iff_room:
  fixes env :: "('rtx, 'wtx, 'utx, 'etx, 'tts, 'tfs, 'uts, 'ufs) server_env"
  assumes "safe_inv env ra wa ua ea st" and "receiver_open (wr_try_send env)"
    and "benign ra wa st (TcpListener (Inr stream) :: ('tts, 'tfs, 'uts, 'ufs) incoming, new)"
    and "peer_addr stream = Inr addr"
  shows "\<exists>st'. server_step env st (TcpListener (Inr stream), new) = Running st' \<and>
    (if hm_len (peers st) < max_connections (config st)
     then \<exists>p. hm_get (peers st') = (hm_get (peers st))(next_peer_uid st \<mapsto> p) \<and>
       tcp_socket_addr p = addr \<and> udp_socket_addr p = None \<and>
       hm_get (peer_handshake_uuid_to_peer_uid st') (new_v4 new) = Some (next_peer_uid st) \<and>
       wa (wr_actor_msg_tx (tcp_write_actor_handle p)) = [Send (TcpWelcome (new_v4 new))] \<and>
       ea (event_sender st') = ea (event_sender st) @ [NewPeer \<lparr>new_peer_uid = next_peer_uid st\<rparr>] \<and>
       udp_write_actor st' = udp_write_actor st
     else st' = st)"
proof -
  from server_step_safe [OF assms(1,3)] obtain st' where
    run: "server_step env st (TcpListener (Inr stream), new) = Running st'" by blast
  from run obtain su where
    hand: "handle_new_tcp_connection env new stream st = Inr su" and "loop_top env (su, []) = Inr st'"
    by (auto simp: server_step_Running)
  then have st': "handle_new_tcp_connection env new stream st = Inr st'" by (auto simp: loop_top_Inr)
  show ?thesis
  proof (cases "hm_len (peers st) < max_connections (config st)")
    case False
    with st' run assms(4) show ?thesis by (simp add: new_connection_rejected)
  next
    case True
    from accept_connection_state [OF assms(1,3,4) True assms(2) st'] True run show ?thesis by simp
  qed
qed

theorem new_connection_admitted_iff_room_witness:
  "\<exists>st'. server_step (num_env True) num_new (TcpListener (Inr (ref_stream 1)), num_spawned 2 100) = Running st' \<and>
    (if hm_len (peers num_new) < max_connections (config num_new)
     then \<exists>p. hm_get (peers st') = (hm_get (peers num_new))(next_peer_uid num_new \<mapsto> p) \<and>
       tcp_socket_addr p = ref_addr 1 \<and> udp_socket_addr p = None \<and>
       hm_get (peer_handshake_uuid_to_peer_uid st') (new_v4 (num_spawned 2 100)) = Some (next_peer_uid num_new) \<and>
       wr_actor_msg_tx (tcp_write_actor_handle p) = [Send (TcpWelcome (new_v4 (num_spawned 2 100)))] \<and>
       event_sender st' = event_sender num_new @ [NewPeer \<lparr>new_peer_uid = next_peer_uid num_new\<rparr>] \<and>
       udp_write_actor st' = udp_write_actor num_new
     else st' = num_new)"
  by (rule new_connection_admitted_iff_room [OF ref_safe_new ref_env_law(3)])
    (simp_all add: ref_conditions ref_eval)

text \<open>C14: a Hello, on every branch and in every state. With a UUID that the server does not know, or whose
  peer is not connected, it changes nothing. With the UUID of a connected peer it gives that peer the
  sender's address and makes the address lead to it, posts an acknowledgement to the peer's TCP write actor
  and a Welcome for the address to the UDP write actor, and changes nothing else. Where one of the two
  mailboxes refuses its message (full or closed) that message is lost and everything else happens all the
  same: the address is recorded. In a well-formed state the peer found is the one that carries the UUID.\<close>

theorem hello_all_branches:
  assumes "try_send_law (wr_try_send env) wa" and "try_send_law (udp_try_send env) ua"
  shows "case hm_get (peer_handshake_uuid_to_peer_uid st) uuid of
      None \<Rightarrow> handle_udp_reader_stream_item env (UdpHello uuid) addr st = Inr st
    | Some u \<Rightarrow>
        (case hm_get (peers st) u of
           None \<Rightarrow> handle_udp_reader_stream_item env (UdpHello uuid) addr st = Inr st
         | Some p \<Rightarrow> \<exists>q st'. handle_udp_reader_stream_item env (UdpHello uuid) addr st = Inr st' \<and>
             st' = st\<lparr>peers := peers st',
               peer_udp_socket_addr_to_peer_uid := peer_udp_socket_addr_to_peer_uid st',
               udp_write_actor := udp_write_actor st'\<rparr> \<and>
             hm_get (peers st') = (hm_get (peers st))(u \<mapsto> q) \<and>
             q = p\<lparr>udp_socket_addr := Some addr, tcp_write_actor_handle := tcp_write_actor_handle q\<rparr> \<and>
             hm_get (peer_udp_socket_addr_to_peer_uid st') =
               (hm_get (peer_udp_socket_addr_to_peer_uid st))(addr \<mapsto> u) \<and>
             wa (wr_actor_msg_tx (tcp_write_actor_handle q)) =
               wa (wr_actor_msg_tx (tcp_write_actor_handle p)) @
               taken (wr_try_send env) (wr_actor_msg_tx (tcp_write_actor_handle p))
                 (Send UdpHandshakeAcknowledged) \<and>
             ua (wr_actor_msg_tx (udp_write_actor st')) = ua (wr_actor_msg_tx (udp_write_actor st)) @
               taken (udp_try_send env) (wr_actor_msg_tx (udp_write_actor st)) (Send (UdpWelcome, addr)) \<and>
             (server_wf st \<longrightarrow> handshake_uuid p = uuid))"
proof (cases "hm_get (peer_handshake_uuid_to_peer_uid st) uuid")
  case None
  then show ?thesis by simp
next
  case known: (Some u)
  show ?thesis
  proof (cases "hm_get (peers st) u")
    case None
    with known show ?thesis by simp
  next
    case p: (Some p)
    have "handshake_uuid p = uuid" if "server_wf st"
    proof -
      from that have "index_sound uuid_key (connected st) (hm_get (peer_handshake_uuid_to_peer_uid st))"
        by (simp add: server_wf_def indices_agree_def)
      from index_soundD [OF this known] p show ?thesis by (auto simp: connected_Some)
    qed
    moreover from hello_exact [OF assms known p, of addr] obtain wh uh where
      "handle_udp_reader_stream_item env (UdpHello uuid) addr st = Inr (greeted_state u p addr wh uh st)"
      "wa (wr_actor_msg_tx wh) = wa (wr_actor_msg_tx (tcp_write_actor_handle p)) @
        taken (wr_try_send env) (wr_actor_msg_tx (tcp_write_actor_handle p)) (Send UdpHandshakeAcknowledged)"
      "ua (wr_actor_msg_tx uh) = ua (wr_actor_msg_tx (udp_write_actor st)) @
        taken (udp_try_send env) (wr_actor_msg_tx (udp_write_actor st)) (Send (UdpWelcome, addr))"
      by blast
    ultimately show ?thesis
      unfolding known p option.case
      by (intro exI [of _ "p\<lparr>udp_socket_addr := Some addr, tcp_write_actor_handle := wh\<rparr>"]
          exI [of _ "greeted_state u p addr wh uh st"]) (simp add: greeted_state_def)
  qed
qed

theorem hello_all_branches_witness:
  "\<exists>q st'. handle_udp_reader_stream_item (num_env True) (UdpHello 200) (ref_addr 12) num_two = Inr st' \<and>
     hm_get (peers st') = (hm_get (peers num_two))(PeerUid 1 \<mapsto> q) \<and> udp_socket_addr q = Some (ref_addr 12) \<and>
     hm_get (peer_udp_socket_addr_to_peer_uid st') (ref_addr 12) = Some (PeerUid 1) \<and>
     wr_actor_msg_tx (udp_write_actor st') =
       wr_actor_msg_tx (udp_write_actor num_two) @ [Send (UdpWelcome, ref_addr 12)]"
proof -
  have known: "hm_get (peer_handshake_uuid_to_peer_uid num_two) 200 = Some (PeerUid 1)"
    by (simp add: ref_two_def hm_get_def)
  from hello_all_branches [OF ref_env_wr_law [of True] ref_env_udp_law [of True],
      where st = num_two and uuid = 200 and addr = "ref_addr 12", unfolded known option.case ref_two_get]
  obtain q st' where
    "handle_udp_reader_stream_item (num_env True) (UdpHello 200) (ref_addr 12) num_two = Inr st'"
    "hm_get (peers st') = (hm_get (peers num_two))(PeerUid 1 \<mapsto> q)"
    and q: "q = (ref_peer 2 4 200)
      \<lparr>udp_socket_addr := Some (ref_addr 12), tcp_write_actor_handle := tcp_write_actor_handle q\<rparr>"
    and "hm_get (peer_udp_socket_addr_to_peer_uid st') =
      (hm_get (peer_udp_socket_addr_to_peer_uid num_two))(ref_addr 12 \<mapsto> PeerUid 1)"
    "wr_actor_msg_tx (udp_write_actor st') = wr_actor_msg_tx (udp_write_actor num_two) @
      taken (udp_try_send (num_env True)) (wr_actor_msg_tx (udp_write_actor num_two)) (Send (UdpWelcome, ref_addr 12))"
    by (elim exE conjE) (rule that)
  moreover from q have "udp_socket_addr q = Some (ref_addr 12)" by (metis peer.select_convs(2) peer.surjective peer.update_convs(2,4))
  ultimately show ?thesis
    by (intro exI [of _ q] exI [of _ st'] conjI) (simp_all only: taken_open ref_env_law map_upd_Some_unfold fun_upd_same)
qed

text \<open>C17: in a debug build, from a well-formed state, a Hello makes the broker panic at the top of its next
  round exactly when its UUID is that of a connected peer, its address is not yet in the index of UDP
  addresses, and every connected peer, this one included, is already found through that index: the
  peer's old address stays in the index, which is then larger than the map of peers. While some peer has
  not greeted, a second Hello from another address passes the check unnoticed.\<close>

theorem second_hello_panics_debug_build:
  assumes wf: "server_wf st" and debug: "debug_assertions env"
    and laws: "try_send_law (wr_try_send env) wa" "try_send_law (udp_try_send env) ua"
  shows "if hm_get (peer_handshake_uuid_to_peer_uid st) uuid \<noteq> None \<and>
      hm_get (peer_udp_socket_addr_to_peer_uid st) addr = None \<and>
      dom (hm_get (peers st)) \<subseteq> ran (hm_get (peer_udp_socket_addr_to_peer_uid st))
    then server_step env st (UdpReader (StreamItem (Inr (UdpHello uuid), addr)), new) = Panicked AssertFailed
    else \<exists>st'. server_step env st (UdpReader (StreamItem (Inr (UdpHello uuid), addr)), new) = Running st'"
proof (cases "hm_get (peer_handshake_uuid_to_peer_uid st) uuid")
  case None
  with wf_assert_invariants [OF wf] show ?thesis
    by (simp add: server_step_def server_round_def keep_def loop_top_def)
next
  case known: (Some u)
  from wf have "index_sound uuid_key (connected st) (hm_get (peer_handshake_uuid_to_peer_uid st))"
    by (simp add: server_wf_def indices_agree_def)
  from index_soundD [OF this known] obtain p where p: "hm_get (peers st) u = Some p"
    by (auto simp: connected_Some)
  from rehello_state [OF laws known p, of addr] obtain wh uh where
    "handle_udp_reader_stream_item env (UdpHello uuid) addr st = Inr (greeted_state u p addr wh uh st)"
    by blast
  then have "server_step env st (UdpReader (StreamItem (Inr (UdpHello uuid), addr)), new) =
      to_flow (and_then (assert_invariants (greeted_state u p addr wh uh st))
        (\<lambda>_. Inr (greeted_state u p addr wh uh st)))"
    using debug by (simp add: server_step_def server_round_def keep_def loop_top_def)
  with greeted_assertions [OF wf p, of addr wh uh] known udp_index_full [OF wf] show ?thesis by simp
qed

theorem second_hello_panics_debug_build_witness:
  "server_step (num_env True) num_both (UdpReader (StreamItem (Inr (UdpHello 100), ref_addr 13)), num_spawned 6 0) =
     Panicked AssertFailed \<and>
   (\<exists>st'. server_step (num_env True) num_two (UdpReader (StreamItem (Inr (UdpHello 100), ref_addr 13)), num_spawned 6 0) =
     Running st')"
proof
  have "PeerUid 0 \<in> ran (hm_get (peer_udp_socket_addr_to_peer_uid num_both))"
    "PeerUid 1 \<in> ran (hm_get (peer_udp_socket_addr_to_peer_uid num_both))"
    by (rule ranI [of _ "ref_addr 11"], simp add: ref_both_def hm_get_def)
      (rule ranI [of _ "ref_addr 12"], simp add: ref_both_def hm_get_def)
  then have "dom (hm_get (peers num_both)) \<subseteq> ran (hm_get (peer_udp_socket_addr_to_peer_uid num_both))"
    by (auto simp: ref_both_def hm_get_def split: if_splits)
  moreover have "hm_get (peer_handshake_uuid_to_peer_uid num_both) 100 \<noteq> None"
    "hm_get (peer_udp_socket_addr_to_peer_uid num_both) (ref_addr 13) = None"
    by (simp_all add: ref_both_def ref_two_def hm_get_def)
  ultimately show "server_step (num_env True) num_both
      (UdpReader (StreamItem (Inr (UdpHello 100), ref_addr 13)), num_spawned 6 0) = Panicked AssertFailed"
    using second_hello_panics_debug_build [where st = num_both and env = "num_env True" and uuid = 100 and
      addr = "ref_addr 13" and new = "num_spawned 6 0", OF ref_wf_both _ ref_env_wr_law ref_env_udp_law] by simp
next
  have "PeerUid 1 \<in> dom (hm_get (peers num_two))" "PeerUid 1 \<notin> ran (hm_get (peer_udp_socket_addr_to_peer_uid num_two))"
    by (auto simp: ref_two_def hm_get_def ran_def split: if_splits)
  then show "\<exists>st'. server_step (num_env True) num_two
      (UdpReader (StreamItem (Inr (UdpHello 100), ref_addr 13)), num_spawned 6 0) = Running st'"
    using second_hello_panics_debug_build [where st = num_two and env = "num_env True" and uuid = 100 and
      addr = "ref_addr 13" and new = "num_spawned 6 0", OF ref_wf_two _ ref_env_wr_law ref_env_udp_law]
    by (auto split: if_splits)
qed

text \<open>C10: in a release build the stale entry outlives the peer: after the second Hello and the peer's
  disconnect, a UDP message from the old address is still reported as a message of the peer that
  is gone.\<close>

theorem second_hello_revives_dropped_peer:
  assumes law: "server_env_law env ra wa ua ea" and opened: "receiver_open (unbounded_send env)"
    and release: "\<not> debug_assertions env"
    and uuid: "hm_get (peer_handshake_uuid_to_peer_uid st) uuid = Some u"
    and p: "hm_get (peers st) u = Some p"
    and old: "hm_get (peer_udp_socket_addr_to_peer_uid st) old = Some u" and "old \<noteq> addr"
  shows "\<exists>st'. run_loop (server_step env) st
      [(UdpReader (StreamItem (Inr (UdpHello uuid), addr)), n1),
       (TcpReader (StreamItem (Inl err)) u, n2),
       (UdpReader (StreamItem (Inr (UdpToServerApplicationLogic m), old)), n3)] = Running st' \<and>
    hm_get (peers st') u = None \<and>
    ea (event_sender st') = ea (event_sender st) @
      [PeerDisconnect \<lparr>disconnected_uid = u, disconnect_reason = PeerSubmittedUnintelligibleData\<rparr>,
       UdpMessage \<lparr>message_from = u, message_body = m\<rparr>]"
proof -
  note laws = server_env_lawD [OF law]
  from rehello_state [OF laws(2,3) uuid p, of addr] obtain wh uh where
    hello: "handle_udp_reader_stream_item env (UdpHello uuid) addr st = Inr (greeted_state u p addr wh uh st)"
    by blast
  let ?s1 = "greeted_state u p addr wh uh st"
  obtain s2 where drop: "drop_peer env u PeerSubmittedUnintelligibleData ?s1 = Inr s2"
    using drop_peer_total [OF laws(1,2) opened] by blast
  have "hm_get (peers ?s1) u = Some (p\<lparr>udp_socket_addr := Some addr, tcp_write_actor_handle := wh\<rparr>)"
    by simp
  from drop_peer_effects [OF law drop this]
  have ev2: "ea (event_sender s2) = ea (event_sender st) @
      [PeerDisconnect \<lparr>disconnected_uid = u, disconnect_reason = PeerSubmittedUnintelligibleData\<rparr>]" by simp
  note gone = rehello_then_drop [OF old \<open>old \<noteq> addr\<close> drop]
  obtain s3 where emit: "emit_event env (UdpMessage \<lparr>message_from = u, message_body = m\<rparr>) s2 = Inr s3"
    using emit_event_total [OF opened] by blast
  then obtain tx where "unbounded_send env (event_sender s2)
      (UdpMessage \<lparr>message_from = u, message_body = m\<rparr>) = (tx, None)" "s3 = s2\<lparr>event_sender := tx\<rparr>"
    by (auto simp: emit_event_Inr)
  with try_send_law_ok [OF laws(4) this(1)] ev2 gone(1)
  have "hm_get (peers s3) u = None \<and> ea (event_sender s3) = ea (event_sender st) @
      [PeerDisconnect \<lparr>disconnected_uid = u, disconnect_reason = PeerSubmittedUnintelligibleData\<rparr>,
       UdpMessage \<lparr>message_from = u, message_body = m\<rparr>]" by simp
  moreover have "server_step env st (UdpReader (StreamItem (Inr (UdpHello uuid), addr)), n1) = Running ?s1"
    using hello release by (simp add: server_step_Running loop_top_Inr)
  moreover have "server_step env ?s1 (TcpReader (StreamItem (Inl err)) u, n2) = Running s2"
    using drop release by (simp add: server_step_Running loop_top_Inr)
  moreover have "server_step env s2 (UdpReader (StreamItem (Inr (UdpToServerApplicationLogic m), old)), n3) =
      Running s3"
    using gone(2) emit release by (simp add: server_step_Running loop_top_Inr)
  ultimately show ?thesis by simp
qed

theorem second_hello_revives_dropped_peer_witness:
  "\<exists>st'. run_loop (server_step (num_env False)) num_both
      [(UdpReader (StreamItem (Inr (UdpHello 100), ref_addr 13)), num_spawned 6 0),
       (TcpReader (StreamItem (Inl (TcpBincode ''bad''))) (PeerUid 0), num_spawned 6 0),
       (UdpReader (StreamItem (Inr (UdpToServerApplicationLogic 7), ref_addr 11)), num_spawned 6 0)] = Running st' \<and>
    hm_get (peers st') (PeerUid 0) = None \<and>
    event_sender st' = event_sender num_both @
      [PeerDisconnect \<lparr>disconnected_uid = PeerUid 0, disconnect_reason = PeerSubmittedUnintelligibleData\<rparr>,
       UdpMessage \<lparr>message_from = PeerUid 0, message_body = 7\<rparr>]"
  by (rule second_hello_revives_dropped_peer [OF ref_env_law(1) ref_env_law(5), where p = ref_greeted])
    (simp_all add: ref_both_def ref_eval)

section \<open>Commands of the application\<close>

text \<open>C19: an announcement over TCP posts a clone of the message once to the write actor of every
  connected peer (or, where that mailbox is full or closed, not at all), and changes nothing else.\<close>

theorem announce_tcp_reaches_every_peer:
  assumes iter: "iter_law (iter_order env)" and wf: "server_wf st" and law: "try_send_law (wr_try_send env) wa"
    and run: "handle_actor_message env (AnnounceTcp msg) st = Inr st'"
  shows "st' = st\<lparr>peers := peers st'\<rparr> \<and>
    (case hm_get (peers st) u of
       None \<Rightarrow> hm_get (peers st') u = None
     | Some p \<Rightarrow> \<exists>q xs. hm_get (peers st') u = Some q \<and>
         q = p\<lparr>tcp_write_actor_handle := tcp_write_actor_handle q\<rparr> \<and>
         wa (wr_actor_msg_tx (tcp_write_actor_handle q)) =
           wa (wr_actor_msg_tx (tcp_write_actor_handle p)) @ xs \<and>
         xs \<in> {[], [Send (TcpFromServerApplicationLogic (clone_tfs env msg))]} \<and>
         (receiver_open (wr_try_send env) \<longrightarrow> xs \<noteq> []))"
proof -
  from wf have "hm_wf (peers st)" by (simp add: server_wf_def maps_wf_def)
  note spec = announce_tcp_spec [OF iter this run [unfolded handle_actor_message.simps]]
  show ?thesis
  proof (cases "hm_get (peers st) u")
    case None
    with spec(1) spec(2) show ?thesis by simp
  next
    case (Some p)
    from spec(3) [OF this] obtain q where q: "hm_get (peers st') u = Some q"
      and sent: "sent_to_peer (wr_try_send env) (TcpFromServerApplicationLogic (clone_tfs env msg)) p q"
      by auto
    from sent have "q = p\<lparr>tcp_write_actor_handle := tcp_write_actor_handle q\<rparr>"
      by (auto simp: sent_to_peer_def)
    with sent_to_peer_history [OF law sent] q spec(1) Some show ?thesis by auto
  qed
qed

theorem announce_tcp_reaches_every_peer_witness:
  "\<exists>q xs. hm_get (peers num_said) (PeerUid 0) = Some q \<and>
     q = ref_greeted\<lparr>tcp_write_actor_handle := tcp_write_actor_handle q\<rparr> \<and>
     wr_actor_msg_tx (tcp_write_actor_handle q) =
       wr_actor_msg_tx (tcp_write_actor_handle ref_greeted) @ xs \<and>
     xs \<in> {[], [Send (TcpFromServerApplicationLogic 7)]} \<and> xs \<noteq> []"
proof -
  have "handle_actor_message (num_env True) (AnnounceTcp 7) num_two = Inr num_said" by (rule ref_said_run)
  from announce_tcp_reaches_every_peer [OF ref_env_law(6) ref_wf_two ref_env_wr_law this, of "PeerUid 0"]
  show ?thesis by (simp add: ref_env_law(3) [simplified] ref_two_get)
qed

text \<open>C20: an announcement over UDP, and a heartbeat on every tick of the timer, asks the UDP write actor for
  one feed per connected peer and then a flush. The datagrams are addressed to the peers' TCP addresses,
  and peers that have not greeted on UDP are included. Nothing else changes.\<close>

theorem announce_udp_feeds_tcp_addresses:
  assumes iter: "iter_law (iter_order env)" and law: "try_send_law (udp_try_send env) ua"
    and inc: "(inc, datagram) \<in> {(ActorMessage (AnnounceUdp msg), UdpFromServerApplicationLogic (clone_ufs env msg)),
      (UdpHeartbeat, Heartbeat)}"
    and run: "server_step env st (inc, new) = Running st'"
  shows "st' = st\<lparr>udp_write_actor := udp_write_actor st'\<rparr> \<and>
    (\<exists>us xs. mset us = mset (hm_keys (peers st)) \<and>
      ua (wr_actor_msg_tx (udp_write_actor st')) = ua (wr_actor_msg_tx (udp_write_actor st)) @ xs \<and>
      subseq xs (udp_round (\<lambda>p. (datagram, tcp_socket_addr p)) st us) \<and>
      (receiver_open (udp_try_send env) \<longrightarrow> xs = udp_round (\<lambda>p. (datagram, tcp_socket_addr p)) st us))"
proof -
  from inc run obtain m where "announce_udp env m st = Inr st'"
    and m: "clone_udp_from_server (clone_ufs env) m = datagram"
    by (auto simp: server_step_Running loop_top_Inr)
  from announce_udp_round [OF iter law this(1)] show ?thesis unfolding m .
qed

theorem announce_udp_feeds_tcp_addresses_witness:
  "\<exists>st' us. server_step (num_env True) num_two (UdpHeartbeat, num_spawned 6 0) = Running st' \<and>
     mset us = mset [PeerUid 0, PeerUid 1] \<and>
     wr_actor_msg_tx (udp_write_actor st') = wr_actor_msg_tx (udp_write_actor num_two) @
       udp_round (\<lambda>p. (Heartbeat, tcp_socket_addr p)) num_two us"
proof -
  obtain st' where run: "server_step (num_env True) num_two (UdpHeartbeat, num_spawned 6 0) = Running st'"
    by (simp add: ref_eval)
  have "(UdpHeartbeat, Heartbeat) \<in> {(ActorMessage (AnnounceUdp 7),
      UdpFromServerApplicationLogic (clone_ufs (num_env True) 7)), (UdpHeartbeat, Heartbeat)}" by simp
  from announce_udp_feeds_tcp_addresses [OF ref_env_law(6) ref_env_udp_law this run] run show ?thesis
    by (simp add: ref_env_law(4) [simplified] hm_keys_def) (auto simp: ref_two_def)
qed

text \<open>C27: a message to one peer. On TCP it is posted to that peer's write actor and to no other; on UDP
  it goes to the address the peer greeted from. For an unknown peer, or on UDP for a peer that has not
  greeted, it is discarded without a trace.\<close>

theorem message_peer_reaches_one_peer:
  assumes law: "try_send_law (wr_try_send env) wa" "try_send_law (udp_try_send env) ua"
    and tcp: "handle_actor_message env (ToPeerTcp u msg) st = Inr st'"
    and udp: "handle_actor_message env (ToPeerUdp u dmsg) st = Inr st''"
  shows "case hm_get (peers st) u of
      None \<Rightarrow> st' = st \<and> st'' = st
    | Some p \<Rightarrow> (\<exists>q xs. st' = st\<lparr>peers := peers st'\<rparr> \<and> hm_get (peers st') = (hm_get (peers st))(u \<mapsto> q) \<and>
          q = p\<lparr>tcp_write_actor_handle := tcp_write_actor_handle q\<rparr> \<and>
          wa (wr_actor_msg_tx (tcp_write_actor_handle q)) =
            wa (wr_actor_msg_tx (tcp_write_actor_handle p)) @ xs \<and>
          xs \<in> {[], [Send (TcpFromServerApplicationLogic msg)]} \<and>
          (receiver_open (wr_try_send env) \<longrightarrow> xs \<noteq> [])) \<and>
        (case udp_socket_addr p of
           None \<Rightarrow> st'' = st
         | Some addr \<Rightarrow> st'' = st\<lparr>udp_write_actor := udp_write_actor st''\<rparr> \<and>
             (\<exists>xs. ua (wr_actor_msg_tx (udp_write_actor st'')) = ua (wr_actor_msg_tx (udp_write_actor st)) @ xs \<and>
                xs \<in> {[], [Send (UdpFromServerApplicationLogic dmsg, addr)]} \<and>
                (receiver_open (udp_try_send env) \<longrightarrow> xs \<noteq> [])))"
  using message_peer_tcp [OF law(1) tcp] message_peer_udp [OF law(2) udp]
  by (auto split: option.splits)

theorem message_peer_reaches_one_peer_witness:
  "\<exists>st' st'' q xs. handle_actor_message (num_env True) (ToPeerTcp (PeerUid 0) 7) num_two = Inr st' \<and>
     handle_actor_message (num_env True) (ToPeerUdp (PeerUid 0) 8) num_two = Inr st'' \<and>
     hm_get (peers st') = (hm_get (peers num_two))(PeerUid 0 \<mapsto> q) \<and>
     wr_actor_msg_tx (udp_write_actor st'') = wr_actor_msg_tx (udp_write_actor num_two) @ xs \<and>
     xs \<in> {[], [Send (UdpFromServerApplicationLogic 8, ref_addr 11)]} \<and> xs \<noteq> []"
proof -
  obtain st' st'' where run: "handle_actor_message (num_env True) (ToPeerTcp (PeerUid 0) 7) num_two = Inr st'"
    "handle_actor_message (num_env True) (ToPeerUdp (PeerUid 0) 8) num_two = Inr st''"
    by (simp add: ref_eval)
  from message_peer_reaches_one_peer [OF ref_env_wr_law ref_env_udp_law run] run show ?thesis
    by (simp add: ref_env_law(4) [simplified] ref_two_get) (auto simp: ref_greeted_def ref_unbounded_send_law)
qed

text \<open>C8: whatever else happens, and however the inputs are interleaved, the application is given exactly
  the TCP messages that were delivered to the broker, each with its sender and in the order of their
  delivery; and of the UDP messages some, in that order, and no others.\<close>

theorem server_reports_messages_in_order:
  assumes law: "try_send_law (unbounded_send env) ea" and empty: "ea tx = []"
    and run: "server_actor env interval cfg tx rt uc ut (map Some is) = Running st"
  shows "concat (map tcp_reported (ea (event_sender st))) = concat (map tcp_input is) \<and>
    subseq (concat (map udp_reported (ea (event_sender st)))) (concat (map udp_input is))"
proof -
  from run have "run_loop (server_step env) (server_state_new cfg tx rt uc ut) is = Running st"
    by (simp add: server_actor_Running)
  from run_reports [OF law this] empty show ?thesis
    by (auto simp: reports_def server_state_new_def Let_def)
qed

theorem server_reports_messages_in_order_witness:
  "\<exists>st. server_actor (num_env True) (\<lambda>_. Inr ()) config_default [] 0 (\<lambda>_. []) 1 (map Some (ref_inputs @
      [(TcpReader (StreamItem (Inr (TcpToServerApplicationLogic 5))) (PeerUid 1), num_spawned 6 0),
       (UdpReader (StreamItem (Inr (UdpToServerApplicationLogic 6), ref_addr 11)), num_spawned 6 0),
       (UdpReader (StreamItem (Inr (UdpToServerApplicationLogic 7), ref_addr 99)), num_spawned 6 0)])) = Running st \<and>
    concat (map tcp_reported (event_sender st)) = [\<lparr>message_from = PeerUid 1, message_body = 5\<rparr>] \<and>
    subseq (concat (map udp_reported (event_sender st))) [6, 7]"
  (is "\<exists>st. server_actor ?env ?timer ?cfg [] 0 ?utx 1 (map Some ?is) = Running st \<and> _ st \<and> _ st")
proof -
  obtain st where "run_loop (server_step ?env) num_new ?is = Running st"
    by (simp add: run_loop_Running_append [OF ref_run]) (simp add: ref_eval)
  then have run: "server_actor ?env ?timer ?cfg [] 0 ?utx 1 (map Some ?is) = Running st"
    unfolding server_actor_Running ref_new_def by simp
  from server_reports_messages_in_order [OF ref_env_events_law refl run] run show ?thesis
    by (auto simp: ref_inputs_def)
qed
text \<open>C28: the number of connected peers that a handle obtains is the number of peers that are connected
  when the broker serves the request.\<close>

theorem get_number_counts_connected_peers:
  assumes law: "try_send_law ts acc" and opened: "receiver_open ts" and wf: "server_wf st"
    and run: "server_step env st (ActorMessage (GetNumberOfConnectedPeers tx), new) = Running st'"
    and await: "await tx = map_of (rev (replies st')) tx"
  shows "\<exists>h'. get_number_of_connected_peers ts await tx h = Inr (h', card (dom (hm_get (peers st)))) \<and>
    acc (server_sender h') = acc (server_sender h) @ [GetNumberOfConnectedPeers tx]"
proof -
  from wf have "hm_len (peers st) = card (dom (hm_get (peers st)))"
    by (simp add: server_wf_def maps_wf_def hm_len_card)
  with run have "replies st' = replies st @ [(tx, card (dom (hm_get (peers st))))]"
    by (auto simp: server_step_Running loop_top_Inr)
  with await have reply: "await tx = Some (card (dom (hm_get (peers st))))" by simp
  obtain h' where "server_post ts h (GetNumberOfConnectedPeers tx) = Inr h'"
    by (rule server_post_open [OF opened])
  with reply server_post_history [OF law this] show ?thesis
    by (simp add: get_number_of_connected_peers_def)
qed

theorem get_number_counts_connected_peers_witness:
  "\<exists>h'. get_number_of_connected_peers ref_unbounded_send (\<lambda>_. Some 2) 9 (server_handle_new 0 []) =
      Inr (h', card (dom (hm_get (peers num_two)))) \<and>
    server_sender h' = [] @ [GetNumberOfConnectedPeers 9 :: (nat, nat) server_message]"
proof -
  obtain st' where run:
    "server_step (num_env True) num_two (ActorMessage (GetNumberOfConnectedPeers 9), num_spawned 6 0) = Running st'"
    and await: "Some 2 = map_of (rev (replies st')) 9"
    by (simp add: ref_eval)
  from get_number_counts_connected_peers [where ts = ref_unbounded_send and h = "server_handle_new 0 []" and
      await = "\<lambda>_. Some 2", OF ref_unbounded_send_law ref_wf_two run await]
  show ?thesis by (simp add: server_handle_new_def)
qed

end
