(* ===== verification/ServerFaults.thy ===== *)
theory ServerFaults
  imports Reference ServerMessages
begin

text \<open>
  How the server ends connections, and what faults of its peers and sockets lead to: dropping a
  peer, unintelligible data, the end of IO actors, errors of the UDP socket. Each theorem with a
  hypothesis is applied to the reference broker.
\<close>

section \<open>Dropping a peer\<close>

text \<open>C12: dropping a peer, on every branch. An unknown peer: nothing happens. A connected one whose
  disconnect cannot be reported (the application has dropped its event receiver): the broker panics.
  Otherwise the peer leaves the map, its TCP address, its UDP address if it has one and its UUID leave
  the three indices, one PeerDisconnect with the reason is emitted, each of its two IO actors is asked
  to shut down once (where the actor's mailbox is full or closed the request is lost, and the rest
  happens all the same), and nothing else changes. On a well-formed state no index entry leads to
  the peer any more.\<close>

theorem drop_peer_removes_every_trace:
  assumes law: "server_env_law env ra wa ua ea"
  shows "case hm_get (peers st) u of
      None \<Rightarrow> drop_peer env u reason st = Inr st
    | Some p \<Rightarrow>
        (case unbounded_send env (event_sender st)
            (PeerDisconnect \<lparr>disconnected_uid = u, disconnect_reason = reason\<rparr>) of
           (tx, Some err) \<Rightarrow> drop_peer env u reason st = Inl Todo
         | (tx, None) \<Rightarrow> \<exists>st' rh wh. drop_peer env u reason st = Inr st' \<and>
             hm_get (peers st') = (hm_get (peers st))(u := None) \<and>
             hm_get (peer_tcp_socket_addr_to_peer_uid st') =
               (hm_get (peer_tcp_socket_addr_to_peer_uid st))(tcp_socket_addr p := None) \<and>
             hm_get (peer_udp_socket_addr_to_peer_uid st') =
               (case udp_socket_addr p of
                  None \<Rightarrow> hm_get (peer_udp_socket_addr_to_peer_uid st)
                | Some a \<Rightarrow> (hm_get (peer_udp_socket_addr_to_peer_uid st))(a := None)) \<and>
             hm_get (peer_handshake_uuid_to_peer_uid st') =
               (hm_get (peer_handshake_uuid_to_peer_uid st))(handshake_uuid p := None) \<and>
             ea (event_sender st') = ea (event_sender st) @
               [PeerDisconnect \<lparr>disconnected_uid = u, disconnect_reason = reason\<rparr>] \<and>
             dropped_peers st' = dropped_peers st @
               [(u, p\<lparr>tcp_read_actor_handle := rh, tcp_write_actor_handle := wh\<rparr>)] \<and>
             ra (rd_actor_msg_tx rh) = ra (rd_actor_msg_tx (tcp_read_actor_handle p)) @
               taken (rd_try_send env) (rd_actor_msg_tx (tcp_read_actor_handle p)) ReadShutdown \<and>
             wa (wr_actor_msg_tx wh) = wa (wr_actor_msg_tx (tcp_write_actor_handle p)) @
               taken (wr_try_send env) (wr_actor_msg_tx (tcp_write_actor_handle p)) WriteShutdown \<and>
             config st' = config st \<and> next_peer_uid st' = next_peer_uid st \<and> streams st' = streams st \<and>
             udp_write_actor st' = udp_write_actor st \<and> replies st' = replies st \<and>
             (server_wf st \<longrightarrow>
               (\<forall>a. hm_get (peer_tcp_socket_addr_to_peer_uid st') a \<noteq> Some u) \<and>
               (\<forall>a. hm_get (peer_udp_socket_addr_to_peer_uid st') a \<noteq> Some u) \<and>
               (\<forall>uuid. hm_get (peer_handshake_uuid_to_peer_uid st') uuid \<noteq> Some u)))"
proof (cases "hm_get (peers st) u")
  case None
  then show ?thesis by simp
next
  case p: (Some p)
  obtain tx res where ev: "unbounded_send env (event_sender st)
      (PeerDisconnect \<lparr>disconnected_uid = u, disconnect_reason = reason\<rparr>) = (tx, res)" by fastforce
  show ?thesis
  proof (cases res)
    case (Some err)
    with ev drop_peer_refused [OF law p] p show ?thesis by simp
  next
    case None
    with ev have sent: "unbounded_send env (event_sender st)
      (PeerDisconnect \<lparr>disconnected_uid = u, disconnect_reason = reason\<rparr>) = (tx, None)" by simp
    from drop_peer_exact [OF law p sent] obtain rh wh where
      run: "drop_peer env u reason st = Inr (left_state u p rh wh tx st)"
      and acc: "ra (rd_actor_msg_tx rh) = ra (rd_actor_msg_tx (tcp_read_actor_handle p)) @
          taken (rd_try_send env) (rd_actor_msg_tx (tcp_read_actor_handle p)) ReadShutdown"
        "wa (wr_actor_msg_tx wh) = wa (wr_actor_msg_tx (tcp_write_actor_handle p)) @
          taken (wr_try_send env) (wr_actor_msg_tx (tcp_write_actor_handle p)) WriteShutdown" by blast
    have clean: "server_wf st \<longrightarrow>
        (\<forall>a. hm_get (peer_tcp_socket_addr_to_peer_uid (left_state u p rh wh tx st)) a \<noteq> Some u) \<and>
        (\<forall>a. hm_get (peer_udp_socket_addr_to_peer_uid (left_state u p rh wh tx st)) a \<noteq> Some u) \<and>
        (\<forall>uuid. hm_get (peer_handshake_uuid_to_peer_uid (left_state u p rh wh tx st)) uuid \<noteq> Some u)"
      using drop_peer_clean(2-4) [OF _ run] by blast
    have "hm_get (peer_udp_socket_addr_to_peer_uid (left_state u p rh wh tx st)) =
        (case udp_socket_addr p of
           None \<Rightarrow> hm_get (peer_udp_socket_addr_to_peer_uid st)
         | Some a \<Rightarrow> (hm_get (peer_udp_socket_addr_to_peer_uid st))(a := None))"
      by (simp split: option.splits)
    with run acc clean try_send_law_ok [OF server_env_lawD(4) [OF law] sent] p sent show ?thesis
      by (simp only: option.case prod.case)
        (rule exI [of _ "left_state u p rh wh tx st"], rule exI [of _ rh], rule exI [of _ wh], simp)
  qed
qed

theorem drop_peer_removes_every_trace_witness:
  "\<exists>st'. drop_peer (num_env True) (PeerUid 0) PeerClosedConnection num_two = Inr st' \<and>
     hm_get (peers st') (PeerUid 0) = None \<and>
     hm_get (peer_udp_socket_addr_to_peer_uid st') (ref_addr 11) = None \<and>
     event_sender st' = event_sender num_two @
       [PeerDisconnect \<lparr>disconnected_uid = PeerUid 0, disconnect_reason = PeerClosedConnection\<rparr>]"
  using drop_peer_removes_every_trace [OF ref_env_law(1) [of True],
      where u = "PeerUid 0" and reason = PeerClosedConnection and st = num_two]
  by (fastforce simp: ref_two_get ref_unbounded_send_def ref_greeted_def)

section \<open>Unintelligible data\<close>

text \<open>C31: data from a peer that cannot be deserialized makes the broker drop that peer, and no other, before
  it awaits its next item. On TCP the peer is the one whose stream it is (nothing changes if it is
  already gone), on UDP the one that greeted from the source address (from any other address the
  datagram is ignored).\<close>

theorem garbage_disconnects_sender:
  assumes inv: "safe_inv env ra wa ua ea st"
  shows "(\<exists>st'. server_step env st (TcpReader (StreamItem (Inl err)) u, new) = Running st' \<and>
      disconnected_from ea u PeerSubmittedUnintelligibleData st st') \<and>
    (\<exists>st'. server_step env st (UdpReader (StreamItem (Inl derr, addr)), new) = Running st' \<and>
      (case hm_get (peer_udp_socket_addr_to_peer_uid st) addr of
         None \<Rightarrow> st' = st
       | Some v \<Rightarrow> hm_get (peers st) v \<noteq> None \<and>
           disconnected_from ea v PeerSubmittedUnintelligibleData st st'))"
proof
  show "\<exists>st'. server_step env st (TcpReader (StreamItem (Inl err)) u, new) = Running st' \<and>
      disconnected_from ea u PeerSubmittedUnintelligibleData st st'"
    using garbage_drops_peer [OF inv] by metis
  show "\<exists>st'. server_step env st (UdpReader (StreamItem (Inl derr, addr)), new) = Running st' \<and>
      (case hm_get (peer_udp_socket_addr_to_peer_uid st) addr of
         None \<Rightarrow> st' = st
       | Some v \<Rightarrow> hm_get (peers st) v \<noteq> None \<and>
           disconnected_from ea v PeerSubmittedUnintelligibleData st st')"
  proof (cases "hm_get (peer_udp_socket_addr_to_peer_uid st) addr")
    case None
    from inv have "assert_invariants st = Inr ()" by (simp add: safe_inv_def wf_assert_invariants)
    with None show ?thesis by (simp add: server_step_Running loop_top_Inr)
  next
    case (Some v)
    from inv have "index_sound udp_key (connected st) (hm_get (peer_udp_socket_addr_to_peer_uid st))"
      by (simp add: safe_inv_def server_wf_def indices_agree_def)
    from index_soundD [OF this Some] have found: "hm_get (peers st) v \<noteq> None" by (auto simp: connected_Some)
    have "server_dispatch env new (UdpReader (StreamItem (Inl derr, addr))) st =
        Inr (st, [(v, PeerSubmittedUnintelligibleData)])" using Some by simp
    then obtain st' where "server_step env st (UdpReader (StreamItem (Inl derr, addr)), new) = Running st'"
      and "disconnected_from ea v PeerSubmittedUnintelligibleData st st'"
      by (rule disconnect_step [OF inv])
    with Some found show ?thesis by auto
  qed
qed

theorem garbage_disconnects_sender_witness:
  "(\<exists>st'. server_step (num_env True) num_two
      (TcpReader (StreamItem (Inl (TcpBincode ''bad''))) (PeerUid 1), num_spawned 6 0) = Running st' \<and>
      disconnected_from (\<lambda>l. l) (PeerUid 1) PeerSubmittedUnintelligibleData num_two st') \<and>
   (\<exists>st'. server_step (num_env True) num_two
      (UdpReader (StreamItem (Inl (UdpBincode ''bad''), ref_addr 11)), num_spawned 6 0) = Running st' \<and>
      disconnected_from (\<lambda>l. l) (PeerUid 0) PeerSubmittedUnintelligibleData num_two st')"
  using garbage_disconnects_sender [OF ref_safe_two [of True], where addr = "ref_addr 11" and u = "PeerUid 1"
      and err = "TcpBincode ''bad''" and derr = "UdpBincode ''bad''" and new = "num_spawned 6 0"]
  by (auto simp: ref_two_def hm_get_def)

section \<open>The end of a connected peer's IO actors\<close>

text \<open>C29: the read actor of a connected peer, whose handle and receiver the broker holds, can only end
  because its TCP stream ended (the assertions of the broker on the other reasons hold); the broker
  then drops the peer as one that closed its connection.\<close>

theorem connected_reader_end_disconnects:
  assumes inv: "safe_inv env ra wa ua ea st" and p: "hm_get (peers st) u = Some p"
    and sink: "sink_law send accepted" "sink_open send"
    and rx: "rx \<in> shuffles (map RecvActorMessage (ra (rd_actor_msg_tx (tcp_read_actor_handle p)))) (read_stream_rx xs)"
    and run: "run_loop (read_actor_step send) tx (map Some rx) = Finished tx' r"
  shows "r = ReadEndOfStream \<and>
    (\<exists>st'. server_step env st (EndOfStream (EofTcpReader u (Controlled r)), new) = Running st' \<and>
       disconnected_from ea u PeerClosedConnection st st')"
proof -
  from inv p have "quiet_peer ra wa p" by (simp add: safe_inv_def handles_quiet_def)
  with held_read_actor_reason [where ra = ra and p = p, OF sink rx run] have r: "r = ReadEndOfStream"
    by (cases r) (simp_all add: quiet_peer_def)
  have "server_dispatch env new (EndOfStream (EofTcpReader u (Controlled r))) st =
      Inr (st, [(u, PeerClosedConnection)])" by (simp add: r)
  then obtain st' where "server_step env st (EndOfStream (EofTcpReader u (Controlled r)), new) = Running st'"
    and "disconnected_from ea u PeerClosedConnection st st'"
    by (rule disconnect_step [OF inv])
  with r show ?thesis by blast
qed

theorem connected_reader_end_disconnects_witness:
  "\<exists>st'. server_step (num_env True) num_two
      (EndOfStream (EofTcpReader (PeerUid 0) (Controlled ReadEndOfStream)), num_spawned 6 0) = Running st' \<and>
    disconnected_from (\<lambda>l. l) (PeerUid 0) PeerClosedConnection num_two st'"
proof -
  have "[RecvStreamItem 5, RecvEndOfStream ReadKindStream] \<in>
      shuffles (map RecvActorMessage (rd_actor_msg_tx (tcp_read_actor_handle (ref_greeted :: (ref_rtx, nat ref_wtx) peer))))
        (read_stream_rx [5 :: nat])"
    by (simp add: read_stream_rx_def ref_greeted_def ref_peer_def)
  moreover have "run_loop (read_actor_step ref_send_open) []
      (map Some [RecvStreamItem (5 :: nat), RecvEndOfStream ReadKindStream]) = Finished [StreamItem 5] ReadEndOfStream"
    by (simp add: ref_send_open_def)
  ultimately show ?thesis
    using connected_reader_end_disconnects [OF ref_safe_two ref_two_get(1) ref_send_open_law] by blast
qed

text \<open>C30: the write actor of a connected peer can only end because its sink failed; the broker then
  drops the peer as one that closed its connection.\<close>

theorem connected_writer_end_disconnects:
  assumes inv: "safe_inv env ra wa ua ea st" and p: "hm_get (peers st) u = Some p"
    and sink: "sink_ops_law emb written ops"
    and run: "run_loop (write_actor_step ops) k
      (map Some (wa (wr_actor_msg_tx (tcp_write_actor_handle p)))) = Finished k' r"
  shows "r = SinkError \<and>
    (\<exists>st'. server_step env st (EndOfStream (EofTcpWriter u (Controlled r)), new) = Running st' \<and>
       disconnected_from ea u PeerClosedConnection st st')"
proof -
  from inv p have "quiet_peer ra wa p" by (simp add: safe_inv_def handles_quiet_def)
  with held_write_actor_reason [where wa = wa and p = p, OF run] have r: "r = SinkError"
    by (cases r) (simp_all add: quiet_peer_def)
  have "server_dispatch env new (EndOfStream (EofTcpWriter u (Controlled r))) st =
      Inr (st, [(u, PeerClosedConnection)])" by (simp add: r)
  then obtain st' where "server_step env st (EndOfStream (EofTcpWriter u (Controlled r)), new) = Running st'"
    and "disconnected_from ea u PeerClosedConnection st st'"
    by (rule disconnect_step [OF inv])
  with r show ?thesis by blast
qed

theorem connected_writer_end_disconnects_witness:
  "\<exists>st'. server_step (num_env True) num_two
      (EndOfStream (EofTcpWriter (PeerUid 0) (Controlled SinkError)), num_spawned 6 0) = Running st' \<and>
    disconnected_from (\<lambda>l. l) (PeerUid 0) PeerClosedConnection num_two st'"
proof -
  have "run_loop (write_actor_step ref_broken) []
      (map Some (wr_actor_msg_tx (tcp_write_actor_handle (ref_greeted :: (ref_rtx, nat ref_wtx) peer)))) =
      Finished [] SinkError"
    by (simp add: ref_greeted_def ref_broken_def)
  then show ?thesis
    using connected_writer_end_disconnects [OF ref_safe_two ref_two_get(1) ref_broken_law] by blast
qed

section \<open>The server's UDP socket\<close>

text \<open>C32: an error of the server's UDP socket takes the whole server down: the stream panics inside the
  UDP read actor, the actor's task ends in a panic, and the broker panics on that.\<close>

theorem udp_socket_error_panics_server:
  assumes "run_loop (udp_read_actor_step de send) tx rx = Running tx'"
  shows "\<exists>result reason.
    task_result (run_loop (udp_read_actor_step de send) tx (rx @ Some (RecvStreamItem (Inl e)) # later)) = Some result \<and>
    actor_shutdown_from_join result = Inr reason \<and>
    server_step env st (EndOfStream (EofUdpReader reason), new) =
      Panicked (PanicWith ''UDP read actor panicked.'')"
  using udp_socket_error_kills_reader [OF assms] udp_reader_panic_kills_broker
    shutdown_of_task(2) by (metis task_result.simps(3))

theorem udp_socket_error_panics_server_witness:
  "\<exists>result reason.
    task_result (run_loop (udp_read_actor_step ref_deserialize ref_send_open) []
      ([Some (RecvStreamItem (Inr ([7], ref_addr 11)))] @ Some (RecvStreamItem (Inl ''recv'')) # [None])) = Some result \<and>
    actor_shutdown_from_join result = Inr reason \<and>
    server_step (num_env True) num_two (EndOfStream (EofUdpReader reason), num_spawned 6 0) =
      Panicked (PanicWith ''UDP read actor panicked.'')"
  by (rule udp_socket_error_panics_server) (simp add: udp_read_actor_step_def ref_send_open_def)



section \<open>An application that is gone\<close>

lemma message_needs_receiver:
  assumes gone: "receiver_gone (unbounded_send env)" and run: "server_step env st i = Running st'"
  shows "tcp_input i = []"
proof (cases i rule: tcp_input.cases)
  case (1 m u new)
  with gone have "server_step env st i = Panicked Todo"
    by (simp add: server_step_def server_round_def keep_def)
  with run show ?thesis by simp
qed simp_all

lemma messages_need_receiver:
  assumes gone: "receiver_gone (unbounded_send env)"
  shows "run_loop (server_step env) st is = Running st' \<Longrightarrow> concat (map tcp_input is) = []"
proof (induction "is" arbitrary: st)
  case (Cons i "is")
  then obtain s where "server_step env st i = Running s" "run_loop (server_step env) s is = Running st'"
    by (auto split: flow.splits)
  with Cons.IH [of s] message_needs_receiver [OF gone] show ?case by simp
qed simp

text \<open>C34: a server whose application goes away does not shut down gracefully, it panics. When the last
  handle is dropped, its channel ends behind the messages that were sent, and no run of the task gets
  past that end, however its other inputs are interleaved with it; the same at the end of the listener. When
  the event receiver is dropped, the task panics as soon as it has an event to report: as long as
  it goes on, it has been given no TCP message, has admitted no peer and has dropped none.\<close>

theorem losing_the_application_panics_server:
  fixes items :: "(('tts, 'tfs, 'uts, 'ufs) incoming \<times> ('rtx, 'wtx) spawned) list"
  assumes ended: "map fst items \<in> shuffles (server_msg_rx msgs) others \<or>
      map fst items \<in> shuffles (server_listener_rx accepted) others"
    and timer: "interval (udp_heartbeat_interval cfg) = Inr ()"
    and gone: "receiver_gone (unbounded_send env')"
  shows "(\<exists>p. server_actor env interval cfg tx rt uc ut (map Some items) = Panicked p) \<and>
    (case run_loop (server_step env') st js of
       Panicked p \<Rightarrow> True
     | Finished st' r \<Rightarrow> False
     | Running st' \<Rightarrow> concat (map tcp_input js) = [] \<and>
         dom (hm_get (peers st')) = dom (hm_get (peers st)) \<and> next_peer_uid st' = next_peer_uid st)"
proof
  have "EndOfStream EofActorMessage \<in> set (map fst items) \<or> EndOfStream EofTcpListener \<in> set (map fst items)"
    using ended by (auto dest: set_shuffles simp: server_msg_rx_def server_listener_rx_def)
  then obtain eof where eof: "eof \<in> {EofActorMessage, EofTcpListener}"
    and "(EndOfStream eof :: ('tts, 'tfs, 'uts, 'ufs) incoming) \<in> set (map fst items)" by blast
  then obtain new where "(EndOfStream eof, new) \<in> set items" by auto
  from run_lost [OF this eof] show "\<exists>p. server_actor env interval cfg tx rt uc ut (map Some items) = Panicked p"
    by (simp add: server_actor_run [where interval = interval, OF timer] run_next_items)
next
  show "case run_loop (server_step env') st js of
       Panicked p \<Rightarrow> True
     | Finished st' r \<Rightarrow> False
     | Running st' \<Rightarrow> concat (map tcp_input js) = [] \<and>
         dom (hm_get (peers st')) = dom (hm_get (peers st)) \<and> next_peer_uid st' = next_peer_uid st"
  proof (cases "run_loop (server_step env') st js")
    case (Running st')
    with messages_need_receiver [OF gone Running] run_unreported [OF gone Running] show ?thesis
      by (simp add: unreported_def)
  next
    case (Finished st' r)
    with server_run_not_finished [of env' st js st' r] show ?thesis by simp
  qed simp
qed

theorem losing_the_application_panics_server_witness:
  "(\<exists>p. server_actor (num_env True) (\<lambda>_. Inr ()) config_default [] 0 (\<lambda>_. []) 1
      (map Some (num_inputs @ [(ActorMessage (AnnounceTcp 7), num_spawned 6 0),
        (EndOfStream EofActorMessage, num_spawned 6 0)])) = Panicked p) \<and>
   (\<exists>p. run_loop (server_step (num_env True\<lparr>unbounded_send := ref_closed_send\<rparr>)) num_two
     [(TcpReader (StreamItem (Inr (TcpToServerApplicationLogic 7))) (PeerUid 0), num_spawned 6 0)] = Panicked p)"
proof -
  let ?is = "num_inputs @ [(ActorMessage (AnnounceTcp 7), num_spawned 6 0),
        (EndOfStream EofActorMessage, num_spawned 6 0)]"
  let ?js = "[(TcpReader (StreamItem (Inr (TcpToServerApplicationLogic 7))) (PeerUid 0), num_spawned 6 0)]"
  have ended: "map fst ?is \<in> shuffles (server_msg_rx [AnnounceTcp 7]) (map fst num_inputs) \<or>
      map fst ?is \<in> shuffles (server_listener_rx []) (map fst num_inputs)"
    by (rule disjI1) (simp add: server_msg_rx_def ref_inputs_def Cons_in_shuffles_iff)
  have gone: "receiver_gone (unbounded_send (num_env True\<lparr>unbounded_send := ref_closed_send\<rparr>))"
    by (simp add: receiver_gone_def ref_closed_send_def)
  from losing_the_application_panics_server [where env = "num_env True" and interval = "\<lambda>_. Inr ()" and
      cfg = config_default and st = num_two and js = ?js, OF ended refl gone]
  show ?thesis by (auto split: flow.splits)
qed

end
