(* ===== verification/IoProperties.thy ===== *)
theory IoProperties
  imports Reference
begin

text \<open>
  What the IO actors, their handles and the codecs guarantee, up to the path of a message from one
  end's mailbox over TCP to the other end's receiver.
\<close>

section \<open>The actors\<close>

text \<open>C15: whatever order its mailbox and its stream are served in, the read actor stops at one item
  \<open>y\<close> of its input: it has sent all stream items before \<open>y\<close>, a prefix of the stream, one after another
  and successfully, and its reason says what \<open>y\<close> was. It reports the end of the stream at that end,
  with all of the stream sent; a signal at a shutdown message that was posted; dropped handles at the
  end of a mailbox that never held a message; and a closed receiver exactly at the next item of the
  stream, whose send has failed. Only in the last case has it touched the sink after the items sent.\<close>

theorem read_actor_forwards_in_order_and_stops:
  assumes law: "sink_law send accepted"
    and rx: "rx \<in> shuffles (read_mailbox_rx ms) (read_stream_rx xs)"
  shows "\<exists>ys y rest tx1 tx' r. rx = map RecvStreamItem ys @ y # rest \<and> prefix ys xs \<and>
    send_all send tx (map StreamItem ys) = Some tx1 \<and>
    read_actor send tx rx = Finished tx' r \<and> accepted tx' = accepted tx @ map StreamItem ys \<and>
    (case r of
       ReadEndOfStream \<Rightarrow> y = RecvEndOfStream ReadKindStream \<and> ys = xs \<and> tx' = tx1
     | ReadSignalled \<Rightarrow> y = RecvActorMessage ReadShutdown \<and> ReadShutdown \<in> set ms \<and> tx' = tx1
     | ReadActorHandlesDropped \<Rightarrow> y = RecvEndOfStream ReadKindActorMessage \<and> ms = [] \<and> tx' = tx1
     | ReceiverClosedChannel \<Rightarrow>
         (\<exists>x e. y = RecvStreamItem x \<and> prefix (ys @ [x]) xs \<and> send tx1 (StreamItem x) = (tx', Some e)))"
proof -
  obtain ys y rest tx1 tx' r where run: "rx = map RecvStreamItem ys @ y # rest" "prefix ys xs"
      "send_all send tx (map StreamItem ys) = Some tx1" "read_actor send tx rx = Finished tx' r"
    and left: "read_left send tx1 y tx'" and out: "read_outcome send ms xs ys y tx1 tx' r"
    by (rule read_actor_exact [OF rx, of send tx])
  have "accepted tx' = accepted tx @ map StreamItem ys"
    using read_left_law [OF law left] send_all_law [OF law run(3)] by simp
  with run out [unfolded read_outcome_def] show ?thesis by blast
qed

theorem read_actor_forwards_in_order_and_stops_witness:
  "\<exists>ys y rest tx1 tx' r. [RecvStreamItem (1 :: nat), RecvActorMessage ReadShutdown, RecvStreamItem 2,
       RecvEndOfStream ReadKindActorMessage, RecvEndOfStream ReadKindStream] =
         map RecvStreamItem ys @ y # rest \<and> prefix ys [1, 2] \<and>
    send_all ref_send_open [] (map StreamItem ys) = Some tx1 \<and>
    read_actor ref_send_open [] [RecvStreamItem 1, RecvActorMessage ReadShutdown, RecvStreamItem 2,
       RecvEndOfStream ReadKindActorMessage, RecvEndOfStream ReadKindStream] = Finished tx' r \<and>
    tx' = [] @ map StreamItem ys \<and>
    (case r of
       ReadEndOfStream \<Rightarrow> y = RecvEndOfStream ReadKindStream \<and> ys = [1, 2] \<and> tx' = tx1
     | ReadSignalled \<Rightarrow> y = RecvActorMessage ReadShutdown \<and> ReadShutdown \<in> set [ReadShutdown] \<and> tx' = tx1
     | ReadActorHandlesDropped \<Rightarrow> y = RecvEndOfStream ReadKindActorMessage \<and> [ReadShutdown] = [] \<and> tx' = tx1
     | ReceiverClosedChannel \<Rightarrow>
         (\<exists>x e. y = RecvStreamItem x \<and> prefix (ys @ [x]) [1, 2] \<and> ref_send_open tx1 (StreamItem x) = (tx', Some e)))"
proof -
  have "[RecvStreamItem 1, RecvActorMessage ReadShutdown, RecvStreamItem 2,
       RecvEndOfStream ReadKindActorMessage, RecvEndOfStream ReadKindStream]
      \<in> shuffles (read_mailbox_rx [ReadShutdown]) (read_stream_rx [1 :: nat, 2])"
    by (simp add: read_mailbox_rx_def read_stream_rx_def Cons_in_shuffles_iff)
  from read_actor_forwards_in_order_and_stops [OF ref_send_open_law(1) this, of "[]"]
  show ?thesis .
qed

text \<open>C16: the write actor performs the messages of its mailbox in order, each successfully, up to the
  first shutdown message, the first failing operation or the end of the mailbox, stops there with the
  reason that says which, and then closes the sink it has stopped with, in all three cases: the sink
  it leaves is the one \<open>close\<close> returns. What has been written is what the performed messages ask for,
  and perhaps the item of the failed operation.\<close>

theorem write_actor_performs_in_order_and_stops:
  assumes law: "sink_ops_law emb written ops"
  shows "\<exists>performed rest k1 k' r. ms = performed @ rest \<and> WriteShutdown \<notin> set performed \<and>
    perform_all ops k performed = Some k1 \<and>
    write_actor ops k (map Some ms @ [None]) = Finished k' r \<and>
    (case r of
       WriteActorHandlesDropped \<Rightarrow> rest = [] \<and> k' = fst (sink_close ops k1) \<and>
         written k' = written k @ map emb (payloads performed)
     | WriteSignalled \<Rightarrow> (\<exists>later. rest = WriteShutdown # later) \<and> k' = fst (sink_close ops k1) \<and>
         written k' = written k @ map emb (payloads performed)
     | SinkError \<Rightarrow> (\<exists>m later k2 e. rest = m # later \<and> m \<noteq> WriteShutdown \<and>
         perform ops k1 m = (k2, Some e) \<and> k' = fst (sink_close ops k2) \<and> written k' \<in>
           {written k @ map emb (payloads performed), written k @ map emb (payloads (performed @ [m]))}))"
proof -
  obtain performed rest k1 k2 r where run: "ms = performed @ rest" "WriteShutdown \<notin> set performed"
    and did: "perform_all ops k performed = Some k1"
    and fin: "write_actor ops k (map Some ms @ [None]) = Finished (fst (sink_close ops k2)) r"
    and stop: "write_stop ops k1 rest k2 r"
    by (rule write_actor_exact [of ms ops k])
  note out = write_stop_outcome [OF law did stop, unfolded write_outcome_def]
  show ?thesis
    by (rule exI [of _ performed], rule exI [of _ rest], rule exI [of _ k1],
      rule exI [of _ "fst (sink_close ops k2)"], rule exI [of _ r], intro conjI run did fin)
      (use stop out in \<open>cases r; fastforce\<close>)
qed

theorem write_actor_performs_in_order_and_stops_witness:
  "\<exists>performed rest k1 k' r. [Send (1 :: nat), Feed 2, WriteShutdown, Send 3] = performed @ rest \<and>
     WriteShutdown \<notin> set performed \<and> perform_all ref_framed [] performed = Some k1 \<and>
     write_actor ref_framed [] (map Some [Send 1, Feed 2, WriteShutdown, Send (3 :: nat)] @ [None]) = Finished k' r"
  using write_actor_performs_in_order_and_stops [OF ref_framed_law,
      where ms = "[Send 1, Feed 2, WriteShutdown, Send (3 :: nat)]" and k = "[]"]
  by (elim exE conjE, intro exI conjI) assumption+

section \<open>The handles\<close>

text \<open>C38: posting to an IO actor never panics; it succeeds exactly when the channel takes the message,
  reports a full or a closed channel otherwise, and leaves the awaited task unchanged.\<close>

theorem io_handles_report_channel_errors:
  assumes "try_send_law rts racc" and "try_send_law wts wacc"
  shows "(\<exists>h r. read_signal_shutdown rts rh = Inr (h, r) \<and> read_wait h = read_wait rh \<and>
      (case rts (rd_actor_msg_tx rh) ReadShutdown of
         (tx, None) \<Rightarrow> r = None \<and> racc (rd_actor_msg_tx h) = racc (rd_actor_msg_tx rh) @ [ReadShutdown]
       | (tx, Some err) \<Rightarrow> r = Some (if is_full err then ReadChannelFull else ReadChannelClosed) \<and>
           racc (rd_actor_msg_tx h) = racc (rd_actor_msg_tx rh))) \<and>
    (\<exists>h r. write_send_actor_message wts wh m = Inr (h, r) \<and> write_wait h = write_wait wh \<and>
      (case wts (wr_actor_msg_tx wh) m of
         (tx, None) \<Rightarrow> r = None \<and> wacc (wr_actor_msg_tx h) = wacc (wr_actor_msg_tx wh) @ [m]
       | (tx, Some err) \<Rightarrow> r = Some (if is_full err then WriteChannelFull else WriteChannelClosed) \<and>
           wacc (wr_actor_msg_tx h) = wacc (wr_actor_msg_tx wh)))"
  using rd.post_result [OF assms(1), of rh ReadShutdown] wr.post_result [OF assms(2), of wh m]
  by (simp add: read_signal_shutdown_def read_wait_def write_wait_def)

theorem io_handles_report_channel_errors_witness:
  "\<exists>h r. write_send_actor_message ref_try_send (write_handle_new (ref_channel 0) 5) (Send (1 :: nat)) = Inr (h, r) \<and>
     write_wait h = 5 \<and> r = Some WriteChannelFull"
  using io_handles_report_channel_errors [OF ref_try_send_law ref_try_send_law,
      where wh = "write_handle_new (ref_channel 0) 5" and m = "Send (1 :: nat)", THEN conjunct2]
  by (auto simp: ref_try_send_def ref_channel_def write_handle_new_def write_wait_def)

section \<open>The path of a message\<close>

text \<open>C7: over a TCP connection whose frames arrive as they were written, the receiver of the other
  end's read actor gets a prefix of the messages posted to the write actor, in order and unchanged,
  and no error item; if the writer ended because its handles were dropped and the reader because the
  stream ended, it gets all of them.\<close>

theorem tcp_link_delivers_in_order:
  assumes serde: "serde_law ser de" and frames: "sink_ops_law (\<lambda>f. f) frames framed"
    and start: "frames k = []" and sink: "sink_law send accepted"
  shows "\<exists>k' r. write_actor (tcp_serialized_write ser framed) k (map Some ms @ [None]) = Finished k' r \<and>
    (\<forall>rx \<in> shuffles (read_mailbox_rx rms) (read_stream_rx (tcp_deserialized_read de (map Inr (frames k')))).
       \<exists>ys tx' r'. read_actor send tx rx = Finished tx' r' \<and> prefix ys (payloads ms) \<and>
         accepted tx' = accepted tx @ map (\<lambda>m. StreamItem (Inr m)) ys \<and>
         (r = WriteActorHandlesDropped \<and> r' = ReadEndOfStream \<longrightarrow> ys = payloads ms))"
proof -
  let ?seen = "\<lambda>k. map (\<lambda>f. tcp_read_item de (Inr f)) (frames k)"
  let ?ops = "tcp_serialized_write ser framed"
  have law: "sink_ops_law Inr ?seen ?ops"
    unfolding tcp_serialized_write_def by (rule tcp.with_ops_law [OF serde frames])
  obtain performed rest k' r where ms: "ms = performed @ rest"
    and w: "write_actor ?ops k (map Some ms @ [None]) = Finished k' r"
    and out: "write_outcome Inr ?seen k performed rest k' r"
    by (rule write_actor_run [OF law, of ms k])
  obtain zs where "?seen k' = ?seen k @ map Inr zs" and zs: "prefix zs (payloads ms)"
    and all: "r = WriteActorHandlesDropped \<longrightarrow> zs = payloads ms"
    by (rule write_outcome_prefix [OF out ms])
  then have seen: "tcp_deserialized_read de (map Inr (frames k')) = map Inr zs"
    using start by (simp add: tcp_deserialized_read_def comp_def)
  have "\<exists>ys tx' r'. read_actor send tx rx = Finished tx' r' \<and> prefix ys (payloads ms) \<and>
      accepted tx' = accepted tx @ map (\<lambda>m. StreamItem (Inr m)) ys \<and>
      (r = WriteActorHandlesDropped \<and> r' = ReadEndOfStream \<longrightarrow> ys = payloads ms)"
    if rx: "rx \<in> shuffles (read_mailbox_rx rms) (read_stream_rx (tcp_deserialized_read de (map Inr (frames k'))))"
    for rx
  proof -
    from read_actor_correct [OF sink rx [unfolded seen], of tx] obtain ys tx' r' where
      run: "read_actor send tx rx = Finished tx' r'" and pre: "prefix ys (map Inr zs)"
      and acc: "accepted tx' = accepted tx @ map StreamItem ys" and full: "r' = ReadEndOfStream \<longrightarrow> ys = map Inr zs"
      by blast
    from prefix_map_rightE [OF pre] obtain vs where vs: "prefix vs zs" "ys = map Inr vs" by blast
    have "prefix vs (payloads ms)" using vs(1) zs by (rule prefix_order.trans)
    moreover have "accepted tx' = accepted tx @ map (\<lambda>m. StreamItem (Inr m)) vs"
      by (simp add: acc vs(2) comp_def)
    moreover have "r = WriteActorHandlesDropped \<and> r' = ReadEndOfStream \<longrightarrow> vs = payloads ms"
      using all full vs(2) by (auto simp: inj_map_eq_map)
    ultimately show ?thesis using run by blast
  qed
  with w show ?thesis by blast
qed

theorem tcp_link_delivers_in_order_witness:
  "\<exists>k' r. write_actor (tcp_serialized_write ref_serialize ref_framed) []
      (map Some [Send 1, Feed 2, Flush] @ [None]) = Finished k' r \<and>
    (\<forall>rx \<in> shuffles (read_mailbox_rx []) (read_stream_rx (tcp_deserialized_read ref_deserialize (map Inr k'))).
       \<exists>ys tx' r'. read_actor ref_send_open [] rx = Finished tx' r' \<and> prefix ys [1, 2] \<and>
         tx' = [] @ map (\<lambda>m. StreamItem (Inr m)) ys \<and>
         (r = WriteActorHandlesDropped \<and> r' = ReadEndOfStream \<longrightarrow> ys = [1, 2]))"
  using tcp_link_delivers_in_order [OF ref_serde_law ref_framed_law refl ref_send_open_law(1),
      where ms = "[Send 1, Feed 2, Flush]" and rms = "[]" and tx = "[]"]
  by simp

end
