(* ===== verification/Streams.thy ===== *)
theory Streams
  imports Prelude
begin

text \<open>
  \<open>futures::stream::select_all\<close>, by which the tasks merge their inputs: the items come in any
  interleaving that keeps the order of each stream. \<open>merged ss ys\<close> says that \<open>ys\<close> may have come so
  far out of the streams \<open>ss\<close>.
\<close>

inductive merged :: "'a list list \<Rightarrow> 'a list \<Rightarrow> bool" where
  merged_waiting: "merged ss []"
| merged_next: "i < length ss \<Longrightarrow> ss ! i = x # xs \<Longrightarrow> merged (ss[i := xs]) ys \<Longrightarrow> merged ss (x # ys)"

inductive_simps merged_Nil [simp]: "merged ss []"
text \<open>
  What is recognized as coming from the stream \<open>i\<close> is what that stream has delivered so far, in
  its order.
\<close>

lemma merged_projection:
  assumes "merged ss ys" and "i < length ss"
    and "\<And>j x. j < length ss \<Longrightarrow> x \<in> set (ss ! j) \<Longrightarrow> P x \<longleftrightarrow> j = i"
  shows "prefix (filter P ys) (ss ! i)"
  using assms
proof (induction rule: merged.induct)
  case (merged_waiting ss)
  then show ?case by simp
next
  case (merged_next k ss x xs ys)
  have left: "P y \<longleftrightarrow> j = i" if "j < length (ss[k := xs])" and "y \<in> set (ss[k := xs] ! j)" for j y
    using that merged_next.prems(2) [of j y] merged_next.hyps(2)
    by (cases "j = k") auto
  have IH: "prefix (filter P ys) (ss[k := xs] ! i)"
    using merged_next.IH [OF _ left] merged_next.prems(1) by simp
  have "P x \<longleftrightarrow> k = i" using merged_next.prems(2) [of k x] merged_next.hyps(1,2) by simp
  with IH merged_next.hyps(1,2) show ?case by (cases "k = i") simp_all
qed

text \<open>Once the last item of a stream that ends with it has been delivered, so has the whole stream.\<close>

lemma prefix_with_last:
  assumes "prefix zs (xs @ [e])" and "e \<in> set zs" and "e \<notin> set xs"
  shows "zs = xs @ [e]"
proof -
  from assms(1) have "zs = xs @ [e] \<or> prefix zs xs" by simp
  moreover have "\<not> prefix zs xs" using assms(2,3) set_mono_prefix by blast
  ultimately show ?thesis by blast
qed

lemma merged_delivered:
  assumes "merged ss ys" and "i < length ss" and "ss ! i = xs @ [e]" and "e \<in> set ys" and "e \<notin> set xs"
    and "\<And>j x. j < length ss \<Longrightarrow> x \<in> set (ss ! j) \<Longrightarrow> P x \<longleftrightarrow> j = i"
  shows "filter P ys = xs @ [e]"
proof (rule prefix_with_last)
  show "prefix (filter P ys) (xs @ [e])" using merged_projection [OF assms(1,2,6)] assms(3) by simp
  have "P e" using assms(6) [of i e] assms(2,3) by simp
  with assms(4) show "e \<in> set (filter P ys)" by simp
qed fact

text \<open>What \<open>f\<close> reads off the items of the stream \<open>i\<close> alone, from the merged stream.\<close>

lemma concat_map_filter:
  "(\<And>x. \<not> P x \<Longrightarrow> f x = []) \<Longrightarrow> concat (map f (filter P xs)) = concat (map f xs)"
  by (induction xs) auto

lemma prefix_concat_map: "prefix xs ys \<Longrightarrow> prefix (concat (map f xs)) (concat (map f ys))"
  by (auto simp: prefix_def)

lemma merged_concat:
  assumes ys: "merged ss ys" and i: "i < length ss" "ss ! i = xs @ [e]"
    and sources: "\<And>j x. j < length ss \<Longrightarrow> x \<in> set (ss ! j) \<Longrightarrow> P x \<longleftrightarrow> j = i"
    and f: "\<And>x. \<not> P x \<Longrightarrow> f x = []" "f e = []"
  shows "prefix (concat (map f ys)) (concat (map f xs))"
    and "e \<in> set ys \<Longrightarrow> e \<notin> set xs \<Longrightarrow> concat (map f ys) = concat (map f xs)"
proof -
  note cm = concat_map_filter [of P f, OF f(1)]
  have "prefix (filter P ys) (xs @ [e])" using merged_projection [OF ys i(1) sources] i(2) by simp
  from prefix_concat_map [OF this, of f] show "prefix (concat (map f ys)) (concat (map f xs))"
    by (simp add: cm f(2))
  assume "e \<in> set ys" and "e \<notin> set xs"
  from merged_delivered [OF ys i this sources] have "filter P ys = xs @ [e]" .
  from arg_cong [OF this, of "\<lambda>xs. concat (map f xs)"] show "concat (map f ys) = concat (map f xs)"
    by (simp add: cm f(2))
qed

end
