(* ===== verification/ClientStreams.thy ===== *)
theory ClientStreams
  imports Streams ClientActor
begin

text \<open>
  The merged input of the client task (the set-up of \<open>actor\<close> in \<open>src/src/client/actor.rs\<close>), and that
  what the server sends is reported in the order of its arrival.
\<close>

section \<open>The streams\<close>

text \<open>
  Each source is followed by its end of stream: at once for the mailbox (\<open>chain_ready\<close>), and for the
  read actors when their task has ended, which is after everything they sent (\<open>chain_future\<close>). The
  write actors have only an end.
\<close>

definition client_streams ::
  "('tts, 'uts) client_message list \<Rightarrow>
   (tcp_error + 'tfs tcp_from_server) read_actor_event list \<Rightarrow> read_actor_shutdown_reason actor_shutdown \<Rightarrow>
   write_actor_shutdown_reason actor_shutdown \<Rightarrow>
   (udp_error + 'ufs udp_from_server) read_actor_event list \<Rightarrow> read_actor_shutdown_reason actor_shutdown \<Rightarrow>
   write_actor_shutdown_reason actor_shutdown \<Rightarrow> ('tts, 'tfs, 'uts, 'ufs) client_incoming list list" where
  "client_streams msgs tcp tcp_reader_end tcp_writer_end udp udp_reader_end udp_writer_end =
     [map ClientActorMessage msgs @ [ClientEndOfStream ClientEofActorMessage],
      map ClientTcpReader tcp @ [ClientEndOfStream (ClientEofTcpReader tcp_reader_end)],
      [ClientEndOfStream (ClientEofTcpWriter tcp_writer_end)],
      map ClientUdpReader udp @ [ClientEndOfStream (ClientEofUdpReader udp_reader_end)],
      [ClientEndOfStream (ClientEofUdpWriter udp_writer_end)]]"

fun from_tcp_reader :: "('tts, 'tfs, 'uts, 'ufs) client_incoming \<Rightarrow> bool" where
  "from_tcp_reader (ClientTcpReader ev) = True"
| "from_tcp_reader (ClientEndOfStream (ClientEofTcpReader r)) = True"
| "from_tcp_reader _ = False"

fun from_udp_reader :: "('tts, 'tfs, 'uts, 'ufs) client_incoming \<Rightarrow> bool" where
  "from_udp_reader (ClientUdpReader ev) = True"
| "from_udp_reader (ClientEndOfStream (ClientEofUdpReader r)) = True"
| "from_udp_reader _ = False"

lemma client_streams_sources:
  assumes "j < length (client_streams msgs tcp tr tw udp ur uw)"
    and "x \<in> set (client_streams msgs tcp tr tw udp ur uw ! j)"
  shows "from_tcp_reader x \<longleftrightarrow> j = 1" and "from_udp_reader x \<longleftrightarrow> j = 3"
  using assms by (auto simp: client_streams_def nth_Cons split: nat.splits)

section \<open>Messages in inputs and events\<close>

fun tcp_application :: "(tcp_error + 'tfs tcp_from_server) read_actor_event \<Rightarrow> 'tfs list" where
  "tcp_application (StreamItem (Inr (TcpFromServerApplicationLogic m))) = [m]"
| "tcp_application _ = []"

fun client_tcp_input :: "('tts, 'tfs, 'uts, 'ufs) client_incoming \<Rightarrow> 'tfs list" where
  "client_tcp_input (ClientTcpReader ev) = tcp_application ev"
| "client_tcp_input _ = []"

fun udp_application :: "(udp_error + 'ufs udp_from_server) read_actor_event \<Rightarrow> 'ufs list" where
  "udp_application (StreamItem (Inr (UdpFromServerApplicationLogic m))) = [m]"
| "udp_application _ = []"

fun client_udp_input :: "('tts, 'tfs, 'uts, 'ufs) client_incoming \<Rightarrow> 'ufs list" where
  "client_udp_input (ClientUdpReader ev) = udp_application ev"
| "client_udp_input _ = []"

lemma client_input_source:
  "\<not> from_tcp_reader x \<Longrightarrow> client_tcp_input x = []"
  "\<not> from_udp_reader x \<Longrightarrow> client_udp_input x = []"
  by (cases x; simp)+

fun client_tcp_heard :: "('tfs, 'ufs) client_event \<Rightarrow> 'tfs list" where
  "client_tcp_heard (ClientTcpMessage m) = [m]"
| "client_tcp_heard _ = []"

fun client_udp_heard :: "('tfs, 'ufs) client_event \<Rightarrow> 'ufs list" where
  "client_udp_heard (ClientUdpMessage m) = [m]"
| "client_udp_heard _ = []"

definition client_reports ::
  "('etx \<Rightarrow> ('tfs, 'ufs) client_event list) \<Rightarrow> 'tfs list \<Rightarrow> 'ufs list \<Rightarrow>
   ('wtx, 'utx, 'etx) client_task \<Rightarrow> ('wtx, 'utx, 'etx) client_task \<Rightarrow> bool" where
  "client_reports acc tcp udp st st' \<longleftrightarrow>
     (\<exists>es. acc (client_event_sender st') = acc (client_event_sender st) @ es \<and>
        concat (map client_tcp_heard es) = tcp \<and> concat (map client_udp_heard es) = udp)"

lemma client_reports_nothing:
  "client_event_sender st' = client_event_sender st \<Longrightarrow> client_reports acc [] [] st st'"
  unfolding client_reports_def by (rule exI [of _ "[]"]) simp

lemma client_reports_one:
  "acc (client_event_sender st') = acc (client_event_sender st) @ [ev] \<Longrightarrow>
   client_reports acc (client_tcp_heard ev) (client_udp_heard ev) st st'"
  unfolding client_reports_def by (rule exI [of _ "[ev]"]) simp

lemma client_reports_trans:
  assumes "client_reports acc tcp udp st su" and "client_reports acc tcp' udp' su sv"
  shows "client_reports acc (tcp @ tcp') (udp @ udp') st sv"
proof -
  obtain es where "acc (client_event_sender su) = acc (client_event_sender st) @ es"
    "concat (map client_tcp_heard es) = tcp" "concat (map client_udp_heard es) = udp"
    using assms(1) unfolding client_reports_def by blast
  moreover obtain fs where "acc (client_event_sender sv) = acc (client_event_sender su) @ fs"
    "concat (map client_tcp_heard fs) = tcp'" "concat (map client_udp_heard fs) = udp'"
    using assms(2) unfolding client_reports_def by blast
  ultimately show ?thesis unfolding client_reports_def by (intro exI [of _ "es @ fs"]) simp
qed

section \<open>One round\<close>

lemma client_emit_reports:
  assumes "client_inv env acc st"
  shows "client_reports acc (client_tcp_heard ev) (client_udp_heard ev) st (fst (client_emit env ev st))"
proof -
  from assms obtain tx where "client_emit env ev st = (st\<lparr>client_event_sender := tx\<rparr>, False)"
    and "acc tx = acc (client_event_sender st) @ [ev]"
    using client_emit_open [of env acc ev st] unfolding client_inv_def by blast
  then show ?thesis by (intro client_reports_one) simp
qed

lemma client_break_reports:
  assumes "client_inv env acc st" and "client_emit_or_break env ev st = Running st'"
  shows "client_reports acc (client_tcp_heard ev) (client_udp_heard ev) st st'"
  using client_emit_reports [OF assms(1), of ev] assms(2)
  by (auto simp: client_emit_or_break_def split: prod.splits if_splits)

lemma client_first_udp_reports:
  assumes "client_inv env acc st"
  shows "client_reports acc [] [] st (client_first_udp env st)"
proof -
  have "client_inv env acc (st\<lparr>has_received_on_udp := True\<rparr>)" using assms by (simp add: client_inv_def)
  from client_emit_reports [OF this, of CanReceiveUdpMessages] show ?thesis
    by (simp add: client_first_udp_def client_reports_def)
qed

lemma client_tcp_item_reports:
  assumes inv: "client_inv env acc st" and run: "client_tcp_item env item st = Running st'"
  shows "client_reports acc (client_tcp_input (ClientTcpReader (StreamItem item))) [] st st'"
proof (cases "(env, item, st)" rule: client_tcp_item.cases)
  case (2 env2 s2)
  with run client_emit_reports [OF inv, of CanSendUdpMessages] show ?thesis by auto
next
  case (3 env2 msg s2)
  with run client_break_reports [OF inv, of "ClientTcpMessage msg" st'] show ?thesis by auto
qed (use run in \<open>auto intro: client_reports_nothing\<close>)

lemma client_udp_item_reports:
  assumes inv: "client_inv env acc st" and run: "client_udp_item env now item st = Running st'"
  shows "client_reports acc [] (client_udp_input (ClientUdpReader (StreamItem item))) st st'"
proof (cases "(env, now, item, st)" rule: client_udp_item.cases)
  case (3 env2 now2 msg s2)
  with run client_break_reports [OF inv, of "ClientUdpMessage msg" st'] show ?thesis by auto
qed (use run in \<open>auto intro: client_reports_nothing\<close>)

lemma client_step_reports:
  assumes inv: "client_inv env acc st" and run: "client_step env st (Some x, now) = Running st'"
  shows "client_reports acc (client_tcp_input x) (client_udp_input x) st st'"
  using run
proof (cases "(env, st, Some x, now)" rule: client_step.cases)
  case (2 env' s msg now)
  with run show ?thesis by (cases msg) (auto simp: client_forward_Running intro!: client_reports_nothing)
next
  case (3 env' s item now)
  with run client_tcp_item_reports [OF inv] show ?thesis by auto
next
  case (4 env' s item now)
  have "client_inv env acc (client_first_udp env st)" using inv by (simp add: client_inv_def)
  from client_udp_item_reports [OF this] run 4
    client_reports_trans [OF client_first_udp_reports [OF inv]] show ?thesis by fastforce
qed (use run in \<open>auto intro: client_reports_nothing\<close>)

lemma client_finished_quiet:
  assumes opened: "sink_open (client_event_send env)"
    and run: "client_step env st (Some x, now) = Finished st' ()"
  shows "st' = st"
  using run
proof (cases "(env, st, Some x, now)" rule: client_step.cases)
  case (2 env' s msg now)
  with run show ?thesis by (simp add: client_actor_message_not_finished)
next
  case (3 env' s item now)
  note item = this
  show ?thesis
  proof (cases "(env, item, st)" rule: client_tcp_item.cases)
    case (1 env2 uuid s2)
    with run item show ?thesis
      by (cases "write_send (client_udp_try_send env) (client_udp_write_actor st) (UdpHello uuid)") auto
  next
    case (3 env2 msg s2)
    with run item client_emit_or_break_open [OF opened, of "ClientTcpMessage msg" st] show ?thesis by auto
  qed (use run item in auto)
next
  case (4 env' s item now)
  with run client_udp_item_open [OF opened, of now item "client_first_udp env st"] show ?thesis by auto
qed auto

section \<open>Whole runs\<close>

lemma client_run_reports:
  assumes "client_inv env acc st" and "map fst is = map Some ys"
    and "run_loop (client_step env) st is \<in> {Running st', Finished st' ()}"
  shows "\<exists>zs. prefix zs ys \<and>
    client_reports acc (concat (map client_tcp_input zs)) (concat (map client_udp_input zs)) st st' \<and>
    (run_loop (client_step env) st is = Running st' \<longrightarrow> zs = ys)"
  using assms
proof (induction ys arbitrary: "is" st)
  case Nil
  then show ?case by (auto intro: client_reports_nothing)
next
  case (Cons x ys)
  then obtain now js where is': "is = (Some x, now) # js" and js: "map fst js = map Some ys"
    by (cases "is") auto
  show ?case
  proof (cases "client_step env st (Some x, now)")
    case (Running su)
    have "client_inv env acc su" using Cons.prems(1) by (simp add: client_inv_def)
    from Cons.IH [OF this js] Cons.prems(3) Running is' obtain zs where zs: "prefix zs ys"
      "client_reports acc (concat (map client_tcp_input zs)) (concat (map client_udp_input zs)) su st'"
      "run_loop (client_step env) su js = Running st' \<longrightarrow> zs = ys" by auto
    from client_reports_trans [OF client_step_reports [OF Cons.prems(1) Running] zs(2)] zs(1,3) Running is'
    show ?thesis by (intro exI [of _ "x # zs"]) simp
  next
    case (Finished su u)
    with Cons.prems(1,3) is' client_finished_quiet [of env st x now su] have "st' = st"
      by (auto simp: client_inv_def)
    with Finished is' show ?thesis by (intro exI [of _ "[]"]) (simp add: client_reports_nothing)
  next
    case (Panicked p)
    with Cons.prems(3) is' show ?thesis by simp
  qed
qed

text \<open>The messages of one reader among those of all the streams.\<close>

lemma client_streams_tcp:
  fixes ys :: "('a, 'b, 'c, 'd) client_incoming list"
  assumes "merged (client_streams msgs tcp tr tw udp ur uw) ys"
  shows "prefix (concat (map client_tcp_input ys)) (concat (map tcp_application tcp))"
    and "ClientEndOfStream (ClientEofTcpReader tr) \<in> set ys \<Longrightarrow>
      concat (map client_tcp_input ys) = concat (map tcp_application tcp)"
proof -
  let ?eof = "ClientEndOfStream (ClientEofTcpReader tr)"
  have ix: "1 < length (client_streams msgs tcp tr tw udp ur uw)"
    "client_streams msgs tcp tr tw udp ur uw ! 1 = map ClientTcpReader tcp @ [?eof]"
    by (simp_all add: client_streams_def numeral_3_eq_3)
  have quiet: "client_tcp_input ?eof = []" by simp
  note from_tcp = merged_concat [where P = from_tcp_reader and f = client_tcp_input, OF assms ix _ _ quiet]
  have read: "concat (map client_tcp_input (map ClientTcpReader tcp :: ('a, 'b, 'c, 'd) client_incoming list)) =
      concat (map tcp_application tcp)" by (simp add: comp_def)
  show "prefix (concat (map client_tcp_input ys)) (concat (map tcp_application tcp))"
    unfolding read [symmetric]
    by (rule from_tcp(1)) (rule client_streams_sources(1) client_input_source(1), assumption+)+
  assume "?eof \<in> set ys"
  then show "concat (map client_tcp_input ys) = concat (map tcp_application tcp)"
    unfolding read [symmetric]
    by (intro from_tcp(2)) (rule client_streams_sources(1) client_input_source(1), assumption+ | auto)+
qed

lemma client_streams_udp:
  fixes ys :: "('a, 'b, 'c, 'd) client_incoming list"
  assumes "merged (client_streams msgs tcp tr tw udp ur uw) ys"
  shows "prefix (concat (map client_udp_input ys)) (concat (map udp_application udp))"
    and "ClientEndOfStream (ClientEofUdpReader ur) \<in> set ys \<Longrightarrow>
      concat (map client_udp_input ys) = concat (map udp_application udp)"
proof -
  let ?eof = "ClientEndOfStream (ClientEofUdpReader ur)"
  have ix: "3 < length (client_streams msgs tcp tr tw udp ur uw)"
    "client_streams msgs tcp tr tw udp ur uw ! 3 = map ClientUdpReader udp @ [?eof]"
    by (simp_all add: client_streams_def numeral_3_eq_3)
  have quiet: "client_udp_input ?eof = []" by simp
  note from_udp = merged_concat [where P = from_udp_reader and f = client_udp_input, OF assms ix _ _ quiet]
  have read: "concat (map client_udp_input (map ClientUdpReader udp :: ('a, 'b, 'c, 'd) client_incoming list)) =
      concat (map udp_application udp)" by (simp add: comp_def)
  show "prefix (concat (map client_udp_input ys)) (concat (map udp_application udp))"
    unfolding read [symmetric]
    by (rule from_udp(1)) (rule client_streams_sources(2) client_input_source(2), assumption+)+
  assume "?eof \<in> set ys"
  then show "concat (map client_udp_input ys) = concat (map udp_application udp)"
    unfolding read [symmetric]
    by (intro from_udp(2)) (rule client_streams_sources(2) client_input_source(2), assumption+ | auto)+
qed

end
