(* ===== verification/ClientProperties.thy ===== *)
theory ClientProperties
  imports Reference ClientStreams
begin

text \<open>
  What the client guarantees: its events, its status, when its task ends or panics, the errors of its
  handle, connecting, and its datagrams. Each theorem with a hypothesis is applied to the reference
  client.
\<close>

section \<open>The task\<close>

text \<open>C24: the client reports that it can receive on UDP exactly once, when the first item arrives on
  UDP, and before any UDP message.\<close>

theorem client_reports_udp_readiness_once:
  assumes "sink_law (client_event_send env) acc" and "sink_open (client_event_send env)"
    and "acc tx = []"
    and "run_loop (client_step env) (client_task_new tx tc tt uc ut) is = Running st"
  shows "replay client_act False (acc (client_event_sender st)) = Some (has_received_on_udp st)"
  using client_log.run_logs [OF admissible_trivial _ assms(4), of acc] assms(1-3)
  by (auto simp: client_inv_def client_task_new_def)

theorem client_reports_udp_readiness_once_witness:
  "replay client_act False [CanReceiveUdpMessages, ClientUdpMessage (5 :: nat), ClientTcpMessage (6 :: nat)] =
   Some (has_received_on_udp (num_client\<lparr>has_received_on_udp := True,
     client_event_sender := [CanReceiveUdpMessages, ClientUdpMessage 5, ClientTcpMessage 6]\<rparr>))"
proof -
  have "run_loop (client_step ref_client_env) num_client
      [(Some (ClientUdpReader (StreamItem (Inr (UdpFromServerApplicationLogic 5)))), 1),
       (Some (ClientTcpReader (StreamItem (Inr (TcpFromServerApplicationLogic 6)))), 2)] =
     Running (num_client\<lparr>has_received_on_udp := True,
       client_event_sender := [CanReceiveUdpMessages, ClientUdpMessage 5, ClientTcpMessage 6]\<rparr>)"
    by (simp add: ref_client_eval)
  from client_reports_udp_readiness_once [where acc = "\<lambda>l. l", OF _ _ _ this [unfolded ref_client_def]]
  show ?thesis by (simp add: ref_send_open_law ref_client_def)
qed

text \<open>C23: however the task's five inputs are interleaved, the application messages of the server are reported
  in the order of their arrival, on TCP and on UDP, with none added or lost in between; and when the
  end of a reader's stream has been handled, all of its messages have been reported.\<close>

theorem client_reports_messages_in_order:
  assumes sink: "sink_law (client_event_send env) acc" "sink_open (client_event_send env)" and empty: "acc tx = []"
    and ys: "merged (client_streams msgs tcp tr tw udp ur uw) ys" and timed: "map fst is = map Some ys"
    and run: "run_loop (client_step env) (client_task_new tx tc tt uc ut) is \<in> {Running st, Finished st ()}"
  shows "let heard = acc (client_event_sender st);
      waiting = (run_loop (client_step env) (client_task_new tx tc tt uc ut) is = Running st) in
    prefix (concat (map client_tcp_heard heard)) (concat (map tcp_application tcp)) \<and>
    prefix (concat (map client_udp_heard heard)) (concat (map udp_application udp)) \<and>
    (waiting \<and> ClientEndOfStream (ClientEofTcpReader tr) \<in> set ys \<longrightarrow>
       concat (map client_tcp_heard heard) = concat (map tcp_application tcp)) \<and>
    (waiting \<and> ClientEndOfStream (ClientEofUdpReader ur) \<in> set ys \<longrightarrow>
       concat (map client_udp_heard heard) = concat (map udp_application udp))"
proof -
  have "client_inv env acc (client_task_new tx tc tt uc ut)" using sink by (simp add: client_inv_def)
  from client_run_reports [OF this timed run] obtain zs where zs: "prefix zs ys"
    and reports: "client_reports acc (concat (map client_tcp_input zs)) (concat (map client_udp_input zs))
      (client_task_new tx tc tt uc ut) st"
    and all: "run_loop (client_step env) (client_task_new tx tc tt uc ut) is = Running st \<longrightarrow> zs = ys" by blast
  from reports empty
  have heard: "concat (map client_tcp_heard (acc (client_event_sender st))) = concat (map client_tcp_input zs)"
    "concat (map client_udp_heard (acc (client_event_sender st))) = concat (map client_udp_input zs)"
    by (auto simp: client_reports_def client_task_new_def)
  note order = prefix_order.trans [OF prefix_concat_map [OF zs]]
  show ?thesis
    unfolding Let_def heard using all client_streams_tcp [OF ys] client_streams_udp [OF ys]
    by (auto intro: order)
qed

theorem client_reports_messages_in_order_witness:
  "\<exists>st. run_loop (client_step ref_client_env) num_client
      [(Some (ClientTcpReader (StreamItem (Inr (TcpFromServerApplicationLogic 6)))), 1),
       (Some (ClientUdpReader (StreamItem (Inr (UdpFromServerApplicationLogic 5)))), 2),
       (Some (ClientEndOfStream (ClientEofTcpReader (Controlled ReadEndOfStream))), 3)] = Running st \<and>
    concat (map client_tcp_heard (client_event_sender st)) = [6] \<and>
    prefix (concat (map client_udp_heard (client_event_sender st))) [5, 8]"
proof -
  let ?tcp = "ClientTcpReader (StreamItem (Inr (TcpFromServerApplicationLogic 6))) :: (nat, nat, nat, nat) client_incoming"
  let ?udp = "ClientUdpReader (StreamItem (Inr (UdpFromServerApplicationLogic 5)))"
  let ?eof = "ClientEndOfStream (ClientEofTcpReader (Controlled ReadEndOfStream))"
  have ys: "merged (client_streams [] [StreamItem (Inr (TcpFromServerApplicationLogic 6))] (Controlled ReadEndOfStream)
      (Erratic Panic) [StreamItem (Inr (UdpFromServerApplicationLogic 5)), StreamItem (Inr (UdpFromServerApplicationLogic 8))]
      (Erratic Panic) (Erratic Panic)) [?tcp, ?udp, ?eof]"
    unfolding client_streams_def
    by (rule merged_next [of 1], simp, simp, rule merged_next [of 3], simp, simp add: numeral_3_eq_3,
        rule merged_next [of 1]) simp_all
  obtain st where run: "run_loop (client_step ref_client_env) num_client [(Some ?tcp, 1), (Some ?udp, 2), (Some ?eof, 3)] = Running st"
    by (simp add: ref_client_eval)
  have timed: "map fst [(Some ?tcp, 1), (Some ?udp, 2), (Some ?eof, 3)] = map Some [?tcp, ?udp, ?eof]" by simp
  from client_reports_messages_in_order [where acc = "\<lambda>l. l" and env = ref_client_env and st = st,
      OF _ _ refl ys timed, of "\<lambda>_. []" 0 "\<lambda>_. []" 1] run
  have "concat (map client_tcp_heard (client_event_sender st)) = [6] \<and>
      prefix (concat (map client_udp_heard (client_event_sender st))) [5, 8]"
    by (simp add: ref_send_open_law ref_client_def Let_def)
  with run show ?thesis by blast
qed

text \<open>C25: the status a client's handle obtains carries the time of the last heartbeat received, and none
  before the first.\<close>

theorem client_status_is_last_heartbeat:
  assumes "run_loop (client_step env) (client_task_new tx tc tt uc ut)
      (is @ [(Some (ClientActorMessage (GetStatus ch)), now)]) = Running st"
    and "try_send ch_tx (GetStatus ch) = (ch_tx', None)"
    and "await ch = map_of (rev (status_replies st)) ch"
  shows "\<exists>h. client_get_status try_send await ch \<lparr>client_sender = ch_tx, client_join_handle = j\<rparr> =
    Inr (h, Inr \<lparr>status_latest_udp_heartbeat = fold (\<lambda>i t. heartbeat_time t i) is None\<rparr>)"
proof -
  from assms(1) obtain su where su: "run_loop (client_step env) (client_task_new tx tc tt uc ut) is = Running su"
    and st: "client_step env su (Some (ClientActorMessage (GetStatus ch)), now) = Running st"
    by (auto simp: run_loop_append split: flow.splits)
  from client_run_heartbeat [OF su]
  have "latest_udp_heartbeat (client_state su) = fold (\<lambda>i t. heartbeat_time t i) is None"
    by (simp add: client_task_new_def)
  with st assms(3) have "await ch = Some \<lparr>status_latest_udp_heartbeat = fold (\<lambda>i t. heartbeat_time t i) is None\<rparr>"
    by auto
  with assms(2) show ?thesis by (simp add: client_get_status_def)
qed

theorem client_status_is_last_heartbeat_witness:
  "\<exists>h. client_get_status ref_unbounded_send (\<lambda>_. Some \<lparr>status_latest_udp_heartbeat = Some 30\<rparr>) 7
      \<lparr>client_sender = [] :: (nat, nat) client_message list, client_join_handle = 0\<rparr> =
    Inr (h, Inr \<lparr>status_latest_udp_heartbeat = Some 30\<rparr>)"
proof -
  let ?is = "[(Some (ClientUdpReader (StreamItem (Inr Heartbeat))), 20),
      (Some (ClientUdpReader (StreamItem (Inr Heartbeat))), 30)]"
  obtain st where run: "run_loop (client_step ref_client_env) num_client
      (?is @ [(Some (ClientActorMessage (GetStatus 7)), 31)]) = Running st"
    and reply: "status_replies st = [(7, \<lparr>status_latest_udp_heartbeat = Some 30\<rparr>)]"
    by (simp add: ref_client_eval)
  from client_status_is_last_heartbeat [OF run [unfolded ref_client_def], where ch_tx = "[]" and j = 0
      and try_send = ref_unbounded_send and await = "\<lambda>_. Some \<lparr>status_latest_udp_heartbeat = Some 30\<rparr>"] reply
  show ?thesis by (simp add: ref_unbounded_send_def)
qed

text \<open>C22: on any run, whatever the channels answer, the task's loop ends exactly in the round in which its
  last handle has been dropped, all its streams have ended, or an application message of the server, on TCP
  or on UDP, cannot be reported because the application has dropped its event receiver (a readiness event
  that cannot be reported is only logged). It panics, with \<open>todo!\<close>, exactly on data from the server that
  cannot be deserialized and on a message of a handle that the mailbox of its write actor refuses, full or
  closed. Otherwise it goes on: the end of its connection to the server does not stop it.\<close>

theorem client_loop_exits:
  assumes "try_send_law (client_tcp_try_send env) ta" and "try_send_law (client_udp_try_send env) ua"
  shows "((\<exists>st' r. run_loop (client_step env) st is = Finished st' r) \<longleftrightarrow>
      (\<exists>before i later su. is = before @ i # later \<and>
         run_loop (client_step env) st before = Running su \<and> client_leaves env su (fst i))) \<and>
    ((\<exists>p. run_loop (client_step env) st is = Panicked p) \<longleftrightarrow>
      (\<exists>before i later su. is = before @ i # later \<and>
         run_loop (client_step env) st before = Running su \<and> client_crashes env su (fst i))) \<and>
    (\<forall>p. run_loop (client_step env) st is = Panicked p \<longrightarrow> p = Todo)"
proof -
  have step: "if client_leaves env su (fst i) then \<exists>s. client_step env su i = Finished s ()
    else if client_crashes env su (fst i) then client_step env su i = Panicked Todo
    else \<exists>s. client_step env su i = Running s" for su i
    using client_step_ends [OF assms, of su "fst i" "snd i"] by (simp only: prod.collapse)
  have leaves: "(\<exists>s r. client_step env su i = Finished s r) \<longleftrightarrow> client_leaves env su (fst i)" for su i
    using step [of su i] by (auto split: if_splits)
  have crashes: "client_step env su i = Panicked p \<longleftrightarrow> p = Todo \<and> client_crashes env su (fst i)" for su i p
    using step [of su i] client_leaves_not_crashes [of env su "fst i"] by (auto split: if_splits)
  show ?thesis
    unfolding run_loop_Finished_iff leaves run_loop_Panicked_iff crashes by blast
qed

theorem client_loop_exits_witness:
  "(\<exists>st' r. run_loop (client_step ref_client_env) num_client
      [(Some (ClientEndOfStream (ClientEofTcpReader (Controlled ReadEndOfStream))), 1),
       (Some (ClientEndOfStream ClientEofActorMessage), 2)] = Finished st' r) \<and>
   (\<exists>p. run_loop (client_step ref_client_env) num_client
      [(Some (ClientEndOfStream (ClientEofTcpReader (Controlled ReadEndOfStream))), 1),
       (Some (ClientUdpReader (StreamItem (Inl (UdpBincode ''bad'')))), 2)] = Panicked p)"
proof
  note exits = client_loop_exits [where env = ref_client_env and st = num_client, unfolded ref_client_env_simps,
      OF ref_unbounded_send_law(1) ref_unbounded_send_law(1)]
  let ?closed = "(Some (ClientEndOfStream (ClientEofTcpReader (Controlled ReadEndOfStream))), 1)"
  have run: "run_loop (client_step ref_client_env) num_client [?closed] = Running num_client" by simp
  show "\<exists>st' r. run_loop (client_step ref_client_env) num_client
      [?closed, (Some (ClientEndOfStream ClientEofActorMessage), 2)] = Finished st' r"
    by (rule exits [THEN conjunct1, THEN iffD2], rule exI [of _ "[?closed]"])
      simp
  show "\<exists>p. run_loop (client_step ref_client_env) num_client
      [?closed, (Some (ClientUdpReader (StreamItem (Inl (UdpBincode ''bad'')))), 2)] = Panicked p"
    by (rule exits [THEN conjunct2, THEN conjunct1, THEN iffD2], rule exI [of _ "[?closed]"])
      simp
qed

section \<open>The handle\<close>

text \<open>C37: sending through the handle never panics; when the channel is full or the task is gone, the
  message comes back in the error.\<close>

theorem client_send_returns_message:
  assumes law: "try_send_law ts acc"
  shows "(\<exists>h' r. client_send_message_tcp ts h m = Inr (h', r) \<and>
      (case r of
         None \<Rightarrow> acc (client_sender h') = acc (client_sender h) @ [MsgTcpToServer m]
       | Some e \<Rightarrow> e \<in> {ClientChannelFull m, ActorUnreachable m} \<and>
           acc (client_sender h') = acc (client_sender h))) \<and>
    (\<exists>h' r. client_send_message_udp ts h d = Inr (h', r) \<and>
      (case r of
         None \<Rightarrow> acc (client_sender h') = acc (client_sender h) @ [MsgUdpToServer d]
       | Some e \<Rightarrow> e \<in> {ClientChannelFull d, ActorUnreachable d} \<and>
           acc (client_sender h') = acc (client_sender h)))"
proof
  obtain tx r where sent: "ts (client_sender h) (MsgTcpToServer m) = (tx, r)" by fastforce
  show "\<exists>h' r. client_send_message_tcp ts h m = Inr (h', r) \<and>
      (case r of
         None \<Rightarrow> acc (client_sender h') = acc (client_sender h) @ [MsgTcpToServer m]
       | Some e \<Rightarrow> e \<in> {ClientChannelFull m, ActorUnreachable m} \<and>
           acc (client_sender h') = acc (client_sender h))"
  proof (cases r)
    case None
    with sent have "ts (client_sender h) (MsgTcpToServer m) = (tx, None)" by simp
    from try_send_law_ok [OF law this] this show ?thesis by (simp add: client_send_message_tcp_def)
  next
    case (Some err)
    with sent have failed: "ts (client_sender h) (MsgTcpToServer m) = (tx, Some err)" by simp
    from try_send_law_err [OF law this] this show ?thesis by (auto simp: client_send_message_tcp_def)
  qed
  obtain tx r where sent: "ts (client_sender h) (MsgUdpToServer d) = (tx, r)" by fastforce
  show "\<exists>h' r. client_send_message_udp ts h d = Inr (h', r) \<and>
      (case r of
         None \<Rightarrow> acc (client_sender h') = acc (client_sender h) @ [MsgUdpToServer d]
       | Some e \<Rightarrow> e \<in> {ClientChannelFull d, ActorUnreachable d} \<and>
           acc (client_sender h') = acc (client_sender h))"
  proof (cases r)
    case None
    with sent have "ts (client_sender h) (MsgUdpToServer d) = (tx, None)" by simp
    from try_send_law_ok [OF law this] this show ?thesis by (simp add: client_send_message_udp_def)
  next
    case (Some err)
    with sent have failed: "ts (client_sender h) (MsgUdpToServer d) = (tx, Some err)" by simp
    from try_send_law_err [OF law this] this show ?thesis by (auto simp: client_send_message_udp_def)
  qed
qed

theorem client_send_returns_message_witness:
  "\<exists>h' r. client_send_message_tcp ref_try_send
      (client_handle_new 0 (ref_channel 0) :: (nat, nat) client_message ref_chan client_handle) 5 = Inr (h', r) \<and>
    (case r of None \<Rightarrow> False | Some e \<Rightarrow> e \<in> {ClientChannelFull 5, ActorUnreachable 5})"
proof -
  from client_send_returns_message [OF ref_try_send_law, of "client_handle_new 0 (ref_channel 0)" "5 :: nat"
      "6 :: nat", THEN conjunct1]
  obtain h' r where sent: "client_send_message_tcp ref_try_send
      (client_handle_new 0 (ref_channel 0) :: (nat, nat) client_message ref_chan client_handle) 5 = Inr (h', r)"
    and res: "case r of
         None \<Rightarrow> chan_log (client_sender h') =
           chan_log (client_sender (client_handle_new 0 (ref_channel 0))) @ [MsgTcpToServer 5]
       | Some e \<Rightarrow> e \<in> {ClientChannelFull 5, ActorUnreachable 5} \<and> chan_log (client_sender h') =
           chan_log (client_sender (client_handle_new 0 (ref_channel 0)))" by blast
  have "r \<noteq> None" using sent
    by (auto simp: client_send_message_tcp_def client_handle_new_def ref_channel_def ref_try_send_def)
  with res have "case r of None \<Rightarrow> False | Some e \<Rightarrow> e \<in> {ClientChannelFull 5, ActorUnreachable 5}"
    by (cases r) simp_all
  with sent show ?thesis by blast
qed

section \<open>Connecting\<close>

text \<open>C39: connecting succeeds exactly when the host resolves and every socket call succeeds; it takes the
  first resolved address, binds the UDP socket to the local address of the TCP stream, and connects
  both sockets to that server address. A host that resolves to no address is reported by name.\<close>

theorem connect_outcomes:
  "(client_connect net server_host = Inr (tcp_stream, udp_socket, server_addr) \<longleftrightarrow>
     (\<exists>others local_addr. lookup_host net server_host = Inr (server_addr # others) \<and>
        tcp_connect net server_addr = Inr tcp_stream \<and> tcp_local_addr net tcp_stream = Inr local_addr \<and>
        udp_bind net local_addr = Inr udp_socket \<and> udp_connect net udp_socket server_addr = Inr ())) \<and>
   (client_connect net server_host = Inl (UnknownHost host) \<longleftrightarrow>
     host = server_host \<and> lookup_host net server_host = Inr [])"
proof
  show "client_connect net server_host = Inr (tcp_stream, udp_socket, server_addr) \<longleftrightarrow>
     (\<exists>others local_addr. lookup_host net server_host = Inr (server_addr # others) \<and>
        tcp_connect net server_addr = Inr tcp_stream \<and> tcp_local_addr net tcp_stream = Inr local_addr \<and>
        udp_bind net local_addr = Inr udp_socket \<and> udp_connect net udp_socket server_addr = Inr ())"
  proof (cases "lookup_host net server_host")
    case (Inr addrs)
    then show ?thesis by (cases addrs) (auto simp: client_connect_def io_result_Inr)
  qed (simp add: client_connect_def)
  show "client_connect net server_host = Inl (UnknownHost host) \<longleftrightarrow>
     host = server_host \<and> lookup_host net server_host = Inr []"
  proof (cases "lookup_host net server_host")
    case (Inr addrs)
    then show ?thesis
      by (cases addrs) (auto simp: client_connect_def and_then_eq_Inl io_result_Inr io_result_not_unknown)
  qed (simp add: client_connect_def)
qed

section \<open>The client's datagrams\<close>

text \<open>C26: every datagram the client's UDP write actor writes is addressed to the server and deserializes
  to the message posted; the messages are a prefix of those posted, in order.\<close>

theorem client_datagrams_reach_server_address:
  assumes "serde_law ser de" and "sink_ops_law (\<lambda>f. f) frames sink" and "frames k = []"
  shows "\<exists>k' r xs. write_actor (client_udp_tx ser sink server_addr) k (map Some ms @ [None]) = Finished k' r \<and>
    prefix xs (payloads ms) \<and>
    map (\<lambda>f. udp_read_item de (Inr f)) (frames k') = map (\<lambda>x. Inr (Inr x, server_addr)) xs \<and>
    (r = WriteActorHandlesDropped \<longrightarrow> xs = payloads ms)"
proof -
  note law = client_udp_tx_law [OF assms(1,2), of server_addr]
  obtain performed rest k' r where ms: "ms = performed @ rest"
    and w: "write_actor (client_udp_tx ser sink server_addr) k (map Some ms @ [None]) = Finished k' r"
    and out: "write_outcome (\<lambda>x. Inr (Inr x, server_addr)) (\<lambda>k. map (\<lambda>f. udp_read_item de (Inr f)) (frames k))
      k performed rest k' r"
    by (rule write_actor_run [OF law, of ms k])
  obtain xs where "map (\<lambda>f. udp_read_item de (Inr f)) (frames k') =
      map (\<lambda>f. udp_read_item de (Inr f)) (frames k) @ map (\<lambda>x. Inr (Inr x, server_addr)) xs"
    and "prefix xs (payloads ms)" and "r = WriteActorHandlesDropped \<longrightarrow> xs = payloads ms"
    by (rule write_outcome_prefix [OF out ms])
  with w assms(3) show ?thesis by auto
qed

theorem client_datagrams_reach_server_address_witness:
  "\<exists>k' r xs. write_actor (client_udp_tx ref_serialize ref_framed (ref_addr 9)) []
      (map Some [Send 1, Send 255, Send 2] @ [None]) = Finished k' r \<and>
    prefix xs (payloads [Send 1, Send 255, Send 2]) \<and>
    map (\<lambda>f. udp_read_item ref_deserialize (Inr f)) k' = map (\<lambda>x. Inr (Inr x, ref_addr 9)) xs \<and>
    (r = WriteActorHandlesDropped \<longrightarrow> xs = payloads [Send 1, Send 255, Send 2])"
  by (rule client_datagrams_reach_server_address [OF ref_serde_law ref_framed_law refl])

end
