(* ===== verification/ChatClient.thy ===== *)
theory ChatClient
  imports Chat ClientActor
begin

text \<open>
  The chat client of \<open>src/examples/tcp-chat/main.rs\<close>: what its event task prints, and the loop that
  sends the lines of the standard input to the server.
\<close>

section \<open>Printing\<close>

fun join_strings :: "string \<Rightarrow> string list \<Rightarrow> string" where
  "join_strings sep [] = []"
| "join_strings sep [s] = s"
| "join_strings sep (s # t # ss) = s @ sep @ join_strings sep (t # ss)"

definition message_line :: "chat_message \<Rightarrow> string" where
  "message_line msg = user_name (said_by msg) @ '': '' @ said_text msg"

text \<open>The lines printed for an event; those of UDP are not in play.\<close>

fun client_prints :: "(from_server_to_peer, unit) client_event \<Rightarrow> string list" where
  "client_prints (ClientTcpMessage (ChatWelcome welcome_msg)) =
     [''You connected as: '' @ your_name welcome_msg,
      ''Users in the chat room: '' @ join_strings '', '' (map user_name (welcome_users welcome_msg)),
      ''Latest messages:''] @ map message_line (latest_messages welcome_msg)"
| "client_prints (ClientTcpMessage (NewMessage msg)) = [message_line msg]"
| "client_prints (ClientTcpMessage (UserConnect user)) = [''New user connected: '' @ user_name user]"
| "client_prints (ClientTcpMessage (UserDisconnect user)) = [''User disconnected: '' @ user_name user]"
| "client_prints (ClientUdpMessage m) = []"
| "client_prints CanSendUdpMessages = []"
| "client_prints CanReceiveUdpMessages = []"

definition client_output :: "(from_server_to_peer, unit) client_event list \<Rightarrow> string list" where
  "client_output events = concat (map client_prints events)"

section \<open>Sending\<close>

text \<open>
  \<open>reader.read_line(&mut line)\<close> appends to the line and returns the number of bytes read (0 at the
  end of the input), or fails.
\<close>

type_synonym line_read = "io_error + nat \<times> string"

record 'mtx chat_input =
  input_handle :: "'mtx client_handle"
  input_line :: string

fun chat_input_step ::
  "('mtx, (from_peer_to_server, unit) client_message) try_send \<Rightarrow> 'mtx chat_input \<Rightarrow> line_read \<Rightarrow>
   ('mtx chat_input, unit) flow" where
  "chat_input_step ts st (Inr (0, s)) = Finished (st\<lparr>input_line := input_line st @ s\<rparr>) ()"
| "chat_input_step ts st (Inr (Suc n, s)) =
     (let line = input_line st @ s in
      to_flow (and_then (client_send_message_tcp ts (input_handle st) (PeerSays line)) (\<lambda>(h, _).
        Inr (st\<lparr>input_handle := h, input_line := []\<rparr>))))"
| "chat_input_step ts st (Inl err) = Finished st ()"

definition chat_input_new :: "'mtx client_handle \<Rightarrow> 'mtx chat_input" where
  "chat_input_new h = \<lparr>input_handle = h, input_line = []\<rparr>"

text \<open>The lines read before the end of the input or an error.\<close>

fun lines_read :: "line_read list \<Rightarrow> string list" where
  "lines_read (Inr (Suc n, s) # rs) = s # lines_read rs"
| "lines_read _ = []"

lemma client_send_tcp_open:
  assumes "try_send_law ts acc" and "receiver_open ts"
  obtains h' where "client_send_message_tcp ts h m = Inr (h', None)"
    and "acc (client_sender h') = acc (client_sender h) @ [MsgTcpToServer m]"
proof (cases "ts (client_sender h) (MsgTcpToServer m)")
  case (Pair tx r)
  with receiver_openD [OF assms(2)] have sent: "ts (client_sender h) (MsgTcpToServer m) = (tx, None)" by simp
  show ?thesis
    by (rule that [of "h\<lparr>client_sender := tx\<rparr>"])
      (simp_all add: client_send_message_tcp_def sent try_send_law_ok [OF assms(1) sent])
qed

text \<open>Sending a line never panics, and leaves the handle with the channel as the attempt leaves it.\<close>

lemma client_send_tcp_exact:
  assumes law: "try_send_law ts acc"
  shows "\<exists>r. client_send_message_tcp ts h m =
    Inr (h\<lparr>client_sender := fst (ts (client_sender h) (MsgTcpToServer m))\<rparr>, r)"
proof (cases "ts (client_sender h) (MsgTcpToServer m)")
  case (Pair tx res)
  show ?thesis
  proof (cases res)
    case None
    with Pair show ?thesis by (simp add: client_send_message_tcp_def)
  next
    case (Some err)
    with Pair try_send_law_err [OF law, of "client_sender h" "MsgTcpToServer m" tx err]
    show ?thesis by (auto simp: client_send_message_tcp_def)
  qed
qed

text \<open>Whether the input has ended or failed.\<close>

fun input_ends :: "line_read list \<Rightarrow> bool" where
  "input_ends (Inr (Suc n, s) # rs) = input_ends rs"
| "input_ends (Inr (0, s) # rs) = True"
| "input_ends (Inl err # rs) = True"
| "input_ends [] = False"

lemma chat_input_run:
  assumes law: "try_send_law ts acc" and "input_line st = []"
  shows "\<exists>st'. client_sender (input_handle st') =
      post_all ts (map (\<lambda>s. MsgTcpToServer (PeerSays s)) (lines_read rs)) (client_sender (input_handle st)) \<and>
    run_loop (chat_input_step ts) st rs = (if input_ends rs then Finished st' () else Running st')"
  using assms(2)
proof (induction rs arbitrary: st rule: input_ends.induct)
  case (1 n s rs)
  let ?m = "PeerSays s"
  let ?h = "(input_handle st)\<lparr>client_sender := fst (ts (client_sender (input_handle st)) (MsgTcpToServer ?m))\<rparr>"
  let ?su = "st\<lparr>input_handle := ?h, input_line := []\<rparr>"
  obtain r where "client_send_message_tcp ts (input_handle st) ?m = Inr (?h, r)"
    using client_send_tcp_exact [OF law] by blast
  with 1(2) have "chat_input_step ts st (Inr (Suc n, s)) = Running ?su" by simp
  then have run: "run_loop (chat_input_step ts) st (Inr (Suc n, s) # rs) = run_loop (chat_input_step ts) ?su rs"
    by (simp only: run_loop.simps flow.case)
  from 1(1) [of ?su] show ?case unfolding run by simp
qed auto

end
