(* ===== verification/ChatProperties.thy ===== *)
theory ChatProperties
  imports Reference ChatClient
begin

text \<open>
  What the chat example guarantees: the history it keeps, the names it gives, and the lines its
  client sends. Each theorem with a hypothesis is applied to a concrete run.
\<close>

text \<open>C35: the messages a chat server keeps for newcomers are exactly the last ten it announced to the
  room, in order.\<close>

theorem chat_history_is_last_ten_announced:
  assumes "try_send_law (chat_send env) acc" and "acc (server_sender h) = []"
    and "run_loop (chat_step env) (chat_task_new h) evs = Running task"
  shows "chat_messages (chat_state task) = take_last 10 (announced (acc (server_sender (chat_handle task))))"
proof -
  have "chat_messages (chat_state (chat_task_new h)) = take_last 10 []"
    by (simp add: chat_task_new_def chat_state_default_def take_last_def)
  from chat_run_history [OF assms(1,3) this] assms(2) show ?thesis by (auto simp: chat_task_new_def)
qed

theorem chat_history_is_last_ten_announced_witness:
  "\<exists>task. run_loop (chat_step ref_chat_env) ref_chat
      [NewPeer \<lparr>new_peer_uid = PeerUid 0\<rparr>, TcpMessage \<lparr>message_from = PeerUid 0, message_body = PeerSays ''hi''\<rparr>] =
      Running task \<and>
    chat_messages (chat_state task) = take_last 10 (announced (server_sender (chat_handle task))) \<and>
    chat_messages (chat_state task) = [\<lparr>said_by = \<lparr>user_name = user_label 1\<rparr>, said_text = ''hi''\<rparr>]"
proof -
  obtain task where run: "run_loop (chat_step ref_chat_env) ref_chat
      [NewPeer \<lparr>new_peer_uid = PeerUid 0\<rparr>, TcpMessage \<lparr>message_from = PeerUid 0, message_body = PeerSays ''hi''\<rparr>] =
      Running task"
    and msgs: "chat_messages (chat_state task) = [\<lparr>said_by = \<lparr>user_name = user_label 1\<rparr>, said_text = ''hi''\<rparr>]"
    by (simp add: ref_chat_eval)
  from chat_history_is_last_ten_announced [of ref_chat_env "\<lambda>l. l", OF _ _ run [unfolded ref_chat_def]] run msgs
  show ?thesis by (simp add: ref_unbounded_send_law server_handle_new_def)
qed

text \<open>C36: at any time every connected user carries the name of one of the connections counted so far,
  and no two connected users carry the same name.\<close>

theorem chat_names_distinct:
  assumes "run_loop (chat_step env) (chat_task_new h) evs = Running task"
    and "hm_get (connected_users (chat_state task)) u = Some x"
    and "hm_get (connected_users (chat_state task)) v = Some y" and "u \<noteq> v"
  shows "user_name x \<noteq> user_name y \<and>
    (\<exists>k. 1 \<le> k \<and> k \<le> user_counter (chat_state task) \<and> user_name x = user_label k)"
  using chat.run_keeps [OF admissible_trivial chat_inv_new assms(1)] assms(2-4)
  unfolding chat_inv_def by blast

theorem chat_names_distinct_witness:
  "\<exists>task x y. run_loop (chat_step ref_chat_env) ref_chat
      [NewPeer \<lparr>new_peer_uid = PeerUid 0\<rparr>, NewPeer \<lparr>new_peer_uid = PeerUid 1\<rparr>] = Running task \<and>
    hm_get (connected_users (chat_state task)) (PeerUid 0) = Some x \<and>
    hm_get (connected_users (chat_state task)) (PeerUid 1) = Some y \<and> user_name x \<noteq> user_name y"
proof -
  obtain task where run: "run_loop (chat_step ref_chat_env) ref_chat
      [NewPeer \<lparr>new_peer_uid = PeerUid 0\<rparr>, NewPeer \<lparr>new_peer_uid = PeerUid 1\<rparr>] = Running task"
    and users: "hm_get (connected_users (chat_state task)) (PeerUid 0) = Some \<lparr>user_name = user_label 1\<rparr>"
      "hm_get (connected_users (chat_state task)) (PeerUid 1) = Some \<lparr>user_name = user_label 2\<rparr>"
    by (simp add: ref_chat_eval numeral_2_eq_2)
  from chat_names_distinct [OF run [unfolded ref_chat_def] users]
  have "user_name \<lparr>user_name = user_label 1\<rparr> \<noteq> user_name \<lparr>user_name = user_label 2\<rparr>" by simp
  with run users show ?thesis by blast
qed

text \<open>C40: the chat client hands every line it reads before the end of its input, or an error of it, to its
  handle once and in order, and nothing else; it goes on reading exactly until then, and never panics. The
  handle's channel is bounded: a line that it refuses, full or without a client task behind it, is lost
  and the following lines are sent all the same. So the messages the channel takes are the lines read, in
  their order, without the refused ones, and all of them if it refuses none.\<close>

theorem chat_client_sends_every_line:
  assumes law: "try_send_law ts acc"
  shows "\<exists>st xs.
    run_loop (chat_input_step ts) (chat_input_new h) rs = (if input_ends rs then Finished st () else Running st) \<and>
    client_sender (input_handle st) =
      fold (\<lambda>line tx. fst (ts tx (MsgTcpToServer (PeerSays line)))) (lines_read rs) (client_sender h) \<and>
    acc (client_sender (input_handle st)) = acc (client_sender h) @ xs \<and>
    subseq xs (map (\<lambda>line. MsgTcpToServer (PeerSays line)) (lines_read rs)) \<and>
    (receiver_open ts \<longrightarrow> xs = map (\<lambda>line. MsgTcpToServer (PeerSays line)) (lines_read rs))"
proof -
  from chat_input_run [OF law, of "chat_input_new h" rs] obtain st where
    st: "client_sender (input_handle st) =
      post_all ts (map (\<lambda>s. MsgTcpToServer (PeerSays s)) (lines_read rs)) (client_sender h)"
    and run: "run_loop (chat_input_step ts) (chat_input_new h) rs =
      (if input_ends rs then Finished st () else Running st)" by (auto simp: chat_input_new_def)
  from post_all_taken [OF law, of "map (\<lambda>s. MsgTcpToServer (PeerSays s)) (lines_read rs)" "client_sender h"] st
  obtain xs where "acc (client_sender (input_handle st)) = acc (client_sender h) @ xs"
    "subseq xs (map (\<lambda>s. MsgTcpToServer (PeerSays s)) (lines_read rs))"
    "receiver_open ts \<longrightarrow> xs = map (\<lambda>s. MsgTcpToServer (PeerSays s)) (lines_read rs)" by auto
  moreover have "client_sender (input_handle st) =
      fold (\<lambda>line tx. fst (ts tx (MsgTcpToServer (PeerSays line)))) (lines_read rs) (client_sender h)"
    by (simp add: st post_all_def fold_map comp_def)
  ultimately show ?thesis using run by blast
qed

theorem chat_client_sends_every_line_witness:
  "\<exists>st xs. run_loop (chat_input_step ref_try_send) (chat_input_new (client_handle_new 0 (ref_channel 1)))
      [Inr (2, ''a''), Inr (2, ''b''), Inr (0, []), Inr (2, ''c'')] = Finished st () \<and>
    chan_log (client_sender (input_handle st)) = [] @ xs \<and>
    subseq xs [MsgTcpToServer (PeerSays ''a''), MsgTcpToServer (PeerSays ''b'')]"
  using chat_client_sends_every_line [OF ref_try_send_law, of "client_handle_new 0 (ref_channel 1)"
      "[Inr (2, ''a''), Inr (2, ''b''), Inr (0, []), Inr (2, ''c'')]"]
  by (auto simp: client_handle_new_def ref_channel_def numeral_2_eq_2)

end
