(* ===== verification/ChatSystem.thy ===== *)
theory ChatSystem
  imports ChatClient System
begin

text \<open>
  The path of a chat message through every part: the chat client's input, the client task, the
  broker, the chat server, the broker again, and the chat clients of all users. One lemma per part.
\<close>

section \<open>From the terminal to the client's TCP write actor\<close>

lemma client_forwards_tcp:
  assumes "try_send_law (client_tcp_try_send env) acc" and "receiver_open (client_tcp_try_send env)"
  obtains cl' where "client_step env cl (Some (ClientActorMessage (MsgTcpToServer msg)), now) = Running cl'"
    and "acc (wr_actor_msg_tx (client_tcp_write_actor cl')) =
      acc (wr_actor_msg_tx (client_tcp_write_actor cl)) @ [Send (TcpToServerApplicationLogic msg)]"
proof -
  obtain h where "write_send (client_tcp_try_send env) (client_tcp_write_actor cl)
      (TcpToServerApplicationLogic msg) = Inr (h, None)"
    and "acc (wr_actor_msg_tx h) =
      acc (wr_actor_msg_tx (client_tcp_write_actor cl)) @ [Send (TcpToServerApplicationLogic msg)]"
    unfolding write_send_def using wr.post_open [OF assms] by blast
  then show ?thesis by (intro that [of "cl\<lparr>client_tcp_write_actor := h\<rparr>"]) simp_all
qed

lemma client_says_line:
  assumes handle: "try_send_law ts acc" "receiver_open ts"
    and mailbox: "try_send_law (client_tcp_try_send env) ka" "receiver_open (client_tcp_try_send env)"
  obtains m input cl' where "chat_input_step ts (chat_input_new h) (Inr (Suc n, s)) = Running input"
    and "acc (client_sender (input_handle input)) = acc (client_sender h) @ [m]"
    and "client_step env cl (Some (ClientActorMessage m), now) = Running cl'"
    and "ka (wr_actor_msg_tx (client_tcp_write_actor cl')) =
      ka (wr_actor_msg_tx (client_tcp_write_actor cl)) @ [Send (TcpToServerApplicationLogic (PeerSays s))]"
proof -
  obtain h' where sent: "client_send_message_tcp ts h (PeerSays s) = Inr (h', None)"
    and posted: "acc (client_sender h') = acc (client_sender h) @ [MsgTcpToServer (PeerSays s)]"
    by (rule client_send_tcp_open [OF handle])
  obtain cl' where cl': "client_step env cl (Some (ClientActorMessage (MsgTcpToServer (PeerSays s))), now) = Running cl'"
    "ka (wr_actor_msg_tx (client_tcp_write_actor cl')) =
      ka (wr_actor_msg_tx (client_tcp_write_actor cl)) @ [Send (TcpToServerApplicationLogic (PeerSays s))]"
    by (rule client_forwards_tcp [OF mailbox])
  show ?thesis
    by (rule that [of "\<lparr>input_handle = h', input_line = []\<rparr>" "MsgTcpToServer (PeerSays s)" cl'])
      (use sent posted cl' in \<open>simp_all add: chat_input_new_def\<close>)
qed

section \<open>The chat server\<close>

lemma chat_announces_message:
  assumes "try_send_law (chat_send env) ca" and "receiver_open (chat_send env)"
    and "hm_get (connected_users (chat_state task)) u = Some user"
  obtains task' where
    "chat_step env task (TcpMessage \<lparr>message_from = u, message_body = PeerSays s\<rparr>) = Running task'"
    and "ca (server_sender (chat_handle task')) =
      ca (server_sender (chat_handle task)) @ [AnnounceTcp (NewMessage \<lparr>said_by = user, said_text = s\<rparr>)]"
proof -
  let ?cmd = "AnnounceTcp (NewMessage \<lparr>said_by = user, said_text = s\<rparr>)"
  obtain h where h: "server_post (chat_send env) (chat_handle task) ?cmd = Inr h"
    by (rule server_post_open [OF assms(2)])
  let ?task = "task\<lparr>chat_state := (chat_state task)\<lparr>chat_messages :=
      pop_front_over 10 (chat_messages (chat_state task) @ [\<lparr>said_by = user, said_text = s\<rparr>])\<rparr>, chat_handle := h\<rparr>"
  show ?thesis
  proof (rule that)
    show "chat_step env task (TcpMessage \<lparr>message_from = u, message_body = PeerSays s\<rparr>) = Running ?task"
      using h assms(3) by (simp add: chat_step_Running Let_def handle_announce_tcp_def)
    show "ca (server_sender (chat_handle ?task)) = ca (server_sender (chat_handle task)) @ [?cmd]"
      using server_post_history [OF assms(1) h] by simp
  qed
qed

section \<open>The broker's announcement\<close>

lemma broker_announces:
  assumes inv: "safe_inv env ra wa ua ea st" and iter: "iter_law (iter_order env)"
    and opened: "receiver_open (wr_try_send env)"
  obtains st' where "server_step env st (ActorMessage (AnnounceTcp msg), new) = Running st'"
    and "safe_inv env ra wa ua ea st'"
    and "\<And>v q. hm_get (peers st) v = Some q \<Longrightarrow> \<exists>q'. hm_get (peers st') v = Some q' \<and>
      wa (wr_actor_msg_tx (tcp_write_actor_handle q')) = wa (wr_actor_msg_tx (tcp_write_actor_handle q)) @
        [Send (TcpFromServerApplicationLogic (clone_tfs env msg))]"
proof -
  let ?i = "(ActorMessage (AnnounceTcp msg), new)"
  have "benign ra wa st ?i" by (simp add: benign_def)
  from server_step_safe [OF inv this] obtain st' where run: "server_step env st ?i = Running st'"
    and inv': "safe_inv env ra wa ua ea st'" by blast
  from run have announced: "announce_tcp env (TcpFromServerApplicationLogic msg) st = Inr st'"
    by (auto simp: server_step_Running loop_top_Inr)
  from inv have wf: "hm_wf (peers st)" and law: "try_send_law (wr_try_send env) wa"
    by (simp_all add: safe_inv_def server_env_law_def server_wf_def maps_wf_def)
  show ?thesis
  proof (rule that [OF run inv'])
    fix v q assume "hm_get (peers st) v = Some q"
    from announce_tcp_spec(3) [OF iter wf announced this] obtain q' where
      "hm_get (peers st') v = Some q'"
      and sent: "sent_to_peer (wr_try_send env) (TcpFromServerApplicationLogic (clone_tfs env msg)) q q'" by auto
    then show "\<exists>q'. hm_get (peers st') v = Some q' \<and>
      wa (wr_actor_msg_tx (tcp_write_actor_handle q')) = wa (wr_actor_msg_tx (tcp_write_actor_handle q)) @
        [Send (TcpFromServerApplicationLogic (clone_tfs env msg))]"
      using sent_to_peer_history [OF law sent] opened by auto
  qed
qed

section \<open>From the client task to the terminal\<close>

lemma client_hears:
  assumes "sink_law (client_event_send env) cea" and "sink_open (client_event_send env)"
  obtains cl' where
    "client_step env cl (Some (ClientTcpReader (StreamItem (Inr (TcpFromServerApplicationLogic msg)))), now) = Running cl'"
    and "client_output (cea (client_event_sender cl')) =
      client_output (cea (client_event_sender cl)) @ client_prints (ClientTcpMessage msg)"
proof -
  obtain tx where "client_emit env (ClientTcpMessage msg) cl = (cl\<lparr>client_event_sender := tx\<rparr>, False)"
    and "cea tx = cea (client_event_sender cl) @ [ClientTcpMessage msg]"
    using client_emit_open [OF assms] by blast
  then show ?thesis
    by (intro that [of "cl\<lparr>client_event_sender := tx\<rparr>"])
      (simp_all add: client_emit_or_break_def client_output_def)
qed

section \<open>A codec\<close>

text \<open>
  A concrete codec of the two messages on the path; it keeps the law of \<open>bincode\<close>, and fails for
  every other message. A text is one byte per character, a name preceded by its length.
\<close>

definition text_bytes :: "string \<Rightarrow> bytes" where
  "text_bytes s = map (\<lambda>c. of_nat (of_char c)) s"

definition bytes_text :: "bytes \<Rightarrow> string" where
  "bytes_text bs = map (\<lambda>b. char_of (unat b)) bs"

lemma bytes_text_bytes [simp]: "bytes_text (text_bytes s) = s"
proof -
  have "char_of (unat (of_nat (of_char c) :: byte)) = c" for c
    by (simp add: unat_of_nat take_bit_eq_mod flip: take_bit_eq_mod)
  then show ?thesis by (simp add: bytes_text_def text_bytes_def comp_def)
qed

lemma length_text_bytes [simp]: "length (text_bytes s) = length s"
  by (simp add: text_bytes_def)

fun ref_say_serialize :: "from_peer_to_server tcp_to_server serializer" where
  "ref_say_serialize (TcpToServerApplicationLogic (PeerSays s)) = Inr (text_bytes s)"

definition ref_say_deserialize :: "from_peer_to_server tcp_to_server deserializer" where
  "ref_say_deserialize bs = Inr (TcpToServerApplicationLogic (PeerSays (bytes_text bs)))"

lemma ref_say_law: "serde_law ref_say_serialize ref_say_deserialize"
  unfolding serde_law_def ref_say_deserialize_def
  by (metis bytes_text_bytes ref_say_serialize.elims sum.inject(2))

fun ref_news_serialize :: "from_server_to_peer tcp_from_server serializer" where
  "ref_news_serialize (TcpFromServerApplicationLogic (NewMessage msg)) =
     (let name = user_name (said_by msg) in
      if length name < 256 then Inr (of_nat (length name) # text_bytes name @ text_bytes (said_text msg))
      else Inl ''too long'')"
| "ref_news_serialize _ = Inl ''not modelled''"

fun ref_news_deserialize :: "from_server_to_peer tcp_from_server deserializer" where
  "ref_news_deserialize [] = Inl ''empty''"
| "ref_news_deserialize (n # bs) =
     Inr (TcpFromServerApplicationLogic (NewMessage
       \<lparr>said_by = \<lparr>user_name = bytes_text (take (unat n) bs)\<rparr>, said_text = bytes_text (drop (unat n) bs)\<rparr>))"

lemma ref_news_law: "serde_law ref_news_serialize ref_news_deserialize"
proof -
  have "ref_news_deserialize b = Inr m" if "ref_news_serialize m = Inr b" for m b
    using that
    by (cases m rule: ref_news_serialize.cases)
      (auto simp: Let_def unat_of_nat split: if_splits)
  then show ?thesis by (simp add: serde_law_def)
qed

end
