(* ===== verification/Spec2Isabelle.thy ===== *)
theory Spec2Isabelle
  imports ServerProperties ServerFaults IoProperties ClientProperties ChatProperties ChatSystem
begin

text \<open>
  A verification library of the crate \<open>net-stream\<close> (\<open>src/src\<close>) and of the chat application in its
  \<open>src/examples/tcp-chat\<close>: a server and a client that exchange typed messages over TCP and UDP.

  \<^bold>\<open>The program.\<close> A server is one task, the broker (\<open>server/actor.rs\<close>, function \<open>actor\<close>): it owns the map
  of connected peers and three reverse indices, and awaits the items of a set of merged streams: the
  commands of its handles (\<open>server/actor_handle.rs\<close>), accepted connections, what the read actors of
  the peers' TCP streams and of the UDP socket deliver, a timer, and the end of every such stream. It
  writes through write actors, one per peer and one for the UDP socket, and reports to the application
  by an unbounded channel of events (\<open>server/event.rs\<close>). A client (\<open>client/actor.rs\<close>) is a task of the
  same shape with one server. Read and write actors (\<open>actors/read_actor.rs\<close>, \<open>actors/write_actor.rs\<close>) are
  tasks of their own, reached by handles over bounded channels. \<open>networking/tcp.rs\<close> and \<open>networking/udp.rs\<close>
  put \<open>bincode\<close> and framing between the sockets and the actors. When a connection is accepted, the
  server sends a UUID in a Welcome over TCP; the client returns it in a Hello over UDP, from which
  the server learns the client's UDP address, and acknowledges on both transports.

  \<^bold>\<open>Theories and code.\<close>
  \<^item> \<open>Prelude\<close>: panics as values (\<open>panic\<close>), sequencing of fallible code (\<open>and_then\<close>, \<open>fold_ok\<close>), the loop
    every task runs (\<open>run_loop\<close> over a step function, with the outcomes \<open>Running\<close>, \<open>Finished\<close>,
    \<open>Panicked\<close>), the locales \<open>loop_invariant\<close>, \<open>safe_loop\<close> and \<open>logged_loop\<close> of such loops, and channels
    and sinks with their documented laws (\<open>try_send_law\<close>, \<open>sink_law\<close>; collected in \<open>channel_laws\<close>).
  \<^item> \<open>HashMap\<close>: \<open>std::collections::HashMap\<close> as an association list, its contract (\<open>key_store\<close>) and the
    contract of a map with a reverse index (\<open>indexed_store\<close>), interpreted for the broker's three indices.
  \<^item> \<open>MessageTypes\<close>: \<open>message_types.rs\<close>. \<open>Networking\<close>: \<open>networking/tcp.rs\<close> and \<open>networking/udp.rs\<close>.
  \<^item> \<open>Actors\<close>: \<open>actors.rs\<close> and the contract \<open>mailbox\<close> of actor handles, which \<open>ReadActor\<close>
    (\<open>actors/read_actor.rs\<close>) and \<open>WriteActor\<close> (\<open>actors/write_actor.rs\<close>) provide, with their tasks.
  \<^item> \<open>ServerTypes\<close>: \<open>server/peer_uid.rs\<close>, \<open>server/event.rs\<close>, \<open>Config\<close> of \<open>server.rs\<close>. \<open>ServerActor\<close>:
    \<open>server/actor.rs\<close>, one definition per function, \<open>server_dispatch\<close> and \<open>handle_end_of_stream\<close> for
    the \<open>match\<close>, \<open>loop_top\<close>, \<open>server_step\<close>, \<open>server_next\<close> (which unwraps the next item) and
    \<open>server_actor\<close> for the loop, \<open>server_msg_rx\<close> and \<open>server_listener_rx\<close> for two of its inputs. \<open>ServerHandle\<close>:
    \<open>server/actor_handle.rs\<close> and \<open>start\<close> of \<open>server.rs\<close>.
  \<^item> \<open>ServerInv\<close>, \<open>ServerEvents\<close>, \<open>ServerSafety\<close>, \<open>ServerSpec\<close>: the broker's invariant \<open>server_wf\<close> and that
    every handler keeps it; the event stream as a refinement of \<open>presence_act\<close>; which items
    are \<open>fatal\<close>, that a run panics exactly on those, and that an environment that keeps to what it
    documents delivers none (invariants \<open>live_inv\<close> and, with \<open>server_wf\<close>, \<open>safe_inv\<close>); the functional
    behaviour of each handler. \<open>ServerMessages\<close>: the peers'
    messages in the event stream.
  \<^item> \<open>Streams\<close>: the interleavings of merged streams (\<open>select_all\<close>), with \<open>ClientStreams\<close> for those of the
    client task. \<open>ClientActor\<close>: \<open>client/actor.rs\<close>, \<open>client/actor_handle.rs\<close>, \<open>client/event.rs\<close> and \<open>connect\<close> of \<open>client.rs\<close>.
  \<^item> \<open>Chat\<close>, \<open>ChatClient\<close>: server and client of \<open>src/examples/tcp-chat/main.rs\<close>.
  \<^item> \<open>System\<close>: lemmas that join server, client and IO actors; \<open>ChatSystem\<close>: the path of a chat message. \<open>Reference\<close>: concrete environments and
    runs, on which the properties are instantiated.
  \<^item> \<open>ServerProperties\<close>, \<open>ServerFaults\<close>, \<open>IoProperties\<close>, \<open>ClientProperties\<close>, \<open>ChatProperties\<close> and this theory: the
    properties, each a short proof over the lemmas of the components.

  \<^bold>\<open>How the code is modelled.\<close> Records have the fields of the structs, datatypes the constructors of the
  enums. A handler takes the state and returns it updated, or a panic: \<open>expect\<close>, \<open>unwrap\<close>,
  \<open>assert!\<close>, \<open>todo!\<close>, \<open>unreachable!\<close> and \<open>panic!\<close> are branches of the definitions. Log
  calls have no effect in the model. \<open>PeerUid\<close> is a 64-bit word: its increment panics on overflow in a
  build with overflow checks and wraps in one without (\<open>debug_assertions\<close> stands for both, as in
  cargo's profiles). \<open>usize\<close> values count entries of collections and connections and are \<open>nat\<close>.
  The state of the broker has two histories that the code does not keep, because the values leave it:
  \<open>replies\<close> (sent into oneshot channels) and \<open>dropped_peers\<close> (what \<open>drop_peer\<close> took from the map).

  A run of a task is \<open>run_loop step s is\<close> for the list \<open>is\<close> of the items that have been delivered to
  it: every schedule and every interleaving of its inputs is such a list, and a result \<open>Running\<close>
  says that the task awaits its next item. Where the end of the merged streams is a case of the code the
  items are options: \<open>None\<close> is what \<open>next().await\<close> yields then, which the broker and the read actor
  unwrap and on which the client leaves its \<open>while let\<close>. No fuel is needed: a round is a total function, and its
  loops run over finite lists. A round of the broker goes from one \<open>await\<close> to the next: the \<open>match\<close>
  on an item, then the top of the loop with the peers to drop; the first \<open>loop_top\<close> of \<open>server_actor\<close> is
  the one before the first \<open>await\<close>. The one \<open>while\<close> loop without an await (\<open>pop_front_over\<close>, the
  history of the chat server) is a function with a termination proof.

  \<^bold>\<open>What is a parameter.\<close> Code outside the repository: the channels and sinks of \<open>futures\<close> (state-passing
  functions with the laws named above: an accepted message is in the channel's history, a refused one
  is given back and the reason is that the channel is full or disconnected), sockets and tasks of \<open>tokio\<close>
  (a task is an identity, its result a value), \<open>bincode\<close> (\<open>serde_law\<close>: what was serialized deserializes to
  an equal value), the framing of \<open>tokio_util\<close>, \<open>Uuid::new_v4\<close> (a fresh value with each connection, as a
  hypothesis of the invariant), the iteration order of a map (\<open>iter_law\<close>: a permutation of its keys), and the
  application's \<open>clone\<close>. A theorem names the laws it needs; \<open>Reference\<close> shows that they can hold.

  \<^bold>\<open>What is shown.\<close> For the broker: capacity over all runs, well-formedness over those whose items
  \<open>incoming_ok\<close> admits, exactly which items it panics on, refinement of the presence machine, consecutive
  UIDs, and for every handler what it posts, to whom, on every branch, with mailboxes that take or refuse
  each message. For the client: exactly when its loop ends or panics, its readiness
  events, its status, its datagrams. For the IO actors: that they stop, where and why, what they have
  done to their sink by then, and what each shutdown reason means; with the codecs, order and integrity
  of a link from mailbox to receiver. For the system:
  the handshake, the chat server against the network server, and a chat message from terminal to terminal. The theorems also fix how the code
  falls short: a second Hello from another address, UDP announcements to TCP addresses, panics on socket
  errors, on unintelligible data and when the application goes away, a message after its sender's disconnect.
  Conditions that a property needs are in the text above it: those on channels (that a mailbox refuses
  nothing, that a receiver is kept) and those on deliveries (\<open>incoming_ok\<close>, \<open>events_ok\<close>, \<open>delivery_ok\<close>).

  \<^bold>\<open>Not modelled.\<close> \<open>lib.rs\<close> (re-exports), the bounds of the trait \<open>MessageTypes\<close>, the command line of the
  chat example, the integration tests and the build files. Of the modelled functions: log calls, the text
  of most error messages, wakers, fairness and timing (the timer is an input that may arrive at any
  time, \<open>Instant::now()\<close> a value that comes with the item), and the order in which \<open>SelectAll\<close> polls. The channels
  that carry the read actors' items to the broker and the client and the client's events to the application
  (their capacities, and the adapters on their sending halves) are not objects of their own: a read actor's
  sink is a parameter, and what it has accepted is what the task is given. Dropping a handle is not a step
  of the model either: a dropped peer's handles go to the history \<open>dropped_peers\<close>, and what it means for the
  actor is the end of its mailbox in the inputs of \<open>read_actor\<close> and \<open>write_actor\<close>.
\<close>

section \<open>Properties that span components\<close>

text \<open>C4: the handshake completes. A client connects while the server has room; the UUID of the server's
  Welcome comes back in the client's Hello; the server then knows the peer's UDP address and answers
  on both transports; and the client, fed with exactly the messages the server posted, says Hello with
  that UUID and reports that it can send and receive on UDP. It is a claim of progress under the condition
  that no mailbox on the way refuses a message and the client's application keeps its event receiver; what
  happens when a mailbox refuses one is part of the property on all branches of the Hello.\<close>

theorem handshake_completes:
  fixes env :: "('rtx, 'wtx, 'utx, 'etx, 'tts, 'tfs, 'uts, 'ufs) server_env"
  assumes server: "safe_inv env ra wa ua ea st" and wopen: "receiver_open (wr_try_send env)"
    and uopen: "receiver_open (udp_try_send env)"
    and connection: "benign ra wa st (TcpListener (Inr stream) :: ('tts, 'tfs, 'uts, 'ufs) incoming, new)"
    and addr: "peer_addr stream = Inr addr" and room: "hm_len (peers st) < max_connections (config st)"
    and client: "try_send_law (client_udp_try_send cenv) cua" "receiver_open (client_udp_try_send cenv)"
      "sink_law (client_event_send cenv) cea" "sink_open (client_event_send cenv)"
      "\<not> has_received_on_udp cl"
  shows "\<exists>st2 p tcp udp cl'.
    run_loop (server_step env) st
      [(TcpListener (Inr stream), new),
       (UdpReader (StreamItem (Inr (UdpHello (new_v4 new)), udp_addr)), new')] = Running st2 \<and>
    hm_get (peers st2) (next_peer_uid st) = Some p \<and> udp_socket_addr p = Some udp_addr \<and>
    hm_get (peer_udp_socket_addr_to_peer_uid st2) udp_addr = Some (next_peer_uid st) \<and>
    wa (wr_actor_msg_tx (tcp_write_actor_handle p)) = map Send tcp \<and>
    ua (wr_actor_msg_tx (udp_write_actor st2)) = ua (wr_actor_msg_tx (udp_write_actor st)) @ map Send udp \<and>
    run_loop (client_step cenv) cl (map (arrives_tcp t) tcp @ map (arrives_udp t) udp) = Running cl' \<and>
    cua (wr_actor_msg_tx (client_udp_write_actor cl')) =
      cua (wr_actor_msg_tx (client_udp_write_actor cl)) @ [Send (UdpHello (new_v4 new))] \<and>
    cea (client_event_sender cl') = cea (client_event_sender cl) @ [CanSendUdpMessages, CanReceiveUdpMessages]"
proof -
  obtain st1 p1 where run1: "server_step env st (TcpListener (Inr stream), new) = Running st1"
    and inv1: "safe_inv env ra wa ua ea st1"
    and p1: "hm_get (peers st1) (next_peer_uid st) = Some p1" "udp_socket_addr p1 = None"
    and known: "hm_get (peer_handshake_uuid_to_peer_uid st1) (new_v4 new) = Some (next_peer_uid st)"
    and posted1: "wa (wr_actor_msg_tx (tcp_write_actor_handle p1)) = [Send (TcpWelcome (new_v4 new))]"
    and udp1: "udp_write_actor st1 = udp_write_actor st"
    by (rule accept_connection [OF server connection addr room wopen])
  obtain st2 p2 where
    run2: "server_step env st1 (UdpReader (StreamItem (Inr (UdpHello (new_v4 new)), udp_addr)), new') = Running st2"
    and p2: "hm_get (peers st2) (next_peer_uid st) = Some p2" "udp_socket_addr p2 = Some udp_addr"
    and ix: "hm_get (peer_udp_socket_addr_to_peer_uid st2) udp_addr = Some (next_peer_uid st)"
    and posted2: "wa (wr_actor_msg_tx (tcp_write_actor_handle p2)) =
      wa (wr_actor_msg_tx (tcp_write_actor_handle p1)) @ [Send UdpHandshakeAcknowledged]"
    and udp2: "ua (wr_actor_msg_tx (udp_write_actor st2)) =
      ua (wr_actor_msg_tx (udp_write_actor st1)) @ [Send (UdpWelcome, udp_addr)]"
    by (rule accept_hello [OF inv1 wopen uopen known p1])
  obtain cl' where crun: "run_loop (client_step cenv) cl
      [arrives_tcp t (TcpWelcome (new_v4 new)), arrives_tcp t UdpHandshakeAcknowledged,
       arrives_udp t (UdpWelcome, udp_addr)] = Running cl'"
    and hello: "cua (wr_actor_msg_tx (client_udp_write_actor cl')) =
      cua (wr_actor_msg_tx (client_udp_write_actor cl)) @ [Send (UdpHello (new_v4 new))]"
    and events: "cea (client_event_sender cl') =
      cea (client_event_sender cl) @ [CanSendUdpMessages, CanReceiveUdpMessages]"
    by (rule client_handshake [OF client])
  let ?tcp = "[TcpWelcome (new_v4 new), UdpHandshakeAcknowledged]"
  let ?udp = "[(UdpWelcome, udp_addr)]"
  have "run_loop (server_step env) st
      [(TcpListener (Inr stream), new),
       (UdpReader (StreamItem (Inr (UdpHello (new_v4 new)), udp_addr)), new')] = Running st2"
    using run1 run2 by simp
  moreover have "wa (wr_actor_msg_tx (tcp_write_actor_handle p2)) = map Send ?tcp"
    by (simp add: posted1 posted2)
  moreover have "ua (wr_actor_msg_tx (udp_write_actor st2)) =
      ua (wr_actor_msg_tx (udp_write_actor st)) @ map Send ?udp"
    by (simp add: udp1 udp2)
  moreover have "run_loop (client_step cenv) cl (map (arrives_tcp t) ?tcp @ map (arrives_udp t) ?udp) = Running cl'"
    using crun by simp
  ultimately show ?thesis using p2 ix hello events by blast
qed

theorem handshake_completes_witness:
  "\<exists>st2 p tcp udp cl'.
    run_loop (server_step (num_env True)) num_new
      [(TcpListener (Inr (ref_stream 1)), num_spawned 2 100),
       (UdpReader (StreamItem (Inr (UdpHello (new_v4 (num_spawned 2 100))), ref_addr 11)), num_spawned 6 0)] = Running st2 \<and>
    hm_get (peers st2) (next_peer_uid num_new) = Some p \<and> udp_socket_addr p = Some (ref_addr 11) \<and>
    hm_get (peer_udp_socket_addr_to_peer_uid st2) (ref_addr 11) = Some (next_peer_uid num_new) \<and>
    wr_actor_msg_tx (tcp_write_actor_handle p) = map Send tcp \<and>
    wr_actor_msg_tx (udp_write_actor st2) = wr_actor_msg_tx (udp_write_actor num_new) @ map Send udp \<and>
    run_loop (client_step ref_client_env) num_client (map (arrives_tcp 5) tcp @ map (arrives_udp 5) udp) = Running cl' \<and>
    wr_actor_msg_tx (client_udp_write_actor cl') =
      wr_actor_msg_tx (client_udp_write_actor num_client) @ [Send (UdpHello (new_v4 (num_spawned 2 100)))] \<and>
    client_event_sender cl' = client_event_sender num_client @ [CanSendUdpMessages, CanReceiveUdpMessages]"
  by (rule handshake_completes [where addr = "ref_addr 1" and cua = "\<lambda>l. l" and cea = "\<lambda>l. l",
        OF ref_safe_new ref_env_law(3) ref_env_law(4)])
    (simp_all add: ref_conditions ref_eval ref_unbounded_send_law ref_send_open_law ref_client_def client_task_new_def)

text \<open>C5: a chat message reaches everyone. A line typed by a connected user is posted by the chat client,
  serialized by the client task, reported by the broker, announced by the chat server and posted by
  the broker to the write actor of every connected peer; and every client that receives what was
  posted for it prints the line after its author's name. This too is a claim of progress: no mailbox and no
  event channel on the way refuses a message.\<close>

theorem chat_line_reaches_everyone:
  fixes env :: "('rtx, 'wtx, 'utx, 'etx, from_peer_to_server, from_server_to_peer, unit, unit) server_env"
  assumes server: "safe_inv env ra wa ua ea st" and typist: "hm_get (peers st) u = Some p"
    and broker: "iter_law (iter_order env)" "receiver_open (wr_try_send env)" "\<And>x. clone_tfs env x = x"
    and current: "chat_presence task = presence st"
    and chat: "try_send_law (chat_send cenv) ca" "receiver_open (chat_send cenv)"
    and handle: "try_send_law hs ha" "receiver_open hs"
    and sender: "try_send_law (client_tcp_try_send kenv) ka" "receiver_open (client_tcp_try_send kenv)"
    and reader: "sink_law (client_event_send lenv) la" "sink_open (client_event_send lenv)"
    and up: "serde_law ser de" "tcp_serialize ser (TcpToServerApplicationLogic (PeerSays s)) = Inr frame"
    and down: "serde_law ser' de'"
  shows "\<exists>user input m kl' m' st1 ev task' cmd st2 news.
    chat_input_step hs (chat_input_new h) (Inr (Suc n, s)) = Running input \<and>
    ha (client_sender (input_handle input)) = ha (client_sender h) @ [m] \<and>
    client_step kenv kl (Some (ClientActorMessage m), t) = Running kl' \<and>
    ka (wr_actor_msg_tx (client_tcp_write_actor kl')) = ka (wr_actor_msg_tx (client_tcp_write_actor kl)) @ [Send m'] \<and>
    tcp_serialize ser m' = Inr frame \<and>
    server_step env st (TcpReader (StreamItem (tcp_read_item de (Inr frame))) u, n1) = Running st1 \<and>
    ea (event_sender st1) = ea (event_sender st) @ [ev] \<and>
    hm_get (connected_users (chat_state task)) u = Some user \<and> chat_step cenv task ev = Running task' \<and>
    ca (server_sender (chat_handle task')) = ca (server_sender (chat_handle task)) @ [cmd] \<and>
    server_step env st1 (ActorMessage cmd, n2) = Running st2 \<and>
    (\<forall>v q. hm_get (peers st) v = Some q \<longrightarrow> (\<exists>q'. hm_get (peers st2) v = Some q' \<and>
       wa (wr_actor_msg_tx (tcp_write_actor_handle q')) = wa (wr_actor_msg_tx (tcp_write_actor_handle q)) @ [Send news])) \<and>
    (\<forall>frame' ll. tcp_serialize ser' news = Inr frame' \<longrightarrow>
       (\<exists>ll'. client_step lenv ll (Some (ClientTcpReader (StreamItem (tcp_read_item de' (Inr frame')))), t') = Running ll' \<and>
          client_output (la (client_event_sender ll')) =
            client_output (la (client_event_sender ll)) @ [user_name user @ '': '' @ s]))"
proof -
  let ?said = "TcpToServerApplicationLogic (PeerSays s)"
  let ?ev = "TcpMessage \<lparr>message_from = u, message_body = PeerSays s\<rparr>"
  have "u \<in> fst (chat_presence task)"
    using typist current by (simp add: presence_def dom_connected domI)
  then obtain user where user: "hm_get (connected_users (chat_state task)) u = Some user"
    by (auto simp: chat_presence_def)
  let ?msg = "NewMessage \<lparr>said_by = user, said_text = s\<rparr>"
  obtain m input kl' where says: "chat_input_step hs (chat_input_new h) (Inr (Suc n, s)) = Running input"
      "ha (client_sender (input_handle input)) = ha (client_sender h) @ [m]"
      "client_step kenv kl (Some (ClientActorMessage m), t) = Running kl'"
      "ka (wr_actor_msg_tx (client_tcp_write_actor kl')) = ka (wr_actor_msg_tx (client_tcp_write_actor kl)) @ [Send ?said]"
    by (rule client_says_line [OF handle sender])
  have read: "tcp_read_item de (Inr frame) = Inr ?said" by (rule tcp.roundtrip [OF up])
  obtain st1 where run1: "server_step env st (TcpReader (StreamItem (Inr ?said)) u, n1) = Running st1"
    and ev: "ea (event_sender st1) = ea (event_sender st) @ [?ev]"
    and inv1: "safe_inv env ra wa ua ea st1" and same: "peers st1 = peers st"
    by (rule tcp_message_reported [OF server])
  obtain task' where chats: "chat_step cenv task ?ev = Running task'"
      "ca (server_sender (chat_handle task')) = ca (server_sender (chat_handle task)) @ [AnnounceTcp ?msg]"
    by (rule chat_announces_message [OF chat user])
  obtain st2 where run2: "server_step env st1 (ActorMessage (AnnounceTcp ?msg), n2) = Running st2"
    and "safe_inv env ra wa ua ea st2"
    and posted: "\<And>v q. hm_get (peers st1) v = Some q \<Longrightarrow> \<exists>q'. hm_get (peers st2) v = Some q' \<and>
      wa (wr_actor_msg_tx (tcp_write_actor_handle q')) = wa (wr_actor_msg_tx (tcp_write_actor_handle q)) @
        [Send (TcpFromServerApplicationLogic (clone_tfs env ?msg))]"
    by (rule broker_announces [OF inv1 broker(1,2), of ?msg n2]) blast
  have heard: "\<exists>ll'. client_step lenv ll (Some (ClientTcpReader (StreamItem (tcp_read_item de' (Inr frame')))), t') = Running ll' \<and>
      client_output (la (client_event_sender ll')) = client_output (la (client_event_sender ll)) @ [user_name user @ '': '' @ s]"
    if "tcp_serialize ser' (TcpFromServerApplicationLogic ?msg) = Inr frame'" for frame' ll
    unfolding tcp.roundtrip [OF down that]
    by (rule client_hears [OF reader, where cl = ll and now = t' and msg = ?msg]) (auto simp: message_line_def)
  show ?thesis
    by (intro exI conjI) (rule says user up(2) run1 [folded read] ev chats run2 | use posted broker(3) same heard in auto)+
qed

theorem chat_line_reaches_everyone_witness:
  "\<exists>task user input m kl' m' st1 ev task' cmd st2 news.
    chat_input_step ref_unbounded_send (chat_input_new (client_handle_new 0 [])) (Inr (Suc 2, ''hi'')) = Running input \<and>
    client_sender (input_handle input) = client_sender (client_handle_new 0 []) @ [m] \<and>
    client_step ref_client_env chat_client (Some (ClientActorMessage m), 5) = Running kl' \<and>
    wr_actor_msg_tx (client_tcp_write_actor kl') = wr_actor_msg_tx (client_tcp_write_actor chat_client) @ [Send m'] \<and>
    tcp_serialize ref_say_serialize m' = Inr (text_bytes ''hi'') \<and>
    server_step chat_net_env chat_two
      (TcpReader (StreamItem (tcp_read_item ref_say_deserialize (Inr (text_bytes ''hi'')))) (PeerUid 0), ref_spawned 6 0) =
      Running st1 \<and>
    event_sender st1 = event_sender chat_two @ [ev] \<and>
    hm_get (connected_users (chat_state task)) (PeerUid 0) = Some user \<and> chat_step ref_chat_env task ev = Running task' \<and>
    server_sender (chat_handle task') = server_sender (chat_handle task) @ [cmd] \<and>
    server_step chat_net_env st1 (ActorMessage cmd, ref_spawned 6 0) = Running st2 \<and>
    (\<forall>v q. hm_get (peers chat_two) v = Some q \<longrightarrow> (\<exists>q'. hm_get (peers st2) v = Some q' \<and>
       wr_actor_msg_tx (tcp_write_actor_handle q') = wr_actor_msg_tx (tcp_write_actor_handle q) @ [Send news])) \<and>
    (\<forall>frame' ll. tcp_serialize ref_news_serialize news = Inr frame' \<longrightarrow>
       (\<exists>ll'. client_step ref_client_env ll
            (Some (ClientTcpReader (StreamItem (tcp_read_item ref_news_deserialize (Inr frame')))), 6) = Running ll' \<and>
          client_output (client_event_sender ll') =
            client_output (client_event_sender ll) @ [user_name user @ '': '' @ ''hi'']))"
proof -
  obtain task :: "(from_server_to_peer, unit) server_message list chat_task" where
    current: "chat_presence task = presence chat_two" by (rule ref_chat_current)
  show ?thesis
    by (rule exI [of _ task], rule chat_line_reaches_everyone [OF ref_safe_two ref_two_get(1) _ _ _ current])
      (simp_all add: ref_unbounded_send_law ref_send_open_law ref_say_law ref_news_law iter_law_def)
qed

text \<open>C11: the chat server run on the events of the network server: it commands the network server without
  a panic and its connected users are exactly the connected peers, unless the events hold a TCP message
  of a peer after that peer's disconnect; then it panics.\<close>

theorem chat_server_tracks_network_server:
  assumes "try_send_law (unbounded_send env) ea" and "ea tx = []"
    and "admissible (server_step env) events_ok (server_state_new cfg tx rt uc ut) is"
    and "server_actor env interval cfg tx rt uc ut (map Some is) = Running st"
    and "receiver_open (chat_send cenv)"
  shows "if late_message ({}, 0) (ea (event_sender st))
    then run_loop (chat_step cenv) (chat_task_new h) (ea (event_sender st)) = Panicked UnwrapNone
    else \<exists>task. run_loop (chat_step cenv) (chat_task_new h) (ea (event_sender st)) = Running task \<and>
      dom (hm_get (connected_users (chat_state task))) = dom (hm_get (peers st)) \<and>
      user_counter (chat_state task) = uid_nat (next_peer_uid st)"
proof -
  from assms(4) have "run_loop (server_step env) (server_state_new cfg tx rt uc ut) is = Running st"
    by (simp add: server_actor_Running)
  from presence.run_logs [OF assms(3) presence_inv_new [OF assms(1)] this] assms(2)
  have "replay presence_act (chat_presence (chat_task_new h)) (ea (event_sender st)) = Some (presence st)"
    unfolding presence_new chat_presence_new by (auto simp: server_state_new_def Let_def)
  from chat_run [OF assms(5) this] show ?thesis
    unfolding chat_presence_new by (auto simp: chat_presence_def presence_def dom_connected)
qed

theorem chat_server_tracks_network_server_witness:
  "if late_message ({}, 0) (event_sender chat_two)
    then run_loop (chat_step ref_chat_env) (chat_task_new (server_handle_new 0 [])) (event_sender chat_two) = Panicked UnwrapNone
    else \<exists>task. run_loop (chat_step ref_chat_env) (chat_task_new (server_handle_new 0 [])) (event_sender chat_two) =
        Running task \<and>
      dom (hm_get (connected_users (chat_state task))) = dom (hm_get (peers chat_two)) \<and>
      user_counter (chat_state task) = uid_nat (next_peer_uid chat_two)"
proof -
  have run: "server_actor chat_net_env (\<lambda>_. Inr ()) config_default [] 0 (\<lambda>_. []) 1 (map Some ref_inputs) = Running chat_two"
    using ref_run [of True] by (simp add: server_actor_Running ref_new_def)
  show ?thesis
    by (rule chat_server_tracks_network_server [OF ref_env_events_law refl ref_events_ok [unfolded ref_new_def] run])
      (simp add: ref_unbounded_send_law)
qed

text \<open>C6: any client can crash the chat server. When a connected peer sends unintelligible data followed
  by a well-formed message, the network server reports the disconnect and then the message, and the
  chat server panics on the message because its sender is no longer among the users.\<close>

theorem garbage_then_message_crashes_chat:
  fixes env :: "('rtx, 'wtx, 'utx, 'etx, from_peer_to_server, from_server_to_peer, unit, unit) server_env"
  assumes server: "safe_inv env ra wa ua ea st" and peer: "hm_get (peers st) u = Some p"
    and chat: "chat_presence task = presence st" and opened: "receiver_open (chat_send cenv)"
  shows "\<exists>st' evs. run_loop (server_step env) st
      [(TcpReader (StreamItem (Inl err)) u, n1),
       (TcpReader (StreamItem (Inr (TcpToServerApplicationLogic m))) u, n2)] = Running st' \<and>
    ea (event_sender st') = ea (event_sender st) @ evs \<and>
    run_loop (chat_step cenv) task evs = Panicked UnwrapNone"
proof -
  let ?gone = "PeerDisconnect \<lparr>disconnected_uid = u, disconnect_reason = PeerSubmittedUnintelligibleData\<rparr>"
  let ?late = "TcpMessage \<lparr>message_from = u, message_body = m\<rparr>"
  obtain st1 where run1: "server_step env st (TcpReader (StreamItem (Inl err)) u, n1) = Running st1"
    and inv1: "safe_inv env ra wa ua ea st1" and "disconnected_from ea u PeerSubmittedUnintelligibleData st st1"
    by (rule garbage_drops_peer [OF server])
  with peer have ev1: "ea (event_sender st1) = ea (event_sender st) @ [?gone]"
    by (simp add: disconnected_from_def)
  obtain st2 where
    run2: "server_step env st1 (TcpReader (StreamItem (Inr (TcpToServerApplicationLogic m))) u, n2) = Running st2"
    and ev2: "ea (event_sender st2) = ea (event_sender st1) @ [?late]"
    by (rule tcp_message_reported [OF inv1])
  have present: "u \<in> dom (connected st)" using peer by (simp add: dom_connected domI)
  have "chat_presence task = (dom (connected st), uid_nat (next_peer_uid st))"
    using chat by (simp add: presence_def)
  moreover have "presence_act (dom (connected st), uid_nat (next_peer_uid st)) ?gone =
      Some (dom (connected st) - {u}, uid_nat (next_peer_uid st))"
    using present by simp
  ultimately obtain task' where t1: "chat_event cenv ?gone task = Inr task'"
    and t2: "chat_presence task' = (dom (connected st) - {u}, uid_nat (next_peer_uid st))"
    using chat_event_accepts [OF opened, of task ?gone] by (metis server_event.distinct(9))
  have "chat_event cenv ?late task' = Inl UnwrapNone" by (rule chat_event_late) (simp add: t2)
  then have "run_loop (chat_step cenv) task [?gone, ?late] = Panicked UnwrapNone"
    using t1 by (simp add: chat_step_def del: chat_event.simps)
  with run1 run2 ev1 ev2 show ?thesis by simp
qed

theorem garbage_then_message_crashes_chat_witness:
  "\<exists>task st' evs. run_loop (server_step chat_net_env) chat_two
      [(TcpReader (StreamItem (Inl (TcpBincode ''bad''))) (PeerUid 0), ref_spawned 6 0),
       (TcpReader (StreamItem (Inr (TcpToServerApplicationLogic (PeerSays ''hi'')))) (PeerUid 0), ref_spawned 6 0)] =
      Running st' \<and>
    event_sender st' = event_sender chat_two @ evs \<and>
    run_loop (chat_step ref_chat_env) task evs = Panicked UnwrapNone"
proof -
  obtain task :: "(from_server_to_peer, unit) server_message list chat_task" where
    "chat_presence task = presence chat_two" by (rule ref_chat_current)
  from garbage_then_message_crashes_chat [OF ref_safe_two ref_two_get(1) this ref_chat_open]
  show ?thesis by blast
qed

end
